(* ===== verification/Go_Prelude.thy ===== *)
theory Go_Prelude
  imports Main "HOL-Library.Sublist" "HOL-Library.Word"
begin

text \<open>
  Shared vocabulary of the development: results as sums, the list functions behind
  \<^verbatim>\<open>strings.Join\<close>, \<^verbatim>\<open>strings.Split\<close>, \<^verbatim>\<open>strings.Cut\<close> and
  \<^verbatim>\<open>strconv.Itoa\<close>, \<^verbatim>\<open>errors.Join\<close>, and the generic lemmas on them.
  A Go string is a byte string, a \<^typ>\<open>string\<close> of HOL, whose characters are bytes.
\<close>

named_theorems go_split \<open>case splits of the result types\<close>
named_theorems go_string \<open>facts on Go string functions\<close>

section \<open>Results\<close>

type_synonym ('e, 'a) result = "'e + 'a"

abbreviation Ok :: "'a \<Rightarrow> 'e + 'a" where
  "Ok \<equiv> Inr"

abbreviation Err :: "'e \<Rightarrow> 'e + 'a" where
  "Err \<equiv> Inl"

lemmas result_splits [go_split] = sum.splits option.splits if_splits prod.splits list.splits

text \<open>\<^verbatim>\<open>errors.Join\<close>: the non-nil errors in order; nil when there is none.\<close>

definition errors_join :: "'e option list \<Rightarrow> 'e list" where
  "errors_join es = concat (map (\<lambda>e. case e of None \<Rightarrow> [] | Some x \<Rightarrow> [x]) es)"

lemma errors_join_Nil [simp]: "errors_join [] = []"
  by (simp add: errors_join_def)

lemma errors_join_Cons [simp]:
  "errors_join (e # es) = (case e of None \<Rightarrow> errors_join es | Some x \<Rightarrow> x # errors_join es)"
  by (simp add: errors_join_def split: option.split)

lemma errors_join_append [simp]: "errors_join (es @ fs) = errors_join es @ errors_join fs"
  by (simp add: errors_join_def)

lemma errors_join_empty_iff: "errors_join es = [] \<longleftrightarrow> (\<forall>e \<in> set es. e = None)"
  by (induction es) (auto split: option.splits)

section \<open>Joining and splitting\<close>

fun join :: "'a list \<Rightarrow> 'a list list \<Rightarrow> 'a list" where
  "join sep [] = []"
| "join sep [x] = x"
| "join sep (x # y # xs) = x @ sep @ join sep (y # xs)"

lemma join_Cons: "join sep (x # xs) = x @ (if xs = [] then [] else sep @ join sep xs)"
  by (cases xs) auto

lemma join_append:
  "join sep (xs @ ys) =
     (if xs = [] then join sep ys else if ys = [] then join sep xs
      else join sep xs @ sep @ join sep ys)"
  by (induction xs) (auto simp: join_Cons)

lemma set_join: "set (join sep xs) \<subseteq> set sep \<union> \<Union> (set ` set xs)"
  by (induction sep xs rule: join.induct) auto

text \<open>\<^verbatim>\<open>strings.Split(s, sep)\<close> for a one-byte separator.\<close>

fun split_on :: "'a \<Rightarrow> 'a list \<Rightarrow> 'a list list" where
  "split_on c [] = [[]]"
| "split_on c (x # xs) =
     (if x = c then [] # split_on c xs
      else (x # hd (split_on c xs)) # tl (split_on c xs))"

lemma split_on_not_Nil [simp]: "split_on c xs \<noteq> []"
  by (cases xs) auto

lemma join_split_on [simp]: "join [c] (split_on c xs) = xs"
proof (induction xs)
  case (Cons x xs)
  obtain p ps where "split_on c xs = p # ps"
    by (cases "split_on c xs") auto
  with Cons show ?case
    by (auto simp: join_Cons split: if_splits)
qed simp

lemma split_on_parts: "p \<in> set (split_on c xs) \<Longrightarrow> c \<notin> set p"
proof (induction xs arbitrary: p)
  case (Cons x xs)
  obtain q qs where "split_on c xs = q # qs"
    by (cases "split_on c xs") auto
  with Cons show ?case
    by (auto split: if_splits)
qed simp

lemma split_on_parts_subset: "p \<in> set (split_on c xs) \<Longrightarrow> set p \<subseteq> set xs"
proof (induction xs arbitrary: p)
  case (Cons x xs)
  obtain q qs where q: "split_on c xs = q # qs"
    by (cases "split_on c xs") auto
  with Cons.IH [of q] have "set q \<subseteq> set xs"
    by simp
  moreover have "r \<in> set qs \<Longrightarrow> set r \<subseteq> set xs" for r
    using q Cons.IH [of r] by simp
  ultimately show ?case
    using Cons.prems q by (auto split: if_splits)
qed simp

lemma split_on_no_sep [simp]: "c \<notin> set xs \<Longrightarrow> split_on c xs = [xs]"
  by (induction xs) auto

lemma split_on_append_sep:
  "c \<notin> set xs \<Longrightarrow> split_on c (xs @ c # ys) = xs # split_on c ys"
  by (induction xs) auto

text \<open>\<^verbatim>\<open>strings.Cut(s, sep)\<close> for a one-byte separator: the parts around its first occurrence.\<close>

fun cut :: "'a \<Rightarrow> 'a list \<Rightarrow> ('a list \<times> 'a list) option" where
  "cut c [] = None"
| "cut c (x # xs) =
     (if x = c then Some ([], xs) else map_option (\<lambda>(a, b). (x # a, b)) (cut c xs))"

lemma cut_Some: "cut c xs = Some (a, b) \<longleftrightarrow> xs = a @ c # b \<and> c \<notin> set a"
proof (induction xs arbitrary: a)
  case (Cons x xs)
  then show ?case by (cases a) auto
qed simp

lemma cut_None: "cut c xs = None \<longleftrightarrow> c \<notin> set xs"
  by (induction xs) auto

lemma cut_append [simp]: "c \<notin> set a \<Longrightarrow> cut c (a @ c # b) = Some (a, b)"
  by (simp add: cut_Some)

text \<open>\<^verbatim>\<open>strings.SplitN(s, sep, n)\<close> for a one-byte separator and \<open>n > 0\<close>.\<close>

fun split_n :: "nat \<Rightarrow> 'a \<Rightarrow> 'a list \<Rightarrow> 'a list list" where
  "split_n 0 c xs = []"
| "split_n (Suc 0) c xs = [xs]"
| "split_n (Suc (Suc n)) c xs =
     (case cut c xs of None \<Rightarrow> [xs] | Some (a, b) \<Rightarrow> a # split_n (Suc n) c b)"

section \<open>Decimal numerals\<close>

definition digit_char :: "nat \<Rightarrow> char" where
  "digit_char d = char_of (48 + d)"

fun itoa_nat :: "nat \<Rightarrow> string" where
  "itoa_nat n = (if n < 10 then [digit_char n] else itoa_nat (n div 10) @ [digit_char (n mod 10)])"

declare itoa_nat.simps [simp del]

text \<open>\<^verbatim>\<open>strconv.Itoa\<close> and the verb \<^verbatim>\<open>%d\<close>.\<close>

definition itoa :: "int \<Rightarrow> string" where
  "itoa i = (if i < 0 then CHR ''-'' # itoa_nat (nat (- i)) else itoa_nat (nat i))"

definition is_digit_char :: "char \<Rightarrow> bool" where
  "is_digit_char c \<longleftrightarrow> 48 \<le> (of_char c :: nat) \<and> (of_char c :: nat) \<le> 57"

definition digit_value :: "char \<Rightarrow> nat" where
  "digit_value c = of_char c - 48"

definition digits_value :: "string \<Rightarrow> nat" where
  "digits_value s = foldl (\<lambda>n c. 10 * n + digit_value c) 0 s"

lemma of_char_digit_char [simp]: "d < 10 \<Longrightarrow> (of_char (digit_char d) :: nat) = 48 + d"
  by (simp add: digit_char_def)

lemma digit_value_digit_char [simp]: "d < 10 \<Longrightarrow> digit_value (digit_char d) = d"
  by (simp add: digit_value_def)

lemma is_digit_digit_char [simp]: "d < 10 \<Longrightarrow> is_digit_char (digit_char d)"
  by (simp add: is_digit_char_def)

lemma itoa_nat_digits: "c \<in> set (itoa_nat n) \<Longrightarrow> is_digit_char c"
proof (induction n rule: itoa_nat.induct)
  case (1 n)
  then show ?case
    by (cases "n < 10") (auto simp: itoa_nat.simps [of n])
qed

lemma itoa_nat_not_Nil [simp]: "itoa_nat n \<noteq> []"
  by (simp add: itoa_nat.simps [of n])

lemma digits_value_snoc [simp]: "digits_value (s @ [c]) = 10 * digits_value s + digit_value c"
  by (simp add: digits_value_def)

lemma digits_value_itoa_nat [simp]: "digits_value (itoa_nat n) = n"
proof (induction n rule: itoa_nat.induct)
  case (1 n)
  show ?case
  proof (cases "n < 10")
    case True
    then show ?thesis by (simp add: itoa_nat.simps [of n] digits_value_def)
  next
    case False
    with 1 show ?thesis by (simp add: itoa_nat.simps [of n])
  qed
qed

lemma itoa_nat_inject [simp]: "itoa_nat m = itoa_nat n \<longleftrightarrow> m = n"
  by (metis digits_value_itoa_nat)

text \<open>Digits and small numbers evaluated, for concrete statements.\<close>

lemma digit_char_eval:
  "digit_char 0 = CHR ''0''" "digit_char 2 = CHR ''2''" "digit_char 3 = CHR ''3''" "digit_char 4 = CHR ''4''" "digit_char 5 = CHR ''5''" "digit_char 6 = CHR ''6''" "digit_char 7 = CHR ''7''" "digit_char 8 = CHR ''8''" "digit_char 9 = CHR ''9''" "digit_char (Suc 0) = CHR ''1''" "digit_char 1 = CHR ''1''"
  by (simp_all add: digit_char_def char_of_eq_iff)

lemma digit_char_eval_Suc:
  "digit_char (Suc (Suc 0)) = CHR ''2''" "digit_char (Suc (Suc (Suc 0))) = CHR ''3''" "digit_char (Suc (Suc (Suc (Suc 0)))) = CHR ''4''" "digit_char (Suc (Suc (Suc (Suc (Suc 0))))) = CHR ''5''" "digit_char (Suc (Suc (Suc (Suc (Suc (Suc 0)))))) = CHR ''6''" "digit_char (Suc (Suc (Suc (Suc (Suc (Suc (Suc 0))))))) = CHR ''7''" "digit_char (Suc (Suc (Suc (Suc (Suc (Suc (Suc (Suc 0)))))))) = CHR ''8''" "digit_char (Suc (Suc (Suc (Suc (Suc (Suc (Suc (Suc (Suc 0))))))))) = CHR ''9''"
  by (simp_all add: digit_char_def char_of_eq_iff)

lemma itoa_nat_eval: "n < 10 \<Longrightarrow> itoa_nat n = [digit_char n]"
  by (simp add: itoa_nat.simps)

end
