(* ===== verification/Go_Utf8.thy ===== *)
theory Go_Utf8
  imports Go_Prelude
begin

text \<open>
  UTF-8 as Go reads it: \<^verbatim>\<open>for _, r := range s\<close> and \<^verbatim>\<open>[]rune(s)\<close> (\<open>runes\<close>),
  \<^verbatim>\<open>strings.Builder.WriteRune\<close> and \<^verbatim>\<open>string(r)\<close> (\<open>encode_rune\<close>),
  \<^verbatim>\<open>utf8.RuneCountInString\<close>, \<^verbatim>\<open>utf8.ValidString\<close>, \<^verbatim>\<open>unicode.IsSpace\<close> and
  \<^verbatim>\<open>strings.TrimSpace\<close>. A rune is its code point; a byte that starts no valid
  encoding decodes to U+FFFD of width one, as in package \<^verbatim>\<open>unicode/utf8\<close>.
\<close>

type_synonym rune = nat

abbreviation rune_error :: rune where
  "rune_error \<equiv> 65533"

section \<open>Encoding\<close>

definition valid_rune :: "rune \<Rightarrow> bool" where
  "valid_rune r \<longleftrightarrow> r < 55296 \<or> (57343 < r \<and> r < 1114112)"

definition encode_valid :: "rune \<Rightarrow> nat list" where
  "encode_valid r =
     (if r < 128 then [r]
      else if r < 2048 then [192 + r div 64, 128 + r mod 64]
      else if r < 65536 then [224 + r div 4096, 128 + r div 64 mod 64, 128 + r mod 64]
      else [240 + r div 262144, 128 + r div 4096 mod 64, 128 + r div 64 mod 64, 128 + r mod 64])"

definition encode_rune :: "rune \<Rightarrow> string" where
  "encode_rune r = map char_of (encode_valid (if valid_rune r then r else rune_error))"

definition encode_runes :: "rune list \<Rightarrow> string" where
  "encode_runes rs = concat (map encode_rune rs)"

section \<open>Decoding\<close>

definition is_cont :: "nat \<Rightarrow> bool" where
  "is_cont b \<longleftrightarrow> 128 \<le> b \<and> b < 192"

text \<open>The range of the second byte after the lead byte of a three or four byte sequence.\<close>

definition second_ok :: "nat \<Rightarrow> nat \<Rightarrow> bool" where
  "second_ok b0 b1 \<longleftrightarrow>
     (if b0 = 224 then 160 \<le> b1 \<and> b1 < 192
      else if b0 = 237 then 128 \<le> b1 \<and> b1 < 160
      else if b0 = 240 then 144 \<le> b1 \<and> b1 < 192
      else if b0 = 244 then 128 \<le> b1 \<and> b1 < 144
      else is_cont b1)"

fun decode_bytes :: "nat list \<Rightarrow> rune list" where
  "decode_bytes [] = []"
| "decode_bytes (b0 # bs) =
     (if b0 < 128 then b0 # decode_bytes bs
      else if 194 \<le> b0 \<and> b0 < 224 then
        (case bs of
           b1 # rest \<Rightarrow>
             if is_cont b1 then ((b0 - 192) * 64 + (b1 - 128)) # decode_bytes rest
             else rune_error # decode_bytes bs
         | [] \<Rightarrow> rune_error # decode_bytes bs)
      else if 224 \<le> b0 \<and> b0 < 240 then
        (case bs of
           b1 # b2 # rest \<Rightarrow>
             if second_ok b0 b1 \<and> is_cont b2
             then ((b0 - 224) * 4096 + (b1 - 128) * 64 + (b2 - 128)) # decode_bytes rest
             else rune_error # decode_bytes bs
         | _ \<Rightarrow> rune_error # decode_bytes bs)
      else if 240 \<le> b0 \<and> b0 < 245 then
        (case bs of
           b1 # b2 # b3 # rest \<Rightarrow>
             if second_ok b0 b1 \<and> is_cont b2 \<and> is_cont b3
             then ((b0 - 240) * 262144 + (b1 - 128) * 4096 + (b2 - 128) * 64 + (b3 - 128)) # decode_bytes rest
             else rune_error # decode_bytes bs
         | _ \<Rightarrow> rune_error # decode_bytes bs)
      else rune_error # decode_bytes bs)"

declare decode_bytes.simps(2) [simp del]

definition bytes_of :: "string \<Rightarrow> nat list" where
  "bytes_of s = map of_char s"

definition runes :: "string \<Rightarrow> rune list" where
  "runes s = decode_bytes (bytes_of s)"

definition rune_count :: "string \<Rightarrow> nat" where
  "rune_count s = length (runes s)"

definition valid_string :: "string \<Rightarrow> bool" where
  "valid_string s \<longleftrightarrow> encode_runes (runes s) = s"

section \<open>Spaces\<close>

definition is_space :: "rune \<Rightarrow> bool" where
  "is_space r \<longleftrightarrow>
     (9 \<le> r \<and> r \<le> 13) \<or> r = 32 \<or> r = 133 \<or> r = 160 \<or> r = 5760 \<or> (8192 \<le> r \<and> r \<le> 8202) \<or>
     r = 8232 \<or> r = 8233 \<or> r = 8239 \<or> r = 8287 \<or> r = 12288"

definition trim_runes :: "rune list \<Rightarrow> rune list" where
  "trim_runes rs = rev (dropWhile is_space (rev (dropWhile is_space rs)))"

section \<open>Facts\<close>

lemma bytes_of_append [simp]: "bytes_of (s @ t) = bytes_of s @ bytes_of t"
  by (simp add: bytes_of_def)

lemma bytes_of_Nil [simp]: "bytes_of [] = []"
  by (simp add: bytes_of_def)

lemma bytes_of_Cons [simp]: "bytes_of (c # s) = of_char c # bytes_of s"
  by (simp add: bytes_of_def)

lemma runes_Nil [simp]: "runes [] = []"
  by (simp add: runes_def)

lemma encode_runes_Nil [simp]: "encode_runes [] = []"
  by (simp add: encode_runes_def)

lemma encode_runes_Cons [simp]: "encode_runes (r # rs) = encode_rune r @ encode_runes rs"
  by (simp add: encode_runes_def)

lemma encode_runes_append [simp]: "encode_runes (rs @ qs) = encode_runes rs @ encode_runes qs"
  by (simp add: encode_runes_def)

lemma valid_rune_error [simp]: "valid_rune rune_error"
  by (simp add: valid_rune_def)

lemma encode_valid_bytes: "valid_rune r \<Longrightarrow> b \<in> set (encode_valid r) \<Longrightarrow> b < 256"
  by (auto simp: encode_valid_def valid_rune_def split: if_splits)

lemma bytes_of_encode_rune:
  "bytes_of (encode_rune r) = encode_valid (if valid_rune r then r else rune_error)"
proof -
  have "map of_char (map char_of (encode_valid q)) = encode_valid q" if "valid_rune q" for q
    using encode_valid_bytes [OF that] by (auto simp: map_idI)
  then show ?thesis
    by (simp add: encode_rune_def bytes_of_def)
qed

text \<open>Decoding an encoded rune gives it back, whatever follows.\<close>

lemma decode_ascii: "b < 128 \<Longrightarrow> decode_bytes (b # bs) = b # decode_bytes bs"
  by (simp add: decode_bytes.simps)

lemma decode_encode_two:
  assumes "128 \<le> r" "r < 2048"
  shows "decode_bytes ((192 + r div 64) # (128 + r mod 64) # bs) = r # decode_bytes bs"
proof -
  have "2 \<le> r div 64" "r div 64 < 32" using assms by auto
  then show ?thesis
    by (simp add: decode_bytes.simps(2) is_cont_def)
qed

lemma decode_encode_three:
  assumes "2048 \<le> r" "r < 65536" "valid_rune r"
  shows "decode_bytes ((224 + r div 4096) # (128 + r div 64 mod 64) # (128 + r mod 64) # bs)
    = r # decode_bytes bs"
proof -
  define q where "q = r div 64"
  define p where "p = q div 64"
  have r: "r = 64 * q + r mod 64" and q: "q = 64 * p + q mod 64"
    unfolding q_def p_def by simp_all
  have p: "r div 4096 = p" unfolding p_def q_def by (simp add: div_mult2_eq [symmetric])
  have bounds: "p < 16" "p = 0 \<Longrightarrow> 32 \<le> q mod 64" "p = 13 \<Longrightarrow> q mod 64 < 32"
    using assms r q unfolding valid_rune_def by linarith+
  have "second_ok (224 + p) (128 + q mod 64)"
    using bounds unfolding second_ok_def is_cont_def by auto
  moreover have "p * 4096 + q mod 64 * 64 + r mod 64 = r"
    using r q by linarith
  ultimately show ?thesis
    using bounds(1) by (simp add: decode_bytes.simps(2) is_cont_def p q_def [symmetric])
qed

lemma decode_encode_four:
  assumes "65536 \<le> r" "r < 1114112"
  shows "decode_bytes ((240 + r div 262144) # (128 + r div 4096 mod 64) # (128 + r div 64 mod 64)
      # (128 + r mod 64) # bs) = r # decode_bytes bs"
proof -
  define q where "q = r div 64"
  define p where "p = q div 64"
  define t where "t = p div 64"
  have r: "r = 64 * q + r mod 64" and q: "q = 64 * p + q mod 64" and p: "p = 64 * t + p mod 64"
    unfolding q_def p_def t_def by simp_all
  have eqs: "r div 4096 = p" "r div 262144 = t"
    unfolding t_def p_def q_def by (simp_all add: div_mult2_eq [symmetric])
  have m: "r mod 64 < 64" "q mod 64 < 64" "p mod 64 < 64" by simp_all
  have bounds: "t < 5" "t = 0 \<Longrightarrow> 16 \<le> p mod 64" "t = 4 \<Longrightarrow> p mod 64 < 16"
    using assms r q p m by linarith+
  have "second_ok (240 + t) (128 + p mod 64)"
    using bounds unfolding second_ok_def is_cont_def by auto
  moreover have "t * 262144 + p mod 64 * 4096 + q mod 64 * 64 + r mod 64 = r"
    using r q p by linarith
  ultimately show ?thesis
    using bounds(1) by (simp add: decode_bytes.simps(2) is_cont_def eqs q_def [symmetric])
qed

lemma decode_encode_valid:
  assumes "valid_rune r"
  shows "decode_bytes (encode_valid r @ bs) = r # decode_bytes bs"
  using assms decode_ascii [of r bs] decode_encode_two [of r bs]
    decode_encode_three [of r bs] decode_encode_four [of r bs]
  by (auto simp: encode_valid_def valid_rune_def)

lemma runes_encode_rune_append:
  "valid_rune r \<Longrightarrow> runes (encode_rune r @ s) = r # runes s"
  by (simp add: runes_def bytes_of_encode_rune decode_encode_valid)

lemma runes_encode_runes [simp]: "list_all valid_rune rs \<Longrightarrow> runes (encode_runes rs) = rs"
  by (induction rs) (auto simp: runes_encode_rune_append)

text \<open>Decoding only yields valid runes.\<close>

lemma valid_decode_two:
  "b0 < 224 \<Longrightarrow> is_cont b1 \<Longrightarrow> valid_rune ((b0 - 192) * 64 + (b1 - 128))"
  unfolding valid_rune_def is_cont_def by linarith

lemma valid_decode_three:
  assumes "b0 < 240" "second_ok b0 b1" "is_cont b2"
  shows "valid_rune ((b0 - 224) * 4096 + (b1 - 128) * 64 + (b2 - 128))"
proof (cases "b0 = 237")
  case True
  with assms show ?thesis
    unfolding valid_rune_def is_cont_def second_ok_def by auto
next
  case False
  have b1: "b1 < 192"
    using assms(2) unfolding second_ok_def is_cont_def by (auto split: if_splits)
  have "b0 < 237 \<or> 238 \<le> b0" using False by linarith
  then show ?thesis
    using assms(1,3) b1 unfolding valid_rune_def is_cont_def by linarith
qed

lemma valid_decode_four:
  assumes "240 \<le> b0" "b0 < 245" "second_ok b0 b1" "is_cont b2" "is_cont b3"
  shows "valid_rune ((b0 - 240) * 262144 + (b1 - 128) * 4096 + (b2 - 128) * 64 + (b3 - 128))"
proof -
  have b1: "128 \<le> b1" "b1 < 192" "b0 = 240 \<Longrightarrow> 144 \<le> b1" "b0 = 244 \<Longrightarrow> b1 < 144"
    using assms(3) unfolding second_ok_def is_cont_def by (auto split: if_splits)
  define x y z where "x = (b0 - 240) * 64 + (b1 - 128)" and "y = b2 - 128" and "z = b3 - 128"
  have "16 \<le> x"
    using b1 assms(1) unfolding x_def by (cases "b0 = 240") auto
  moreover have "x \<le> 271"
    using b1 assms(2) unfolding x_def by (cases "b0 = 244") auto
  moreover have "y \<le> 63" "z \<le> 63"
    using assms(4,5) unfolding y_def z_def is_cont_def by auto
  ultimately have "valid_rune (x * 4096 + y * 64 + z)"
    unfolding valid_rune_def by linarith
  then show ?thesis
    by (simp add: x_def y_def z_def algebra_simps)
qed

lemma decode_bytes_valid: "list_all valid_rune (decode_bytes bs)"
proof (induction bs rule: decode_bytes.induct)
  case (2 b0 bs)
  note IH = "2.IH"
  consider "b0 < 128" | "194 \<le> b0" "b0 < 224" | "224 \<le> b0" "b0 < 240" | "240 \<le> b0" "b0 < 245"
    | "128 \<le> b0" "b0 < 194 \<or> 245 \<le> b0"
    by linarith
  then show ?case
  proof cases
    case 1
    with IH(1) show ?thesis
      by (simp add: decode_bytes.simps(2) valid_rune_def)
  next
    case 2
    with IH(2-4) show ?thesis
      by (simp add: decode_bytes.simps(2) valid_decode_two split: list.split)
  next
    case 3
    with IH(5-8) show ?thesis
      by (simp add: decode_bytes.simps(2) valid_decode_three split: list.split)
  next
    case 4
    with IH(9-13) show ?thesis
      by (simp add: decode_bytes.simps(2) valid_decode_four split: list.split)
  next
    case 5
    with IH show ?thesis
      by (auto simp: decode_bytes.simps(2))
  qed
qed simp

lemma runes_valid [simp]: "list_all valid_rune (runes s)"
  by (simp add: runes_def decode_bytes_valid)

lemma runes_valid_encode [simp]: "runes (encode_runes (runes s)) = runes s"
  by simp

definition ascii :: "string \<Rightarrow> bool" where
  "ascii s \<longleftrightarrow> list_all (\<lambda>c. (of_char c :: nat) < 128) s"

lemma ascii_simps [simp]:
  "ascii []" "ascii (c # s) \<longleftrightarrow> (of_char c :: nat) < 128 \<and> ascii s" "ascii (s @ t) \<longleftrightarrow> ascii s \<and> ascii t"
  by (simp_all add: ascii_def)

lemma runes_ascii [go_string]: "ascii s \<Longrightarrow> runes s = map of_char s"
  by (induction s) (auto simp: runes_def decode_ascii)

lemma encode_rune_ascii: "(of_char c :: nat) < 128 \<Longrightarrow> encode_rune (of_char c) = [c]"
  by (simp add: encode_rune_def encode_valid_def valid_rune_def)

lemma encode_runes_ascii [go_string]: "ascii s \<Longrightarrow> encode_runes (map of_char s) = s"
  by (induction s) (auto simp: encode_rune_ascii)

lemma valid_string_ascii: "ascii s \<Longrightarrow> valid_string s"
  by (simp add: valid_string_def go_string)

lemma valid_string_encode [simp]: "list_all valid_rune rs \<Longrightarrow> valid_string (encode_runes rs)"
  by (simp add: valid_string_def)

text \<open>Multi-byte encodings hold no ASCII byte, so an ASCII character of an encoded text is one of its runes.\<close>

lemma encode_valid_high: "valid_rune r \<Longrightarrow> 128 \<le> r \<Longrightarrow> b \<in> set (encode_valid r) \<Longrightarrow> 128 \<le> b"
  by (auto simp: encode_valid_def valid_rune_def split: if_splits)

lemma encode_rune_ascii_char:
  assumes "valid_rune r" "c \<in> set (encode_rune r)" "(of_char c :: nat) < 128"
  shows "of_char c = r"
proof -
  have "encode_rune r = map char_of (encode_valid r)" using assms(1) by (simp add: encode_rune_def)
  with assms(2) obtain b where b: "b \<in> set (encode_valid r)" "c = char_of b" by auto
  have "b < 256" using encode_valid_bytes [OF assms(1) b(1)] .
  then have c: "of_char c = b" using b(2) by simp
  with assms(3) have "b < 128" by simp
  with encode_valid_high [OF assms(1) _ b(1)] have "r < 128" by force
  with b(1) c show ?thesis by (auto simp: encode_valid_def)
qed

lemma encode_runes_ascii_char:
  "list_all valid_rune rs \<Longrightarrow> c \<in> set (encode_runes rs) \<Longrightarrow> (of_char c :: nat) < 128 \<Longrightarrow> of_char c \<in> set rs"
  by (induction rs) (use encode_rune_ascii_char in fastforce)+

lemma encode_rune_not_Nil [simp]: "encode_rune r \<noteq> []"
  by (simp add: encode_rune_def encode_valid_def)

lemma encode_runes_eq_Nil [simp]: "encode_runes rs = [] \<longleftrightarrow> rs = []"
  by (cases rs) auto

end
