(* ===== verification/Dialect.thy ===== *)
theory Dialect
  imports Go_Utf8
begin

text \<open>
  Package \<^verbatim>\<open>sqln/driver\<close>: the operators of a condition, what may be written into SQL text
  (\<^verbatim>\<open>identifier.go\<close>), literal LIKE patterns (\<^verbatim>\<open>like.go\<close>), the dialect
  interfaces (\<^verbatim>\<open>dialect.go\<close>, \<^verbatim>\<open>fulltext.go\<close>) as records of operations and the
  four dialects of \<^verbatim>\<open>driver/{postgres,mysql,sqlserver,oracle}/dialect.go\<close>. An optional
  interface, which the source finds with a type assertion, is an option field.
\<close>

section \<open>Go values\<close>

text \<open>The element type of a slice, as \<^verbatim>\<open>reflect.Kind\<close> sees it.\<close>

datatype elem_kind = KInterface | KUint8 | KString | KInt | KInt32 | KInt64 | KFloat64 | KTime | KOther nat

text \<open>
  Values of type \<^verbatim>\<open>any\<close>. A \<^verbatim>\<open>time.Time\<close> is its instant, zero for the zero time; a
  float is its bit pattern; \<open>VStringValue\<close>, \<open>VIntValue\<close> and \<open>VFloatValue\<close> are the wrapper
  types of \<^verbatim>\<open>sqln/filter\<close>; \<open>VOther\<close> is any other value.
\<close>

datatype goval =
    VNil
  | VString string
  | VBool bool
  | VInt int
  | VInt32 int
  | VInt64 int
  | VFloat32 "32 word"
  | VFloat64 "64 word"
  | VTime int
  | VSlice elem_kind "goval list"
  | VArray "goval list"
  | VStringValue string
  | VIntValue int
  | VFloatValue "64 word"
  | VOther nat

section \<open>Operators\<close>

definition op_Eq :: string where "op_Eq = ''=''"
definition op_NotEqual :: string where "op_NotEqual = ''!=''"
definition op_Less :: string where "op_Less = ''<''"
definition op_LessOrEqual :: string where "op_LessOrEqual = ''<=''"
definition op_Greater :: string where "op_Greater = ''>''"
definition op_GreaterOrEqual :: string where "op_GreaterOrEqual = ''>=''"
definition op_In :: string where "op_In = ''IN''"
definition op_NotIn :: string where "op_NotIn = ''NOT IN''"
definition op_Overlaps :: string where "op_Overlaps = ''&&''"
definition op_Contains :: string where "op_Contains = ''LIKE''"
definition op_NotContains :: string where "op_NotContains = ''NOT LIKE''"
definition op_Like :: string where "op_Like = ''~~''"
definition op_NotLike :: string where "op_NotLike = ''!~~''"
definition op_Search :: string where "op_Search = ''SEARCH''"
definition op_Between :: string where "op_Between = ''BETWEEN''"
definition op_IsNull :: string where "op_IsNull = ''IS NULL''"
definition op_IsNotNull :: string where "op_IsNotNull = ''IS NOT NULL''"
definition op_IsTrue :: string where "op_IsTrue = ''IS TRUE''"
definition op_IsFalse :: string where "op_IsFalse = ''IS FALSE''"
definition op_Group :: string where "op_Group = ''__group__''"
definition op_And :: string where "op_And = ''AND''"
definition op_Or :: string where "op_Or = ''OR''"

lemmas op_defs = op_Eq_def op_NotEqual_def op_Less_def op_LessOrEqual_def op_Greater_def
  op_GreaterOrEqual_def op_In_def op_NotIn_def op_Overlaps_def op_Contains_def op_NotContains_def
  op_Like_def op_NotLike_def op_Search_def op_Between_def op_IsNull_def op_IsNotNull_def
  op_IsTrue_def op_IsFalse_def op_Group_def op_And_def op_Or_def

definition AllowedOperators :: "string list" where
  "AllowedOperators =
     [op_Eq, op_NotEqual, op_Less, op_LessOrEqual, op_Greater, op_GreaterOrEqual,
      op_In, op_NotIn, op_Contains, op_NotContains, op_Like, op_NotLike, op_Search, op_Between,
      op_IsNull, op_IsNotNull, op_IsTrue, op_IsFalse, op_Group]"

section \<open>Identifiers\<close>

definition is_letter_char :: "char \<Rightarrow> bool" where
  "is_letter_char c \<longleftrightarrow>
     (let n = of_char c :: nat in (65 \<le> n \<and> n \<le> 90) \<or> (97 \<le> n \<and> n \<le> 122))"

definition ident_char :: "char \<Rightarrow> bool" where
  "ident_char c \<longleftrightarrow> is_letter_char c \<or> is_digit_char c \<or> c = CHR ''_'' \<or> c = CHR ''$''"

definition quoted_char :: "char \<Rightarrow> bool" where
  "quoted_char c \<longleftrightarrow> ident_char c \<or> c = CHR '' ''"

fun is_plain_name :: "string \<Rightarrow> bool" where
  "is_plain_name [] = False"
| "is_plain_name (c # cs) = ((is_letter_char c \<or> c = CHR ''_'') \<and> list_all ident_char cs)"

definition is_quoted_name :: "char \<Rightarrow> char \<Rightarrow> string \<Rightarrow> bool" where
  "is_quoted_name q1 q2 s \<longleftrightarrow>
     3 \<le> length s \<and> hd s = q1 \<and> last s = q2 \<and> list_all quoted_char (butlast (tl s))"

definition is_segment :: "string \<Rightarrow> bool" where
  "is_segment s \<longleftrightarrow>
     is_plain_name s \<or> is_quoted_name (CHR 0x22) (CHR 0x22) s \<or>
     is_quoted_name (CHR 0x60) (CHR 0x60) s \<or> is_quoted_name (CHR ''['') (CHR '']'') s"

text \<open>
  No segment holds a dot, so the regular expression \<^verbatim>\<open>^seg(?:\.seg){0,2}$\<close> matches exactly
  the strings whose dot-separated parts are one to three segments.
\<close>

definition IsIdentifier :: "string \<Rightarrow> bool" where
  "IsIdentifier s \<longleftrightarrow>
     (let ps = split_on (CHR ''.'') s in length ps \<le> 3 \<and> list_all is_segment ps)"

section \<open>Sort directions\<close>

text \<open>
  \<^verbatim>\<open>(?i)^(ASC|DESC)(?:\s+NULLS\s+(FIRST|LAST))?$\<close> over runes. Case folding
  lets \<open>S\<close> match U+017F too, whose upper case is \<open>S\<close>; \<^verbatim>\<open>\s\<close> is the ASCII space class.
\<close>

definition upper_rune :: "rune \<Rightarrow> rune" where
  "upper_rune r = (if 97 \<le> r \<and> r \<le> 122 then r - 32 else if r = 383 then 83 else r)"

definition re_space :: "rune \<Rightarrow> bool" where
  "re_space r \<longleftrightarrow> r = 9 \<or> r = 10 \<or> r = 12 \<or> r = 13 \<or> r = 32"

fun strip_ci :: "string \<Rightarrow> rune list \<Rightarrow> (rune list \<times> rune list) option" where
  "strip_ci [] rs = Some ([], rs)"
| "strip_ci (c # cs) [] = None"
| "strip_ci (c # cs) (r # rs) =
     (if upper_rune r = of_char c
      then map_option (\<lambda>(m, rest). (r # m, rest)) (strip_ci cs rs) else None)"

fun strip_any_ci :: "string list \<Rightarrow> rune list \<Rightarrow> (rune list \<times> rune list) option" where
  "strip_any_ci [] rs = None"
| "strip_any_ci (w # ws) rs =
     (case strip_ci w rs of Some m \<Rightarrow> Some m | None \<Rightarrow> strip_any_ci ws rs)"

definition strip_spaces1 :: "rune list \<Rightarrow> rune list option" where
  "strip_spaces1 rs =
     (case rs of [] \<Rightarrow> None | r # _ \<Rightarrow> if re_space r then Some (dropWhile re_space rs) else None)"

text \<open>The groups of the match: the direction and the position of the nulls, empty when absent.\<close>

definition match_direction :: "rune list \<Rightarrow> (rune list \<times> rune list) option" where
  "match_direction rs =
     (case strip_any_ci [''ASC'', ''DESC''] rs of
        None \<Rightarrow> None
      | Some (d, rest) \<Rightarrow>
          if rest = [] then Some (d, [])
          else (case strip_spaces1 rest of
                  None \<Rightarrow> None
                | Some rest1 \<Rightarrow>
                    (case strip_ci ''NULLS'' rest1 of
                       None \<Rightarrow> None
                     | Some (_, rest2) \<Rightarrow>
                         (case strip_spaces1 rest2 of
                            None \<Rightarrow> None
                          | Some rest3 \<Rightarrow>
                              (case strip_any_ci [''FIRST'', ''LAST''] rest3 of
                                 Some (n, []) \<Rightarrow> Some (d, n)
                               | _ \<Rightarrow> None)))))"

definition IsSortDirection :: "string \<Rightarrow> bool" where
  "IsSortDirection d \<longleftrightarrow> match_direction (trim_runes (runes d)) \<noteq> None"

definition SortDirection :: "string \<Rightarrow> string" where
  "SortDirection d =
     (case match_direction (trim_runes (runes d)) of
        None \<Rightarrow> ''ASC''
      | Some (m1, m2) \<Rightarrow>
          encode_runes (map upper_rune m1) @
          (if m2 \<noteq> [] then '' NULLS '' @ encode_runes (map upper_rune m2) else []))"

section \<open>Dialect interfaces\<close>

subsection \<open>Full-text definitions\<close>

type_synonym text_weight = char

abbreviation Unweighted :: text_weight where
  "Unweighted \<equiv> CHR 0x00"

definition weight_effective :: "text_weight \<Rightarrow> text_weight" where
  "weight_effective w = (if w = Unweighted then CHR ''D'' else w)"

definition weight_factor :: "text_weight \<Rightarrow> string" where
  "weight_factor w =
     (let e = weight_effective w in
      if e = CHR ''A'' then ''1.0'' else if e = CHR ''B'' then ''0.4''
      else if e = CHR ''C'' then ''0.2'' else ''0.1'')"

record text_column =
  col_Name :: string
  col_Weight :: text_weight

datatype text_strategy = StoredVector | ExpressionIndex | UnknownStrategy nat

record text_index =
  ti_Name :: string
  ti_Table :: string
  ti_Columns :: "text_column list"
  ti_Language :: string
  ti_Unaccent :: bool
  ti_Strategy :: text_strategy
  ti_VectorColumn :: string
  ti_MinTokenSize :: int
  ti_Concurrently :: bool
  ti_Suggest :: bool

record text_term =
  tt_Words :: "string list"
  tt_Prefix :: bool
  tt_Negate :: bool
  tt_Near :: nat
  tt_Synonyms :: "string list list"

type_synonym text_group = "text_term list"
type_synonym text_query = "text_group list"

text \<open>
  \<^verbatim>\<open>bind func(any) string\<close> appends to the caller's parameters, so it carries them:
  it takes a value and the parameters and returns the placeholder and the new parameters.
\<close>

type_synonym bind_fn = "goval \<Rightarrow> goval list \<Rightarrow> string \<times> goval list"

datatype ddl_error = ErrConcurrentIndex

record text_check =
  tc_Query :: string
  tc_Args :: "goval list"
  tc_Want :: string
  tc_What :: string
  tc_Index :: bool

record text_step =
  ts_Up :: "string list"
  ts_Down :: "string list"
  ts_Isolated :: bool

record full_text_dialect =
  TextSearchValue :: "text_index \<Rightarrow> text_query \<Rightarrow> string option"
  TextMatch :: "text_index \<Rightarrow> string \<Rightarrow> text_query \<Rightarrow> bind_fn \<Rightarrow> goval list \<Rightarrow> string option \<times> goval list"
  TextRank :: "text_index \<Rightarrow> string \<Rightarrow> text_query \<Rightarrow> bind_fn \<Rightarrow> goval list \<Rightarrow> string option \<times> goval list"
  TextHighlight ::
    "text_index \<Rightarrow> string \<Rightarrow> string \<Rightarrow> text_query \<Rightarrow> bind_fn \<Rightarrow> goval list \<Rightarrow> string option \<times> goval list"
  TextIndexDDL :: "text_index \<Rightarrow> string \<Rightarrow> (ddl_error, text_step list) result"
  TextIndexLookup :: "text_index \<Rightarrow> string \<times> goval list"
  TextChecks :: "text_index \<Rightarrow> text_check list"
  TextCandidates :: "text_index \<Rightarrow> string \<Rightarrow> bind_fn \<Rightarrow> goval list \<Rightarrow> string \<times> goval list"

subsection \<open>Filter and pagination\<close>

record array_dialect =
  ArrayMembership :: "string \<Rightarrow> string \<Rightarrow> bool \<Rightarrow> string"
  ArrayOverlap :: "string \<Rightarrow> string \<Rightarrow> string"

record filter_dialect =
  Param :: "nat \<Rightarrow> string"
  Like_sql :: "string \<Rightarrow> string \<Rightarrow> string"
  NotLike_sql :: "string \<Rightarrow> string \<Rightarrow> string"
  array_ops :: "array_dialect option"
  LikeWildcards :: "string option"
  text_ops :: "full_text_dialect option"

record dialect = filter_dialect +
  BuildPagination :: "string \<Rightarrow> string \<Rightarrow> 16 word \<Rightarrow> 64 word \<Rightarrow> string"
  BuildCount :: "string \<Rightarrow> string"

section \<open>Literal LIKE patterns\<close>

definition LikeEscapeClause :: string where
  "LikeEscapeClause = '' ESCAPE '' @ [CHR 0x27] @ ''!'' @ [CHR 0x27]"

definition like_special :: "'a filter_dialect_scheme \<Rightarrow> rune list" where
  "like_special d =
     runes (''!%_'' @ (case LikeWildcards d of None \<Rightarrow> [] | Some w \<Rightarrow> w))"

definition escape_rune :: "rune list \<Rightarrow> rune \<Rightarrow> rune list" where
  "escape_rune special r = (if r \<in> set special then [33, r] else [r])"

definition EscapeLike :: "'a filter_dialect_scheme \<Rightarrow> string \<Rightarrow> string" where
  "EscapeLike d s = encode_runes (concat (map (escape_rune (like_special d)) (runes s)))"

section \<open>The four dialects\<close>

abbreviation unat_text :: "'a::len word \<Rightarrow> string" where
  "unat_text w \<equiv> itoa_nat (unat w)"

definition postgres_Param :: "nat \<Rightarrow> string" where
  "postgres_Param i = ''$'' @ itoa_nat i"

definition postgres_Like :: "string \<Rightarrow> string \<Rightarrow> string" where
  "postgres_Like field param = field @ '' ILIKE '' @ param"

definition postgres_NotLike :: "string \<Rightarrow> string \<Rightarrow> string" where
  "postgres_NotLike field param = field @ '' NOT ILIKE '' @ param"

definition postgres_ArrayMembership :: "string \<Rightarrow> string \<Rightarrow> bool \<Rightarrow> string" where
  "postgres_ArrayMembership field param negate =
     (if negate then field @ '' <> ALL('' @ param @ '')'' else field @ '' = ANY('' @ param @ '')'')"

definition postgres_ArrayOverlap :: "string \<Rightarrow> string \<Rightarrow> string" where
  "postgres_ArrayOverlap field param = field @ '' && '' @ param"

definition postgres_BuildPagination :: "string \<Rightarrow> string \<Rightarrow> 16 word \<Rightarrow> 64 word \<Rightarrow> string" where
  "postgres_BuildPagination query order limit offset =
     (if order = [] then query @ '' LIMIT '' @ unat_text limit @ '' OFFSET '' @ unat_text offset
      else query @ '' ORDER BY '' @ order @ '' LIMIT '' @ unat_text limit @ '' OFFSET '' @ unat_text offset)"

definition postgres_BuildCount :: "string \<Rightarrow> string" where
  "postgres_BuildCount query = ''SELECT COUNT(*) FROM ('' @ query @ '') tb''"

definition postgres_arrays :: array_dialect where
  "postgres_arrays =
     \<lparr>ArrayMembership = postgres_ArrayMembership, ArrayOverlap = postgres_ArrayOverlap\<rparr>"

definition mysql_Param :: "nat \<Rightarrow> string" where
  "mysql_Param i = ''?''"

definition mysql_Like :: "string \<Rightarrow> string \<Rightarrow> string" where
  "mysql_Like field param = field @ '' LIKE '' @ param"

definition mysql_NotLike :: "string \<Rightarrow> string \<Rightarrow> string" where
  "mysql_NotLike field param = field @ '' NOT LIKE '' @ param"

definition mysql_BuildPagination :: "string \<Rightarrow> string \<Rightarrow> 16 word \<Rightarrow> 64 word \<Rightarrow> string" where
  "mysql_BuildPagination query order limit offset =
     (if order = [] then query @ '' LIMIT '' @ unat_text limit @ '' OFFSET '' @ unat_text offset
      else query @ '' ORDER BY '' @ order @ '' LIMIT '' @ unat_text limit @ '' OFFSET '' @ unat_text offset)"

definition mysql_BuildCount :: "string \<Rightarrow> string" where
  "mysql_BuildCount query = ''SELECT COUNT(*) FROM ('' @ query @ '') tb''"

definition sqlserver_Param :: "nat \<Rightarrow> string" where
  "sqlserver_Param i = ''@p'' @ itoa_nat i"

definition sqlserver_LikeWildcards :: string where
  "sqlserver_LikeWildcards = ''[''"

definition sqlserver_Like :: "string \<Rightarrow> string \<Rightarrow> string" where
  "sqlserver_Like field param = field @ '' LIKE '' @ param"

definition sqlserver_NotLike :: "string \<Rightarrow> string \<Rightarrow> string" where
  "sqlserver_NotLike field param = field @ '' NOT LIKE '' @ param"

definition sqlserver_BuildPagination :: "string \<Rightarrow> string \<Rightarrow> 16 word \<Rightarrow> 64 word \<Rightarrow> string" where
  "sqlserver_BuildPagination query order limit offset =
     (let order' = if order = [] then ''(SELECT NULL)'' else order in
      query @ '' ORDER BY '' @ order' @ '' OFFSET '' @ unat_text offset @
      '' ROWS FETCH NEXT '' @ unat_text limit @ '' ROWS ONLY'')"

definition sqlserver_BuildCount :: "string \<Rightarrow> string" where
  "sqlserver_BuildCount query = ''SELECT COUNT(*) FROM ('' @ query @ '') AS tb''"

definition oracle_Param :: "nat \<Rightarrow> string" where
  "oracle_Param i = '':'' @ itoa_nat i"

definition oracle_Like :: "string \<Rightarrow> string \<Rightarrow> string" where
  "oracle_Like field param = field @ '' LIKE '' @ param"

definition oracle_NotLike :: "string \<Rightarrow> string \<Rightarrow> string" where
  "oracle_NotLike field param = field @ '' NOT LIKE '' @ param"

definition oracle_BuildPagination :: "string \<Rightarrow> string \<Rightarrow> 16 word \<Rightarrow> 64 word \<Rightarrow> string" where
  "oracle_BuildPagination query order limit offset =
     (let query' = if order \<noteq> [] then query @ '' ORDER BY '' @ order else query in
      ''SELECT * FROM (SELECT tb.*, ROWNUM rn FROM ('' @ query' @ '') tb WHERE ROWNUM <= '' @
      unat_text (offset + ucast limit) @ '') WHERE rn > '' @ unat_text offset)"

definition oracle_BuildCount :: "string \<Rightarrow> string" where
  "oracle_BuildCount query = ''SELECT COUNT(*) FROM ('' @ query @ '') tb''"

section \<open>Identifiers cannot leave their place\<close>

text \<open>
  What a SQL scanner makes of a text: the delimiter it waits for at the end, if any, and the
  characters it read outside every quoted name or literal.
\<close>

fun sql_scan :: "char option \<Rightarrow> string \<Rightarrow> char option \<times> string" where
  "sql_scan q [] = (q, [])"
| "sql_scan None (c # cs) =
     (if c = CHR 0x22 \<or> c = CHR 0x60 \<or> c = CHR 0x27 then sql_scan (Some c) cs
      else if c = CHR ''['' then sql_scan (Some (CHR '']'')) cs
      else (case sql_scan None cs of (q, u) \<Rightarrow> (q, c # u)))"
| "sql_scan (Some e) (c # cs) = (if c = e then sql_scan None cs else sql_scan (Some e) cs)"

lemma sql_scan_append:
  "sql_scan q (s @ t) =
     (let (q1, u1) = sql_scan q s; (q2, u2) = sql_scan q1 t in (q2, u1 @ u2))"
  by (induction q s rule: sql_scan.induct) (auto split: prod.splits)

lemma ident_char_safe:
  "ident_char c \<Longrightarrow> c \<notin> {CHR 0x22, CHR 0x60, CHR 0x27, CHR ''['', CHR '']'', CHR '' '', CHR ''.''}"
  by (auto simp: ident_char_def is_letter_char_def is_digit_char_def Let_def)

lemma sql_scan_ident: "list_all ident_char s \<Longrightarrow> sql_scan None s = (None, s)"
  by (induction s) (use ident_char_safe in force)+

lemma sql_scan_quoted:
  "list_all quoted_char s \<Longrightarrow> e \<in> {CHR 0x22, CHR 0x60, CHR '']''} \<Longrightarrow> sql_scan (Some e) s = (Some e, [])"
  by (induction s) (use ident_char_safe in \<open>force simp: quoted_char_def\<close>)+

lemma plain_name_chars: "is_plain_name s \<Longrightarrow> list_all ident_char s \<and> s \<noteq> []"
  by (cases s) (auto simp: ident_char_def)

lemma quoted_name_shape:
  assumes "is_quoted_name q1 q2 s"
  obtains b where "s = q1 # b @ [q2]" "b \<noteq> []" "list_all quoted_char b"
proof -
  from assms have len: "3 \<le> length s" and hl: "hd s = q1" "last s = q2"
    and b: "list_all quoted_char (butlast (tl s))"
    by (auto simp: is_quoted_name_def)
  from len obtain x xs where s: "s = x # xs" by (cases s) auto
  with len have "xs \<noteq> []" by auto
  moreover from \<open>xs \<noteq> []\<close> have "xs = butlast xs @ [last xs]" by simp
  moreover have "butlast xs \<noteq> []" using len s by (cases xs rule: rev_cases) auto
  ultimately show thesis using that [of "butlast xs"] hl b s \<open>xs \<noteq> []\<close> by auto
qed

lemma sql_scan_segment:
  assumes "is_segment s"
  shows "fst (sql_scan None s) = None" "list_all ident_char (snd (sql_scan None s))"
proof -
  have "sql_scan None s = (None, s) \<and> list_all ident_char s \<or> sql_scan None s = (None, [])"
    using assms unfolding is_segment_def
    by (elim disjE quoted_name_shape)
      (auto dest!: plain_name_chars simp: sql_scan_ident sql_scan_append sql_scan_quoted)
  then show "fst (sql_scan None s) = None" "list_all ident_char (snd (sql_scan None s))"
    by auto
qed

lemma sql_scan_join_segments:
  "list_all is_segment ps \<Longrightarrow> fst (sql_scan None (join ''.'' ps)) = None \<and>
     list_all (\<lambda>c. ident_char c \<or> c = CHR ''.'') (snd (sql_scan None (join ''.'' ps)))"
proof (induction ps)
  case (Cons p ps)
  then have p: "fst (sql_scan None p) = None" "list_all ident_char (snd (sql_scan None p))"
    using sql_scan_segment by auto
  then have "sql_scan None p = (None, snd (sql_scan None p))"
    by (metis prod.collapse)
  with Cons p show ?case
    by (auto simp: join_Cons sql_scan_append Let_def list.pred_set split: prod.splits)
qed auto

lemma identifier_scan:
  assumes "IsIdentifier s"
  shows "fst (sql_scan None s) = None"
    "list_all (\<lambda>c. ident_char c \<or> c = CHR ''.'') (snd (sql_scan None s))"
  using assms sql_scan_join_segments [of "split_on (CHR ''.'') s"]
  by (auto simp: IsIdentifier_def Let_def)

lemma IsIdentifier_not_Nil: "IsIdentifier s \<Longrightarrow> s \<noteq> []"
  by (auto simp: IsIdentifier_def is_segment_def is_quoted_name_def)

section \<open>Sort directions\<close>

lemma strip_ci_Some:
  "strip_ci w rs = Some (m, rest) \<Longrightarrow> map upper_rune m = map of_char w \<and> rs = m @ rest"
  by (induction w rs arbitrary: m rule: strip_ci.induct) (auto split: if_splits)

lemma strip_any_ci_Some:
  "strip_any_ci ws rs = Some (m, rest) \<Longrightarrow> \<exists>w\<in>set ws. map upper_rune m = map of_char w \<and> rs = m @ rest"
  by (induction ws) (auto split: option.splits dest: strip_ci_Some)

lemma match_direction_Some:
  assumes "match_direction rs = Some (d, n)"
  shows "\<exists>w\<in>{''ASC'', ''DESC''}. map upper_rune d = map of_char w"
    "n = [] \<or> (\<exists>w\<in>{''FIRST'', ''LAST''}. map upper_rune n = map of_char w)"
  using assms
  by (auto simp: match_direction_def simp del: strip_any_ci.simps dest!: strip_any_ci_Some
      split: option.splits prod.splits if_splits list.splits)

definition sort_directions :: "string list" where
  "sort_directions =
     [''ASC'', ''DESC'', ''ASC NULLS FIRST'', ''ASC NULLS LAST'', ''DESC NULLS FIRST'', ''DESC NULLS LAST'']"

lemma SortDirection_range: "SortDirection d \<in> set sort_directions"
proof (cases "match_direction (trim_runes (runes d))")
  case None
  then show ?thesis by (simp add: SortDirection_def sort_directions_def)
next
  case (Some m)
  obtain m1 m2 where m: "m = (m1, m2)" by (cases m)
  note ms = match_direction_Some [OF Some [unfolded m]]
  then obtain w where w: "w \<in> {''ASC'', ''DESC''}" "map upper_rune m1 = map of_char w" by blast
  then have e1: "encode_runes (map upper_rune m1) = w" using encode_runes_ascii [of w] by auto
  show ?thesis
  proof (cases "m2 = []")
    case True
    with e1 w Some m show ?thesis by (auto simp: SortDirection_def sort_directions_def)
  next
    case False
    with ms obtain v where v: "v \<in> {''FIRST'', ''LAST''}" "map upper_rune m2 = map of_char v" by blast
    then have "encode_runes (map upper_rune m2) = v" using encode_runes_ascii [of v] by auto
    with e1 w v Some m False show ?thesis by (auto simp: SortDirection_def sort_directions_def)
  qed
qed

lemma encode_letters:
  "encode_rune 65 = ''A''" "encode_rune 68 = ''D''" "encode_rune 69 = ''E''" "encode_rune 83 = ''S''" "encode_rune 67 = ''C''" "encode_rune 70 = ''F''" "encode_rune 73 = ''I''" "encode_rune 82 = ''R''" "encode_rune 84 = ''T''" "encode_rune 76 = ''L''"
  using encode_rune_ascii [of "CHR ''A''"]
    encode_rune_ascii [of "CHR ''D''"]
    encode_rune_ascii [of "CHR ''E''"]
    encode_rune_ascii [of "CHR ''S''"]
    encode_rune_ascii [of "CHR ''C''"]
    encode_rune_ascii [of "CHR ''F''"]
    encode_rune_ascii [of "CHR ''I''"]
    encode_rune_ascii [of "CHR ''R''"]
    encode_rune_ascii [of "CHR ''T''"]
    encode_rune_ascii [of "CHR ''L''"]
  by simp_all

lemma SortDirection_fixed: "d \<in> set sort_directions \<Longrightarrow> SortDirection d = d"
  unfolding sort_directions_def
  by (auto simp: SortDirection_def runes_ascii trim_runes_def is_space_def match_direction_def
      strip_spaces1_def re_space_def upper_rune_def encode_letters)

section \<open>LIKE patterns match literally\<close>

text \<open>
  The documented meaning of \<^verbatim>\<open>LIKE p ESCAPE '!'\<close> on code points: \<open>%\<close> is any sequence,
  \<open>_\<close> any character, the escape makes the next character literal and, where the server has
  character classes, \<open>[...]\<close> is one of the listed characters.
\<close>

function like_match :: "bool \<Rightarrow> rune list \<Rightarrow> rune list \<Rightarrow> bool" where
  "like_match cls [] t = (t = [])"
| "like_match cls (p # ps) t =
     (if p = 33 then
        (case ps of [] \<Rightarrow> False | q # qs \<Rightarrow>
           (case t of [] \<Rightarrow> False | c # cs \<Rightarrow> c = q \<and> like_match cls qs cs))
      else if p = 37 then
        like_match cls ps t \<or> (case t of [] \<Rightarrow> False | c # cs \<Rightarrow> like_match cls (p # ps) cs)
      else if p = 95 then (case t of [] \<Rightarrow> False | c # cs \<Rightarrow> like_match cls ps cs)
      else if cls \<and> p = 91 then
        (let body = takeWhile (\<lambda>r. r \<noteq> 93) ps in
         case t of [] \<Rightarrow> False
         | c # cs \<Rightarrow> c \<in> set body \<and> like_match cls (drop (length body + 1) ps) cs)
      else (case t of [] \<Rightarrow> False | c # cs \<Rightarrow> c = p \<and> like_match cls ps cs))"
  by pat_completeness auto
termination
  by (relation "measure (\<lambda>(cls, ps, t). length ps + length t)") auto

lemma like_match_percent:
  "like_match cls (37 # ps) t \<longleftrightarrow> (\<exists>a b. t = a @ b \<and> like_match cls ps b)"
proof (induction t)
  case (Cons c cs)
  have "like_match cls (37 # ps) (c # cs) \<longleftrightarrow> like_match cls ps (c # cs) \<or> like_match cls (37 # ps) cs"
    by simp
  also have "\<dots> \<longleftrightarrow> (\<exists>a b. c # cs = a @ b \<and> like_match cls ps b)"
    unfolding Cons.IH by (auto simp: Cons_eq_append_conv)
  finally show ?case .
qed simp

lemma like_match_any: "like_match cls [37] t"
  unfolding like_match_percent by auto

definition special_ok :: "bool \<Rightarrow> rune list \<Rightarrow> bool" where
  "special_ok cls special \<longleftrightarrow> {33, 37, 95} \<subseteq> set special \<and> (cls \<longrightarrow> 91 \<in> set special)"

lemma like_match_escaped:
  assumes "special_ok cls special"
  shows "like_match cls (concat (map (escape_rune special) s) @ p) t \<longleftrightarrow>
    (\<exists>t'. t = s @ t' \<and> like_match cls p t')"
proof (induction s arbitrary: t)
  case (Cons r s)
  have "like_match cls (escape_rune special r @ q) t \<longleftrightarrow> (\<exists>t'. t = r # t' \<and> like_match cls q t')" for q
    using assms by (cases t) (auto simp: escape_rune_def special_ok_def)
  with Cons show ?case by auto
qed simp

lemma like_match_contains:
  assumes "special_ok cls special"
  shows "like_match cls (37 # concat (map (escape_rune special) s) @ [37]) t \<longleftrightarrow> sublist s t"
  unfolding like_match_percent like_match_escaped [OF assms]
  by (auto simp: sublist_def like_match_any)

lemma escape_runes_valid:
  "list_all valid_rune rs \<Longrightarrow> list_all valid_rune (concat (map (escape_rune special) rs))"
  by (induction rs) (auto simp: escape_rune_def valid_rune_def)

lemma runes_wrap_percent:
  assumes "list_all valid_rune rs"
  shows "runes (''%'' @ encode_runes rs @ ''%'') = 37 # rs @ [37]"
proof -
  have "''%'' @ encode_runes rs @ ''%'' = encode_runes (37 # rs @ [37])"
    using encode_rune_ascii [of "CHR ''%''"] by simp
  moreover have "list_all valid_rune (37 # rs @ [37])"
    using assms by (auto simp: valid_rune_def)
  ultimately show ?thesis by (metis runes_encode_runes)
qed

lemma EscapeLike_contains:
  assumes "special_ok cls (like_special d)"
  shows "like_match cls (runes (''%'' @ EscapeLike d s @ ''%'')) t \<longleftrightarrow> sublist (runes s) t"
  unfolding EscapeLike_def
  by (simp only: runes_wrap_percent [OF escape_runes_valid [OF runes_valid]] like_match_contains [OF assms])

lemma EscapeLike_ascii:
  assumes "ascii s" "ascii w" "LikeWildcards d = Some w \<or> LikeWildcards d = None \<and> w = []"
  shows "EscapeLike d s =
    concat (map (\<lambda>c. if c \<in> set (''!%_'' @ w) then [CHR ''!'', c] else [c]) s)"
proof -
  have special: "like_special d = map of_char (''!%_'' @ w)"
    using assms runes_ascii [of "''!%_'' @ w"] by (auto simp: like_special_def)
  have mem: "(of_char c :: nat) \<in> set (like_special d) \<longleftrightarrow> c \<in> set (''!%_'' @ w)" for c
    unfolding special set_map by (rule inj_image_mem_iff [OF inj_of_char])
  have "encode_runes (concat (map (escape_rune (like_special d)) (map of_char s))) =
      concat (map (\<lambda>c. if c \<in> set (''!%_'' @ w) then [CHR ''!'', c] else [c]) s)"
    using assms(1)
  proof (induction s)
    case (Cons c s)
    have "encode_rune 33 = ''!''" using encode_rune_ascii [of "CHR ''!''"] by simp
    with Cons show ?case
      by (simp add: escape_rune_def mem encode_rune_ascii del: set_append set_simps)
  qed simp
  then show ?thesis
    using assms(1) by (simp add: EscapeLike_def runes_ascii del: map_map)
qed

end
