(* ===== verification/Full_Text.thy ===== *)
theory Full_Text
  imports Dialect
begin

text \<open>
  Full-text search of the dialects: \<^verbatim>\<open>sqln/driver/fold.go\<close>, the methods of \<^verbatim>\<open>TextIndex\<close>
  (\<^verbatim>\<open>sqln/driver/fulltext.go\<close>) and the renderings of \<^verbatim>\<open>driver/postgres/fulltext.go\<close> and
  \<^verbatim>\<open>driver/mysql/fulltext.go\<close>. The Unicode tables of the Go library and the embedded stopword
  files are fields of \<open>text_env\<close>, so every theorem holds for all of them.
\<close>

section \<open>Environment\<close>

text \<open>
  \<open>word_rune\<close> is \<^verbatim>\<open>IsLetter || IsDigit || IsMark\<close>, \<open>lower_rune\<close> is \<^verbatim>\<open>unicode.ToLower\<close> and
  \<open>stop_files\<close> holds the lines of \<^verbatim>\<open>stopwords/<language>.stop\<close>.
\<close>

record text_env =
  word_rune :: "rune \<Rightarrow> bool"
  lower_rune :: "rune \<Rightarrow> rune"
  stop_files :: "(string \<times> string list) list"

text \<open>The tables restricted to ASCII, without stopwords: a concrete environment.\<close>

definition ascii_env :: text_env where
  "ascii_env =
     \<lparr>word_rune = (\<lambda>r. (48 \<le> r \<and> r \<le> 57) \<or> (65 \<le> r \<and> r \<le> 90) \<or> (97 \<le> r \<and> r \<le> 122)),
      lower_rune = (\<lambda>r. if 65 \<le> r \<and> r \<le> 90 then r + 32 else r), stop_files = []\<rparr>"

definition ToLower :: "text_env \<Rightarrow> string \<Rightarrow> string" where
  "ToLower env s = encode_runes (map (lower_rune env) (runes s))"

definition TrimSpace :: "string \<Rightarrow> string" where
  "TrimSpace s = encode_runes (trim_runes (runes s))"

abbreviation quote :: string where "quote \<equiv> [CHR 0x27]"
abbreviation dquote :: string where "dquote \<equiv> [CHR 0x22]"
abbreviation newline :: string where "newline \<equiv> [CHR 0x0A]"
abbreviation backslash :: string where "backslash \<equiv> [CHR 0x5C]"

definition double_quotes :: "string \<Rightarrow> string" where
  "double_quotes s = concat (map (\<lambda>c. if c = CHR 0x27 then quote @ quote else [c]) s)"

section \<open>Accents (driver/fold.go)\<close>

definition accent_table :: "(rune \<times> rune list) list" where
  "accent_table =
     [(97, [224, 225, 226, 227, 228, 229, 257]), (99, [231, 263, 269]),
      (101, [232, 233, 234, 235, 275, 279]), (105, [236, 237, 238, 239, 299]), (110, [241, 324]),
      (111, [242, 243, 244, 245, 246, 248, 333]), (117, [249, 250, 251, 252, 363]),
      (121, [253, 255]), (115, [347, 353]), (122, [378, 380, 382])]"

definition accentFolds :: "rune \<Rightarrow> rune option" where
  "accentFolds r = map_option fst (find (\<lambda>(b, rs). r \<in> set rs) accent_table)"

definition accentForms :: "rune \<Rightarrow> rune list option" where
  "accentForms b = map_option sort (map_of accent_table b)"

definition fold_rune :: "rune \<Rightarrow> rune" where
  "fold_rune r = (case accentFolds r of Some f \<Rightarrow> f | None \<Rightarrow> r)"

definition FoldAccents :: "string \<Rightarrow> string" where
  "FoldAccents s =
     (if \<not> list_ex (\<lambda>r. 192 \<le> r) (runes s) then s else encode_runes (map fold_rune (runes s)))"

definition AccentForms :: "rune \<Rightarrow> string" where
  "AccentForms r =
     (let base = (case accentFolds r of Some f \<Rightarrow> f | None \<Rightarrow> r) in
      case accentForms base of
        Some forms \<Rightarrow> encode_rune base @ encode_runes forms
      | None \<Rightarrow> [])"

section \<open>Index definitions (driver/fulltext.go)\<close>

text \<open>The text up to its last dot, the dot included; empty without a dot.\<close>

definition upto_last_dot :: "string \<Rightarrow> string" where
  "upto_last_dot s = rev (dropWhile (\<lambda>c. c \<noteq> CHR ''.'') (rev s))"

definition LexiconTable :: "text_index \<Rightarrow> string" where
  "LexiconTable idx =
     (if CHR ''.'' \<in> set (ti_Table idx) then upto_last_dot (ti_Table idx) @ ti_Name idx @ ''_lex''
      else ti_Name idx @ ''_lex'')"

definition cols_of_weight :: "text_index \<Rightarrow> text_weight \<Rightarrow> text_column list" where
  "cols_of_weight idx w = filter (\<lambda>c. weight_effective (col_Weight c) = w) (ti_Columns idx)"

definition WeightGroups :: "text_index \<Rightarrow> text_column list list" where
  "WeightGroups idx =
     (if length (remdups (map (\<lambda>c. weight_effective (col_Weight c)) (ti_Columns idx))) < 2 then []
      else filter (\<lambda>cols. cols \<noteq> []) (map (cols_of_weight idx) [CHR ''A'', CHR ''B'', CHR ''C'', CHR ''D'']))"

definition HighlightStart :: string where "HighlightStart = encode_rune 57344"
definition HighlightEnd :: string where "HighlightEnd = encode_rune 57345"

section \<open>PostgreSQL (driver/postgres/fulltext.go)\<close>

definition textConfig :: "text_index \<Rightarrow> string" where
  "textConfig idx =
     (if ti_Unaccent idx then ''gofi_'' @ ti_Language idx @ ''_unaccent'' else ti_Language idx)"

definition regconfig :: "text_index \<Rightarrow> string" where
  "regconfig idx = quote @ textConfig idx @ quote @ ''::regconfig''"

definition qualify :: "string \<Rightarrow> string \<Rightarrow> string" where
  "qualify qualifier column = (if qualifier = [] then column else qualifier @ ''.'' @ column)"

definition vector_column :: "text_index \<Rightarrow> string \<Rightarrow> text_column \<Rightarrow> string" where
  "vector_column idx qualifier c =
     (let v = ''to_tsvector('' @ regconfig idx @ '', coalesce('' @ qualify qualifier (col_Name c) @
                '', '' @ quote @ quote @ ''))'' in
      if col_Weight c \<noteq> Unweighted
      then ''setweight('' @ v @ '', '' @ quote @ encode_rune (of_char (col_Weight c)) @ quote @ '')''
      else v)"

definition vectorExpr :: "text_index \<Rightarrow> string \<Rightarrow> string" where
  "vectorExpr idx qualifier = join '' || '' (map (vector_column idx qualifier) (ti_Columns idx))"

definition document_sql :: "text_index \<Rightarrow> string \<Rightarrow> string" where
  "document_sql idx qualifier =
     (if ti_Strategy idx = StoredVector then qualify qualifier (ti_VectorColumn idx)
      else ''('' @ vectorExpr idx qualifier @ '')'')"

definition tsquery :: "text_index \<Rightarrow> string \<Rightarrow> string" where
  "tsquery idx param = ''to_tsquery('' @ regconfig idx @ '', '' @ param @ '')''"

definition tsPhrase :: "string list \<Rightarrow> string" where
  "tsPhrase words = join '' <-> '' (map (\<lambda>w. quote @ w @ quote) words)"

definition near_alternatives :: "nat \<Rightarrow> string \<Rightarrow> string \<Rightarrow> string list" where
  "near_alternatives near a b =
     concat (map (\<lambda>k. let d = '' <'' @ itoa_nat k @ ''> '' in [a @ d @ b, b @ d @ a]) [1..<Suc near])"

definition tsTerm :: "text_term \<Rightarrow> string" where
  "tsTerm t =
     (let words = tt_Words t;
          (s, grouped) =
            (if 0 < tt_Near t \<and> length words = 2 then
               (''( '' @ join '' | '' (near_alternatives (tt_Near t) (quote @ words ! 0 @ quote)
                                          (quote @ words ! 1 @ quote)) @ '' )'', True)
             else if tt_Synonyms t \<noteq> [] \<and> length words = 1 then
               (''( '' @ join '' | '' (tsPhrase words # map tsPhrase (tt_Synonyms t)) @ '' )'', True)
             else (tsPhrase words @ (if tt_Prefix t \<and> length words = 1 then '':*'' else []), False))
      in if \<not> tt_Negate t then s
         else if 1 < length words \<and> \<not> grouped then ''!('' @ s @ '')''
         else ''!'' @ s)"

definition postgres_TextSearchValue :: "text_index \<Rightarrow> text_query \<Rightarrow> string option" where
  "postgres_TextSearchValue idx q =
     (let groups = map (\<lambda>ts. join '' & '' (map tsTerm ts))
                     (filter (\<lambda>ts. ts \<noteq> []) (map (filter (\<lambda>t. tt_Words t \<noteq> [])) q)) in
      case groups of
        [] \<Rightarrow> None
      | [g] \<Rightarrow> Some g
      | _ \<Rightarrow> Some (''( '' @ join '' ) | ( '' groups @ '' )''))"

definition postgres_TextMatch ::
  "text_index \<Rightarrow> string \<Rightarrow> text_query \<Rightarrow> bind_fn \<Rightarrow> goval list \<Rightarrow> string option \<times> goval list" where
  "postgres_TextMatch idx qualifier q bind ps =
     (case postgres_TextSearchValue idx q of
        None \<Rightarrow> (None, ps)
      | Some v \<Rightarrow>
          (let (p, ps') = bind (VString v) ps in
           (Some (document_sql idx qualifier @ '' @@ '' @ tsquery idx p), ps')))"

definition postgres_TextRank ::
  "text_index \<Rightarrow> string \<Rightarrow> text_query \<Rightarrow> bind_fn \<Rightarrow> goval list \<Rightarrow> string option \<times> goval list" where
  "postgres_TextRank idx qualifier q bind ps =
     (case postgres_TextSearchValue idx q of
        None \<Rightarrow> (None, ps)
      | Some v \<Rightarrow>
          (let (p, ps') = bind (VString v) ps in
           (Some (''ts_rank_cd('' @ document_sql idx qualifier @ '', '' @ tsquery idx p @ '')''), ps')))"

definition headlineOptions :: string where
  "headlineOptions =
     quote @ ''StartSel='' @ dquote @ HighlightStart @ dquote @ '', StopSel='' @ dquote @ HighlightEnd @
     dquote @ '', HighlightAll=true'' @ quote"

definition postgres_TextHighlight ::
  "text_index \<Rightarrow> string \<Rightarrow> string \<Rightarrow> text_query \<Rightarrow> bind_fn \<Rightarrow> goval list \<Rightarrow> string option \<times> goval list" where
  "postgres_TextHighlight idx qualifier column q bind ps =
     (case postgres_TextSearchValue idx q of
        None \<Rightarrow> (None, ps)
      | Some v \<Rightarrow>
          (let (p, ps') = bind (VString v) ps in
           (Some (''ts_headline('' @ regconfig idx @ '', coalesce('' @ qualify qualifier column @ '', '' @
              quote @ quote @ ''), '' @ tsquery idx p @ '', '' @ headlineOptions @ '')''), ps')))"

definition indexName :: "text_index \<Rightarrow> string" where
  "indexName idx =
     (if CHR ''.'' \<in> set (ti_Table idx) then upto_last_dot (ti_Table idx) @ ti_Name idx
      else ti_Name idx)"

definition unaccent_step :: "text_index \<Rightarrow> text_step" where
  "unaccent_step idx =
     (let cfg = textConfig idx;
          stem = (if ti_Language idx = ''simple'' then ''simple'' else ti_Language idx @ ''_stem'') in
      \<lparr>ts_Up =
         [''CREATE EXTENSION IF NOT EXISTS unaccent'',
          ''DO $$'' @ newline @ ''BEGIN'' @ newline @
          ''  IF NOT EXISTS (SELECT 1 FROM pg_ts_config WHERE cfgname = '' @ quote @ cfg @ quote @ '') THEN'' @ newline @
          ''    CREATE TEXT SEARCH CONFIGURATION '' @ cfg @ '' (COPY = '' @ ti_Language idx @ '');'' @ newline @
          ''    ALTER TEXT SEARCH CONFIGURATION '' @ cfg @
          '' ALTER MAPPING FOR hword, hword_part, word WITH unaccent, '' @ stem @ '';'' @ newline @
          ''  END IF;'' @ newline @
          ''END $$''],
       ts_Down = [], ts_Isolated = False\<rparr>)"

definition postgres_comment :: "text_index \<Rightarrow> string \<Rightarrow> string list" where
  "postgres_comment idx comment =
     (if comment \<noteq> []
      then [''COMMENT ON INDEX '' @ indexName idx @ '' IS '' @ quote @ double_quotes comment @ quote]
      else [])"

definition postgres_index_steps :: "text_index \<Rightarrow> string \<Rightarrow> text_step list" where
  "postgres_index_steps idx comment =
     (let commentStmt = postgres_comment idx comment in
      if ti_Strategy idx = StoredVector then
        [\<lparr>ts_Up =
            [''ALTER TABLE '' @ ti_Table idx @ '' ADD COLUMN '' @ ti_VectorColumn idx @
             '' tsvector GENERATED ALWAYS AS ('' @ vectorExpr idx [] @ '') STORED'',
             ''CREATE INDEX '' @ ti_Name idx @ '' ON '' @ ti_Table idx @ '' USING GIN ('' @ ti_VectorColumn idx @ '')'']
            @ commentStmt,
          ts_Down =
            [''DROP INDEX IF EXISTS '' @ indexName idx,
             ''ALTER TABLE '' @ ti_Table idx @ '' DROP COLUMN IF EXISTS '' @ ti_VectorColumn idx],
          ts_Isolated = False\<rparr>]
      else if ti_Concurrently idx then
        \<lparr>ts_Up = [''CREATE INDEX CONCURRENTLY '' @ ti_Name idx @ '' ON '' @ ti_Table idx @
                      '' USING GIN (('' @ vectorExpr idx [] @ ''))''],
         ts_Down = [''DROP INDEX CONCURRENTLY IF EXISTS '' @ indexName idx],
         ts_Isolated = True\<rparr> #
        (if commentStmt \<noteq> [] then [\<lparr>ts_Up = commentStmt, ts_Down = [], ts_Isolated = False\<rparr>] else [])
      else
        [\<lparr>ts_Up = (''CREATE INDEX '' @ ti_Name idx @ '' ON '' @ ti_Table idx @
                      '' USING GIN (('' @ vectorExpr idx [] @ ''))'') # commentStmt,
          ts_Down = [''DROP INDEX IF EXISTS '' @ indexName idx],
          ts_Isolated = False\<rparr>])"

definition postgres_lexicon_step :: "text_index \<Rightarrow> text_step" where
  "postgres_lexicon_step idx =
     (let lex = LexiconTable idx in
      \<lparr>ts_Up =
         [''CREATE EXTENSION IF NOT EXISTS pg_trgm'',
          ''CREATE TABLE '' @ lex @ '' (term text PRIMARY KEY, word text NOT NULL, ndoc integer NOT NULL)'',
          ''CREATE INDEX '' @ ti_Name idx @ ''_lexg ON '' @ lex @ '' USING GIN (term gin_trgm_ops)''],
       ts_Down = [''DROP TABLE IF EXISTS '' @ lex], ts_Isolated = False\<rparr>)"

definition postgres_TextIndexDDL :: "text_index \<Rightarrow> string \<Rightarrow> (ddl_error, text_step list) result" where
  "postgres_TextIndexDDL idx comment = Ok
    ((if ti_Unaccent idx then [unaccent_step idx] else []) @
     postgres_index_steps idx comment @
     (if ti_Suggest idx then [postgres_lexicon_step idx] else []))"

definition postgres_TextCandidates :: "text_index \<Rightarrow> string \<Rightarrow> bind_fn \<Rightarrow> goval list \<Rightarrow> string \<times> goval list" where
  "postgres_TextCandidates idx key bind ps =
     (let (p, ps') = bind (VString key) ps in
      (''SELECT word, term, ndoc FROM '' @ LexiconTable idx @ '' WHERE term % '' @ p @
       '' ORDER BY similarity(term, '' @ p @ '') DESC, ndoc DESC LIMIT 50'', ps'))"

definition postgres_TextIndexLookup :: "text_index \<Rightarrow> string \<times> goval list" where
  "postgres_TextIndexLookup idx =
     (''SELECT COALESCE(obj_description(i.indexrelid, '' @ quote @ ''pg_class'' @ quote @ ''), '' @ quote @ quote @ '')'' @ newline @
      ''FROM pg_index i'' @ newline @
      ''JOIN pg_class ic ON ic.oid = i.indexrelid'' @ newline @
      ''JOIN pg_am am ON am.oid = ic.relam'' @ newline @
      ''WHERE i.indrelid = to_regclass($1) AND ic.relname = $2 AND am.amname = '' @ quote @ ''gin'' @ quote @
      '' AND i.indisvalid'',
      [VString (ti_Table idx), VString (ti_Name idx)])"

definition postgres_TextChecks :: "text_index \<Rightarrow> text_check list" where
  "postgres_TextChecks idx =
     (if \<not> ti_Suggest idx then []
      else [\<lparr>tc_Query = ''SELECT CASE WHEN to_regclass($1) IS NULL THEN '' @ quote @ ''missing'' @ quote @
                           '' ELSE '' @ quote @ ''present'' @ quote @ '' END'',
             tc_Args = [VString (LexiconTable idx)],
             tc_Want = ''present'',
             tc_What = ''lexicon '' @ LexiconTable idx,
             tc_Index = True\<rparr>])"

definition postgres_text :: full_text_dialect where
  "postgres_text =
     \<lparr>TextSearchValue = postgres_TextSearchValue, TextMatch = postgres_TextMatch,
      TextRank = postgres_TextRank, TextHighlight = postgres_TextHighlight,
      TextIndexDDL = postgres_TextIndexDDL, TextIndexLookup = postgres_TextIndexLookup,
      TextChecks = postgres_TextChecks, TextCandidates = postgres_TextCandidates\<rparr>"

section \<open>MySQL (driver/mysql/fulltext.go)\<close>

definition innodbStopwords :: "string list" where
  "innodbStopwords =
     [''a'', ''about'', ''an'', ''are'', ''as'', ''at'', ''be'', ''by'', ''com'', ''de'', ''en'', ''for'',
      ''from'', ''how'', ''i'', ''in'', ''is'', ''it'', ''la'', ''of'', ''on'', ''or'', ''that'', ''the'',
      ''this'', ''to'', ''was'', ''what'', ''when'', ''where'', ''who'', ''will'', ''with'', ''und'', ''www'']"

definition languageStopwords :: "text_env \<Rightarrow> string \<Rightarrow> string list" where
  "languageStopwords env lang =
     (case map_of (stop_files env) lang of
        None \<Rightarrow> []
      | Some lines \<Rightarrow>
          map (\<lambda>w. FoldAccents (ToLower env w)) (filter (\<lambda>w. w \<noteq> []) (map TrimSpace lines)))"

definition stopword :: "text_env \<Rightarrow> text_index \<Rightarrow> string \<Rightarrow> bool" where
  "stopword env idx w \<longleftrightarrow> FoldAccents w \<in> set (languageStopwords env (ti_Language idx))"

definition indexable :: "text_env \<Rightarrow> text_index \<Rightarrow> string \<Rightarrow> bool" where
  "indexable env idx w \<longleftrightarrow>
     ti_MinTokenSize idx \<le> int (rune_count w) \<and> w \<notin> set innodbStopwords \<and> \<not> stopword env idx w"

definition phrase :: "text_env \<Rightarrow> text_index \<Rightarrow> string list \<Rightarrow> string option" where
  "phrase env idx words =
     (if length words = 1 then (if indexable env idx (words ! 0) then Some (words ! 0) else None)
      else if list_ex (indexable env idx) words then Some (dquote @ join '' '' words @ dquote)
      else None)"

definition booleanTerm :: "text_env \<Rightarrow> text_index \<Rightarrow> text_term \<Rightarrow> string option" where
  "booleanTerm env idx t =
     (let words = tt_Words t in
      if words = [] then None
      else if 0 < tt_Near t \<and> length words = 2 then
        (if indexable env idx (words ! 0) \<and> indexable env idx (words ! 1)
         then Some (dquote @ words ! 0 @ '' '' @ words ! 1 @ dquote @ ''@'' @ itoa_nat (tt_Near t + 1))
         else phrase env idx words)
      else if 1 < length words then phrase env idx words
      else if tt_Prefix t then
        (if \<not> stopword env idx (words ! 0) then Some (words ! 0 @ ''*'') else None)
      else
        (case List.map_filter (phrase env idx) (words # tt_Synonyms t) of
           [] \<Rightarrow> None
         | [a] \<Rightarrow> Some a
         | alts \<Rightarrow> Some (''('' @ join '' '' alts @ '')'')))"

definition boolean_op :: "text_term \<Rightarrow> string" where
  "boolean_op t = (if tt_Negate t then ''-'' else ''+'')"

definition boolean_group :: "text_env \<Rightarrow> text_index \<Rightarrow> text_group \<Rightarrow> string option" where
  "boolean_group env idx g =
     (let kept = filter (\<lambda>t. booleanTerm env idx t \<noteq> None) g in
      if list_ex (\<lambda>t. \<not> tt_Negate t) kept
      then Some (join '' '' (map (\<lambda>t. boolean_op t @ the (booleanTerm env idx t)) kept))
      else None)"

definition mysql_TextSearchValue :: "text_env \<Rightarrow> text_index \<Rightarrow> text_query \<Rightarrow> string option" where
  "mysql_TextSearchValue env idx q =
     (case List.map_filter (boolean_group env idx) q of
        [] \<Rightarrow> None
      | [g] \<Rightarrow> Some g
      | groups \<Rightarrow> Some (''('' @ join '') ('' groups @ '')''))"

definition rankValue :: "text_env \<Rightarrow> text_index \<Rightarrow> text_query \<Rightarrow> string" where
  "rankValue env idx q =
     join '' '' (List.map_filter (\<lambda>t. if tt_Negate t then None else booleanTerm env idx t) (concat q))"

definition match_sql :: "text_column list \<Rightarrow> string \<Rightarrow> string \<Rightarrow> string" where
  "match_sql cols qualifier param =
     ''MATCH('' @
     join '', '' (map (\<lambda>c. (if qualifier \<noteq> [] then qualifier @ ''.'' else []) @ col_Name c) cols) @
     '') AGAINST ('' @ param @ '' IN BOOLEAN MODE)''"

definition mysql_TextMatch ::
  "text_env \<Rightarrow> text_index \<Rightarrow> string \<Rightarrow> text_query \<Rightarrow> bind_fn \<Rightarrow> goval list \<Rightarrow> string option \<times> goval list" where
  "mysql_TextMatch env idx qualifier q bind ps =
     (case mysql_TextSearchValue env idx q of
        None \<Rightarrow> (None, ps)
      | Some v \<Rightarrow>
          (let (p, ps') = bind (VString v) ps in (Some (match_sql (ti_Columns idx) qualifier p), ps')))"

fun rank_parts ::
  "string \<Rightarrow> string \<Rightarrow> bind_fn \<Rightarrow> text_column list list \<Rightarrow> goval list \<Rightarrow> string list \<times> goval list" where
  "rank_parts qualifier rv bind [] ps = ([], ps)"
| "rank_parts qualifier rv bind (cols # groups) ps =
     (let (p, ps1) = bind (VString rv) ps;
          (rest, ps2) = rank_parts qualifier rv bind groups ps1 in
      ((match_sql cols qualifier p @ '' * '' @ weight_factor (col_Weight (hd cols))) # rest, ps2))"

definition mysql_TextRank ::
  "text_env \<Rightarrow> text_index \<Rightarrow> string \<Rightarrow> text_query \<Rightarrow> bind_fn \<Rightarrow> goval list \<Rightarrow> string option \<times> goval list" where
  "mysql_TextRank env idx qualifier q bind ps =
     (case mysql_TextSearchValue env idx q of
        None \<Rightarrow> (None, ps)
      | Some v \<Rightarrow>
          if WeightGroups idx = [] then
            (let (p, ps') = bind (VString v) ps in (Some (match_sql (ti_Columns idx) qualifier p), ps'))
          else
            (let (parts, ps') = rank_parts qualifier (rankValue env idx q) bind (WeightGroups idx) ps in
             (Some (''('' @ join '' + '' parts @ '')''), ps')))"

definition accentClasses :: "string \<Rightarrow> string" where
  "accentClasses w =
     concat (map (\<lambda>r. let forms = AccentForms r in
                      if forms \<noteq> [] then ''['' @ forms @ '']'' else encode_rune r) (runes w))"

text \<open>The class \<^verbatim>\<open>[\p{L}\p{N}\p{M}]\<close> of the highlight pattern.\<close>

definition word_class :: string where
  "word_class = ''['' @ backslash @ ''p{L}'' @ backslash @ ''p{N}'' @ backslash @ ''p{M}]''"

definition add_alternative :: "text_env \<Rightarrow> text_index \<Rightarrow> bool \<Rightarrow> string list \<Rightarrow> string \<Rightarrow> string list" where
  "add_alternative env idx pre alts w =
     (if (\<not> pre \<and> \<not> indexable env idx w) \<or> (pre \<and> stopword env idx w) then alts
      else (let alt = (if \<not> pre then accentClasses w @ ''(?!'' @ word_class @ '')''
                       else accentClasses w @ word_class @ ''*'') in
            if alt \<in> set alts then alts else alts @ [alt]))"

definition highlight_term :: "text_env \<Rightarrow> text_index \<Rightarrow> string list \<Rightarrow> text_term \<Rightarrow> string list" where
  "highlight_term env idx alts t =
     (if tt_Negate t then alts
      else foldl (add_alternative env idx (tt_Prefix t \<and> length (tt_Words t) = 1)) alts
             (concat (tt_Words t # tt_Synonyms t)))"

definition highlightAlternatives :: "text_env \<Rightarrow> text_index \<Rightarrow> text_query \<Rightarrow> string list" where
  "highlightAlternatives env idx q = foldl (highlight_term env idx) [] (concat q)"

definition mysql_TextHighlight ::
  "text_env \<Rightarrow> text_index \<Rightarrow> string \<Rightarrow> string \<Rightarrow> text_query \<Rightarrow> bind_fn \<Rightarrow> goval list \<Rightarrow> string option \<times> goval list" where
  "mysql_TextHighlight env idx qualifier column q bind ps =
     (let col = (if qualifier \<noteq> [] then qualifier @ ''.'' @ column else column);
          alts = highlightAlternatives env idx q in
      if alts = [] then (Some (''COALESCE('' @ col @ '', '' @ quote @ quote @ '')''), ps)
      else
        (let pattern = ''(?<!'' @ word_class @ '')(?:'' @ join ''|'' alts @ '')'';
             (p1, ps1) = bind (VString pattern) ps;
             (p2, ps2) = bind (VString (HighlightStart @ ''$0'' @ HighlightEnd)) ps1 in
         (Some (''REGEXP_REPLACE(COALESCE('' @ col @ '', '' @ quote @ quote @ ''), '' @ p1 @ '', '' @ p2 @
            '', 1, 0, '' @ quote @ ''i'' @ quote @ '')''), ps2)))"

definition groupIndexName :: "text_env \<Rightarrow> text_index \<Rightarrow> text_weight \<Rightarrow> string" where
  "groupIndexName env idx w =
     ti_Name idx @ ''_w'' @ ToLower env (encode_rune (of_char (weight_effective w)))"

definition columnList :: "text_column list \<Rightarrow> string" where
  "columnList cols = join '', '' (map col_Name cols)"

definition mysql_index_step :: "text_env \<Rightarrow> text_index \<Rightarrow> string \<Rightarrow> text_step" where
  "mysql_index_step env idx comment =
     (let main = ''ALTER TABLE '' @ ti_Table idx @ '' ADD FULLTEXT INDEX '' @ ti_Name idx @ '' ('' @
                 columnList (ti_Columns idx) @ '')'' @
                 (if comment \<noteq> [] then '' COMMENT '' @ quote @ double_quotes comment @ quote else []);
          name = (\<lambda>cols. groupIndexName env idx (col_Weight (hd cols))) in
      \<lparr>ts_Up = main # map (\<lambda>cols. ''ALTER TABLE '' @ ti_Table idx @ '' ADD FULLTEXT INDEX '' @ name cols @
                                '' ('' @ columnList cols @ '')'') (WeightGroups idx),
       ts_Down = map (\<lambda>cols. ''ALTER TABLE '' @ ti_Table idx @ '' DROP INDEX '' @ name cols) (WeightGroups idx) @
                 [''ALTER TABLE '' @ ti_Table idx @ '' DROP INDEX '' @ ti_Name idx],
       ts_Isolated = False\<rparr>)"

definition mysql_lexicon_step :: "text_index \<Rightarrow> text_step" where
  "mysql_lexicon_step idx =
     (let lex = LexiconTable idx in
      \<lparr>ts_Up = [''CREATE TABLE '' @ lex @ '' (term VARCHAR(64) PRIMARY KEY, word VARCHAR(64) NOT NULL, ndoc INT NOT NULL, '' @
                ''FULLTEXT INDEX '' @ ti_Name idx @ ''_lexg (term) WITH PARSER ngram) DEFAULT CHARSET utf8mb4 COLLATE utf8mb4_0900_ai_ci''],
       ts_Down = [''DROP TABLE IF EXISTS '' @ lex], ts_Isolated = False\<rparr>)"

definition mysql_TextIndexDDL :: "text_env \<Rightarrow> text_index \<Rightarrow> string \<Rightarrow> (ddl_error, text_step list) result" where
  "mysql_TextIndexDDL env idx comment =
     (if ti_Concurrently idx then Err ErrConcurrentIndex
      else Ok (mysql_index_step env idx comment #
               (if ti_Suggest idx then [mysql_lexicon_step idx] else [])))"

definition mysql_TextCandidates :: "text_index \<Rightarrow> string \<Rightarrow> bind_fn \<Rightarrow> goval list \<Rightarrow> string \<times> goval list" where
  "mysql_TextCandidates idx key bind ps =
     (let (p1, ps1) = bind (VString key) ps;
          (p2, ps2) = bind (VString key) ps1 in
      (''SELECT word, term, ndoc FROM '' @ LexiconTable idx @ '' WHERE MATCH(term) AGAINST ('' @ p1 @
       '' IN NATURAL LANGUAGE MODE) ORDER BY MATCH(term) AGAINST ('' @ p2 @
       '' IN NATURAL LANGUAGE MODE) DESC, ndoc DESC LIMIT 50'', ps2))"

definition schemaTable :: "string \<Rightarrow> string \<times> goval list" where
  "schemaTable table =
     (case cut (CHR ''.'') table of
        Some (schema, t) \<Rightarrow> (''?'', [VString schema, VString t])
      | None \<Rightarrow> (''DATABASE()'', [VString table]))"

definition mysql_TextIndexLookup :: "text_index \<Rightarrow> string \<times> goval list" where
  "mysql_TextIndexLookup idx =
     (let (schema, args) = schemaTable (ti_Table idx) in
      (''SELECT INDEX_COMMENT FROM information_schema.STATISTICS'' @ newline @
       ''WHERE TABLE_SCHEMA = '' @ schema @ '' AND TABLE_NAME = ? AND INDEX_NAME = ? AND INDEX_TYPE = '' @
       quote @ ''FULLTEXT'' @ quote @ newline @ ''LIMIT 1'', args @ [VString (ti_Name idx)]))"

definition mysql_TextChecks :: "text_env \<Rightarrow> text_index \<Rightarrow> text_check list" where
  "mysql_TextChecks env idx =
     (let (schema, args) = schemaTable (ti_Table idx);
          (lexSchema, lexArgs) = schemaTable (LexiconTable idx) in
      [\<lparr>tc_Query = ''SELECT CAST(@@innodb_ft_min_token_size AS CHAR)'', tc_Args = [],
        tc_Want = itoa (ti_MinTokenSize idx), tc_What = ''innodb_ft_min_token_size'', tc_Index = False\<rparr>] @
      map (\<lambda>cols. let name = groupIndexName env idx (col_Weight (hd cols)) in
        \<lparr>tc_Query = ''SELECT CAST(COUNT(*) AS CHAR) FROM information_schema.STATISTICS'' @ newline @
           ''WHERE TABLE_SCHEMA = '' @ schema @ '' AND TABLE_NAME = ? AND INDEX_NAME = ? AND INDEX_TYPE = '' @
           quote @ ''FULLTEXT'' @ quote,
         tc_Args = args @ [VString name], tc_Want = itoa_nat (length cols),
         tc_What = ''columns of weight index '' @ name, tc_Index = True\<rparr>) (WeightGroups idx) @
      (if ti_Suggest idx then
         [\<lparr>tc_Query = ''SELECT CAST(COUNT(*) AS CHAR) FROM information_schema.TABLES WHERE TABLE_SCHEMA = '' @
             lexSchema @ '' AND TABLE_NAME = ?'',
           tc_Args = lexArgs, tc_Want = ''1'', tc_What = ''lexicon '' @ LexiconTable idx, tc_Index = True\<rparr>]
       else []) @
      (if ti_Unaccent idx then
         map (\<lambda>c.
           \<lparr>tc_Query = ''SELECT CASE WHEN COLLATION_NAME LIKE '' @ quote @ ''%'' @ backslash @ ''_as'' @ backslash @ ''_%'' @ quote @
              '' OR COLLATION_NAME LIKE '' @ quote @ ''%'' @ backslash @ ''_bin'' @ quote @
              '' OR COLLATION_NAME LIKE '' @ quote @ ''%'' @ backslash @ ''_cs'' @ quote @ newline @
              [CHR 0x09] @ ''THEN COLLATION_NAME ELSE '' @ quote @ ''accent-insensitive'' @ quote @ '' END'' @ newline @
              ''FROM information_schema.COLUMNS'' @ newline @
              ''WHERE TABLE_SCHEMA = '' @ schema @ '' AND TABLE_NAME = ? AND COLUMN_NAME = ?'',
            tc_Args = args @ [VString (col_Name c)], tc_Want = ''accent-insensitive'',
            tc_What = ''collation of '' @ col_Name c, tc_Index = False\<rparr>) (ti_Columns idx)
       else []))"

definition mysql_text :: "text_env \<Rightarrow> full_text_dialect" where
  "mysql_text env =
     \<lparr>TextSearchValue = mysql_TextSearchValue env, TextMatch = mysql_TextMatch env,
      TextRank = mysql_TextRank env, TextHighlight = mysql_TextHighlight env,
      TextIndexDDL = mysql_TextIndexDDL env, TextIndexLookup = mysql_TextIndexLookup,
      TextChecks = mysql_TextChecks env, TextCandidates = mysql_TextCandidates\<rparr>"

section \<open>The dialects\<close>

definition PostgresDialect :: dialect where
  "PostgresDialect =
     \<lparr>Param = postgres_Param, Like_sql = postgres_Like, NotLike_sql = postgres_NotLike,
      array_ops = Some postgres_arrays, LikeWildcards = None, text_ops = Some postgres_text,
      BuildPagination = postgres_BuildPagination, BuildCount = postgres_BuildCount\<rparr>"

definition MySQLDialect :: "text_env \<Rightarrow> dialect" where
  "MySQLDialect env =
     \<lparr>Param = mysql_Param, Like_sql = mysql_Like, NotLike_sql = mysql_NotLike,
      array_ops = None, LikeWildcards = None, text_ops = Some (mysql_text env),
      BuildPagination = mysql_BuildPagination, BuildCount = mysql_BuildCount\<rparr>"

definition SQLServerDialect :: dialect where
  "SQLServerDialect =
     \<lparr>Param = sqlserver_Param, Like_sql = sqlserver_Like, NotLike_sql = sqlserver_NotLike,
      array_ops = None, LikeWildcards = Some sqlserver_LikeWildcards, text_ops = None,
      BuildPagination = sqlserver_BuildPagination, BuildCount = sqlserver_BuildCount\<rparr>"

definition OracleDialect :: dialect where
  "OracleDialect =
     \<lparr>Param = oracle_Param, Like_sql = oracle_Like, NotLike_sql = oracle_NotLike,
      array_ops = None, LikeWildcards = None, text_ops = None,
      BuildPagination = oracle_BuildPagination, BuildCount = oracle_BuildCount\<rparr>"

lemma dialect_sel [simp]:
  "Param PostgresDialect = postgres_Param" "Param (MySQLDialect env) = mysql_Param"
  "Param SQLServerDialect = sqlserver_Param" "Param OracleDialect = oracle_Param"
  "BuildPagination PostgresDialect = postgres_BuildPagination"
  "BuildPagination (MySQLDialect env) = mysql_BuildPagination"
  "BuildPagination SQLServerDialect = sqlserver_BuildPagination"
  "BuildPagination OracleDialect = oracle_BuildPagination"
  "LikeWildcards PostgresDialect = None" "LikeWildcards (MySQLDialect env) = None"
  "LikeWildcards SQLServerDialect = Some ''[''" "LikeWildcards OracleDialect = None"
  by (simp_all add: PostgresDialect_def MySQLDialect_def SQLServerDialect_def OracleDialect_def
      sqlserver_LikeWildcards_def)

end
