(* ===== verification/Fts.thy ===== *)
theory Fts
  imports Full_Text
begin

text \<open>
  Package \<^verbatim>\<open>sqln/fts\<close>: index definitions (\<^verbatim>\<open>index.go\<close>, \<^verbatim>\<open>synonyms.go\<close>) and the
  search parser (\<^verbatim>\<open>search.go\<close>).
\<close>

section \<open>Errors\<close>

datatype index_fault =
    BadTable | BadIndexName | NoColumns | BadColumn string | RepeatedColumn string | BadWeight string
  | UnknownLanguage | UnknownStrategyFault | BadVectorColumn | SuggestNameTooLong | ConcurrentlyStored
  | BadMinTokenSize int | SynonymWords string | SynonymGroupTooSmall | SearchWithoutIndex | NilIndex
  | DeclaredTwice | IndexDdl ddl_error

datatype fts_error =
    ErrInvalidIndex index_fault
  | ErrSearchTooLong nat
  | ErrTooManyTerms nat
  | ErrEmptySearch
  | ErrUnsupported
  | ErrSeveralFiles
  | ErrDdl ddl_error

section \<open>Words\<close>

function rune_fields :: "(rune \<Rightarrow> bool) \<Rightarrow> rune list \<Rightarrow> rune list list" where
  "rune_fields p [] = []"
| "rune_fields p (r # rs) =
     (if p r then (r # takeWhile p rs) # rune_fields p (dropWhile p rs) else rune_fields p rs)"
  by pat_completeness auto
termination
  by (relation "measure (\<lambda>(p, rs). length rs)") (auto simp: le_imp_less_Suc length_dropWhile_le)

definition splitWords :: "text_env \<Rightarrow> string \<Rightarrow> string list" where
  "splitWords env s = map encode_runes (rune_fields (word_rune env) (runes (ToLower env s)))"

section \<open>Indexes\<close>

definition MaxTermLength :: nat where "MaxTermLength = 256"
definition MaxTerms :: nat where "MaxTerms = 16"
definition MaxNear :: nat where "MaxNear = 10"

definition is_lower_char :: "char \<Rightarrow> bool" where
  "is_lower_char c \<longleftrightarrow> (let n = of_char c :: nat in 97 \<le> n \<and> n \<le> 122)"

definition nameRe :: "string \<Rightarrow> bool" where
  "nameRe s \<longleftrightarrow>
     (case s of [] \<Rightarrow> False
      | c # cs \<Rightarrow> (is_lower_char c \<or> c = CHR ''_'') \<and> length cs \<le> 58 \<and>
                  list_all (\<lambda>d. is_lower_char d \<or> is_digit_char d \<or> d = CHR ''_'') cs)"

definition columnRe :: "string \<Rightarrow> bool" where
  "columnRe s \<longleftrightarrow>
     (case s of [] \<Rightarrow> False
      | c # cs \<Rightarrow> (is_letter_char c \<or> c = CHR ''_'') \<and> length cs \<le> 62 \<and>
                  list_all (\<lambda>d. is_letter_char d \<or> is_digit_char d \<or> d = CHR ''_'') cs)"

definition tableRe :: "string \<Rightarrow> bool" where
  "tableRe s \<longleftrightarrow> (let ps = split_on (CHR ''.'') s in length ps \<le> 2 \<and> list_all columnRe ps)"

definition languages :: "string list" where
  "languages =
     [''simple'', ''portuguese'', ''english'', ''spanish'', ''french'', ''german'', ''italian'', ''dutch'',
      ''arabic'', ''armenian'', ''basque'', ''catalan'', ''danish'', ''finnish'', ''greek'', ''hindi'',
      ''hungarian'', ''indonesian'', ''irish'', ''lithuanian'', ''nepali'', ''norwegian'', ''romanian'',
      ''russian'', ''serbian'', ''swedish'', ''tamil'', ''turkish'', ''yiddish'']"

definition DefaultMinTokenSize :: int where "DefaultMinTokenSize = 3"

record fts_spec =
  sp_Name :: string
  sp_Columns :: "text_column list"
  sp_Language :: string
  sp_Unaccent :: bool
  sp_Strategy :: text_strategy
  sp_VectorColumn :: string
  sp_MinTokenSize :: int
  sp_Synonyms :: "string list list"
  sp_Suggest :: bool
  sp_Concurrently :: bool

text \<open>
  An index with the map of its synonyms; \<open>ix_addr\<close> is the identity of the Go pointer, which
  the code compares.
\<close>

record fts_index =
  ix_addr :: nat
  ix_def :: text_index
  ix_synonyms :: "string \<Rightarrow> string list list"

definition hasWords :: "string list list \<Rightarrow> string list \<Rightarrow> bool" where
  "hasWords l words \<longleftrightarrow> list_ex (\<lambda>w. join '' '' w = join '' '' words) l"

definition add_synonym :: "(string \<Rightarrow> string list list) \<Rightarrow> string \<Rightarrow> string list \<Rightarrow> (string \<Rightarrow> string list list)" where
  "add_synonym m w m2 = (if \<not> hasWords (m w) m2 then m(w := m w @ [m2]) else m)"

text \<open>The two nested loops over the members of a group: \<open>i\<close> and \<open>j\<close> are the positions.\<close>

definition add_member :: "string list list \<Rightarrow> (string \<Rightarrow> string list list) \<Rightarrow> nat \<Rightarrow> (string \<Rightarrow> string list list)" where
  "add_member members m i =
     (if length (members ! i) \<noteq> 1 then m
      else foldl (\<lambda>m j. if i \<noteq> j then add_synonym m (members ! i ! 0) (members ! j) else m) m
             [0..<length members])"

fun synonym_members :: "text_env \<Rightarrow> string list \<Rightarrow> (fts_error, string list list) result" where
  "synonym_members env [] = Ok []"
| "synonym_members env (entry # g) =
     (let words = splitWords env entry in
      if words = [] \<or> MaxTerms < length words then Err (ErrInvalidIndex (SynonymWords entry))
      else (case synonym_members env g of Inl e \<Rightarrow> Err e | Inr ms \<Rightarrow> Ok (words # ms)))"

fun synonymMap ::
  "text_env \<Rightarrow> (string \<Rightarrow> string list list) \<Rightarrow> string list list \<Rightarrow>
     (fts_error, string \<Rightarrow> string list list) result" where
  "synonymMap env m [] = Ok m"
| "synonymMap env m (g # gs) =
     (case synonym_members env g of
        Inl e \<Rightarrow> Err e
      | Inr members \<Rightarrow>
          if length members < 2 then Err (ErrInvalidIndex SynonymGroupTooSmall)
          else synonymMap env (foldl (add_member members) m [0..<length members]) gs)"

fun check_columns :: "text_env \<Rightarrow> string list \<Rightarrow> text_column list \<Rightarrow> (fts_error, string list) result" where
  "check_columns env seen [] = Ok seen"
| "check_columns env seen (c # cs) =
     (if \<not> columnRe (col_Name c) then Err (ErrInvalidIndex (BadColumn (col_Name c)))
      else if ToLower env (col_Name c) \<in> set seen then Err (ErrInvalidIndex (RepeatedColumn (col_Name c)))
      else if col_Weight c \<notin> {Unweighted, CHR ''A'', CHR ''B'', CHR ''C'', CHR ''D''}
      then Err (ErrInvalidIndex (BadWeight (col_Name c)))
      else check_columns env (ToLower env (col_Name c) # seen) cs)"

definition NewIndex :: "text_env \<Rightarrow> nat \<Rightarrow> string \<Rightarrow> fts_spec \<Rightarrow> (fts_error, fts_index) result" where
  "NewIndex env addr table spec =
     (if \<not> tableRe table then Err (ErrInvalidIndex BadTable)
      else if \<not> nameRe (sp_Name spec) then Err (ErrInvalidIndex BadIndexName)
      else if sp_Columns spec = [] then Err (ErrInvalidIndex NoColumns)
      else case check_columns env [] (sp_Columns spec) of
        Inl e \<Rightarrow> Err e
      | Inr seen \<Rightarrow>
         (let lang = (if sp_Language spec = [] then ''simple'' else sp_Language spec);
              vec = (if sp_VectorColumn spec = [] then sp_Name spec @ ''_tsv'' else sp_VectorColumn spec);
              minToken = (if sp_MinTokenSize spec = 0 then DefaultMinTokenSize else sp_MinTokenSize spec) in
          if lang \<notin> set languages then Err (ErrInvalidIndex UnknownLanguage)
          else if sp_Strategy spec \<noteq> StoredVector \<and> sp_Strategy spec \<noteq> ExpressionIndex
          then Err (ErrInvalidIndex UnknownStrategyFault)
          else if \<not> columnRe vec \<or> ToLower env vec \<in> set seen then Err (ErrInvalidIndex BadVectorColumn)
          else if sp_Suggest spec \<and> 58 < length (sp_Name spec) then Err (ErrInvalidIndex SuggestNameTooLong)
          else if sp_Concurrently spec \<and> sp_Strategy spec \<noteq> ExpressionIndex
          then Err (ErrInvalidIndex ConcurrentlyStored)
          else if minToken < 1 \<or> 16 < minToken then Err (ErrInvalidIndex (BadMinTokenSize minToken))
          else case synonymMap env (\<lambda>_. []) (sp_Synonyms spec) of
            Inl e \<Rightarrow> Err e
          | Inr synonyms \<Rightarrow>
              Ok \<lparr>ix_addr = addr,
                  ix_def = \<lparr>ti_Name = sp_Name spec, ti_Table = table, ti_Columns = sp_Columns spec,
                            ti_Language = lang, ti_Unaccent = sp_Unaccent spec,
                            ti_Strategy = sp_Strategy spec, ti_VectorColumn = vec,
                            ti_MinTokenSize = minToken, ti_Concurrently = sp_Concurrently spec,
                            ti_Suggest = sp_Suggest spec\<rparr>,
                  ix_synonyms = synonyms\<rparr>))"

section \<open>Searches\<close>

datatype search_mode = Websearch | AllTerms | AnyTerm | Prefix | Phrase | OtherMode nat

record search =
  se_index :: "fts_index option"
  se_term :: string
  se_mode :: search_mode
  se_qualifier :: string

definition Search :: "fts_index \<Rightarrow> string \<Rightarrow> search" where
  "Search i t = \<lparr>se_index = Some i, se_term = t, se_mode = Websearch, se_qualifier = []\<rparr>"

definition search_Mode :: "search \<Rightarrow> search_mode \<Rightarrow> search" where
  "search_Mode s m = s\<lparr>se_mode := m\<rparr>"

definition search_On :: "search \<Rightarrow> string \<Rightarrow> search" where
  "search_On s qualifier = s\<lparr>se_qualifier := qualifier\<rparr>"

definition word_term :: "string \<Rightarrow> text_term" where
  "word_term w = \<lparr>tt_Words = [w], tt_Prefix = False, tt_Negate = False, tt_Near = 0, tt_Synonyms = []\<rparr>"

definition keepPositive :: "text_query \<Rightarrow> text_query" where
  "keepPositive q = filter (list_ex (\<lambda>t. \<not> tt_Negate t)) q"

definition is_digit_rune :: "rune \<Rightarrow> bool" where
  "is_digit_rune r \<longleftrightarrow> 48 \<le> r \<and> r \<le> 57"

text \<open>The digits of \<^verbatim>\<open>~N\<close>, three at most, and what follows them.\<close>

definition read_near :: "rune list \<Rightarrow> nat \<times> rune list" where
  "read_near rs =
     (let ds = takeWhile is_digit_rune (take 3 rs) in
      (foldl (\<lambda>n r. n * 10 + (r - 48)) 0 ds, drop (length ds) rs))"

definition quoted_term :: "string list \<Rightarrow> bool \<Rightarrow> nat \<Rightarrow> text_term list" where
  "quoted_term words negate near =
     (if words = [] then []
      else [\<lparr>tt_Words = words, tt_Prefix = False, tt_Negate = negate,
             tt_Near = (if length words = 2 \<and> 0 < near then min near MaxNear else 0),
             tt_Synonyms = []\<rparr>])"

text \<open>The rune before the unread suffix \<open>rest\<close> of \<open>rs\<close>.\<close>

definition rune_before :: "rune list \<Rightarrow> rune list \<Rightarrow> rune option" where
  "rune_before rs rest = Some (last (take (length rs - length rest) rs))"

definition opens_negation :: "text_env \<Rightarrow> rune option \<Rightarrow> rune list \<Rightarrow> bool" where
  "opens_negation env prev rs \<longleftrightarrow>
     (case rs of
        r # r2 # _ \<Rightarrow>
          r = 45 \<and> (case prev of None \<Rightarrow> True | Some p \<Rightarrow> is_space p) \<and> (r2 = 34 \<or> word_rune env r2)
      | _ \<Rightarrow> False)"

text \<open>What one quoted part leaves unread, its words and its distance; \<open>rs\<close> starts after the quote.\<close>

definition read_quoted :: "text_env \<Rightarrow> rune list \<Rightarrow> string list \<times> nat \<times> rune list" where
  "read_quoted env rs =
     (let inner = takeWhile (\<lambda>r. r \<noteq> 34) rs;
          after = drop (length inner + 1) rs;
          (near, rest) = (case after of
                            t # ds \<Rightarrow> if t = 126 then read_near ds else (0, after)
                          | [] \<Rightarrow> (0, after)) in
      (splitWords env (encode_runes inner), near, rest))"

lemma read_quoted_shorter:
  assumes "read_quoted env rs = (ws, near, rest)"
  shows "length rest \<le> length rs"
proof -
  define after where "after = drop (length (takeWhile (\<lambda>r. r \<noteq> 34) rs) + 1) rs"
  have "length rest \<le> length after"
    using assms unfolding read_quoted_def Let_def after_def [symmetric]
    by (auto simp: read_near_def Let_def split: list.splits if_splits)
  then show ?thesis by (simp add: after_def)
qed

lemma dropWhile_shorter:
  "rest = dropWhile p rs \<Longrightarrow> length rest \<le> length rs"
  by (simp add: length_dropWhile_le)

function web_loop ::
  "text_env \<Rightarrow> rune option \<Rightarrow> text_query \<Rightarrow> text_group \<Rightarrow> rune list \<Rightarrow> text_query" where
  "web_loop env prev q g [] = (if g \<noteq> [] then q @ [g] else q)"
| "web_loop env prev q g (r0 # rs0) =
     (let negate = opens_negation env prev (r0 # rs0);
          r = (if negate then hd rs0 else r0);
          rs = (if negate then tl rs0 else rs0) in
      if r = 34 then
        (let (words, near, rest) = read_quoted env rs in
         web_loop env (rune_before (r0 # rs0) rest) q (g @ quoted_term words negate near) rest)
      else if word_rune env r then
        (let w = ToLower env (encode_runes (r # takeWhile (word_rune env) rs));
             rest = dropWhile (word_rune env) rs;
             prev' = rune_before (r0 # rs0) rest in
         if w = ''or'' \<and> \<not> negate then
           (if g \<noteq> [] then web_loop env prev' (q @ [g]) [] rest else web_loop env prev' q g rest)
         else web_loop env prev' q (g @ [(word_term w)\<lparr>tt_Negate := negate\<rparr>]) rest)
      else web_loop env (Some r) q g rs)"
  by pat_completeness auto
termination
proof (relation "measure (\<lambda>(env, prev, q, g, rs). length rs)", goal_cases)
  case 1
  show ?case by simp
next
  case (2 env prev q g r0 rs0 negate r rs x words y near rest)
  then have "length rest \<le> length rs" using read_quoted_shorter by metis
  moreover have "length rs \<le> length rs0" using 2 by simp
  ultimately show ?case by simp
next
  case (3 env prev q g r0 rs0 negate r rs w rest prev')
  have "length rest \<le> length rs" using 3(7) by (rule dropWhile_shorter)
  moreover have "length rs \<le> length rs0" using 3(3) by simp
  ultimately show ?case by simp
next
  case (4 env prev q g r0 rs0 negate r rs w rest prev')
  have "length rest \<le> length rs" using 4(7) by (rule dropWhile_shorter)
  moreover have "length rs \<le> length rs0" using 4(3) by simp
  ultimately show ?case by simp
next
  case (5 env prev q g r0 rs0 negate r rs w rest prev')
  have "length rest \<le> length rs" using 5(7) by (rule dropWhile_shorter)
  moreover have "length rs \<le> length rs0" using 5(3) by simp
  ultimately show ?case by simp
next
  case (6 env prev q g r0 rs0 negate r rs)
  have "length rs \<le> length rs0" using 6(3) by simp
  then show ?case by simp
qed

declare web_loop.simps(2) [simp del]

definition parseWebsearch :: "text_env \<Rightarrow> string \<Rightarrow> text_query" where
  "parseWebsearch env s = keepPositive (web_loop env None [] [] (runes s))"

definition parse :: "text_env \<Rightarrow> string \<Rightarrow> search_mode \<Rightarrow> text_query" where
  "parse env s mode =
     (let words = splitWords env s in
      if mode = AllTerms \<or> mode = Prefix then
        keepPositive [map (\<lambda>w. (word_term w)\<lparr>tt_Prefix := (mode = Prefix)\<rparr>) words]
      else if mode = AnyTerm then map (\<lambda>w. [word_term w]) words
      else if mode = Phrase then
        (if words = [] then [] else [[(word_term [])\<lparr>tt_Words := words\<rparr>]])
      else parseWebsearch env s)"

definition expand_term :: "fts_index \<Rightarrow> text_term \<Rightarrow> text_term" where
  "expand_term i t =
     (if length (tt_Words t) = 1 \<and> \<not> tt_Prefix t
      then t\<lparr>tt_Synonyms := ix_synonyms i (tt_Words t ! 0)\<rparr> else t)"

text \<open>
  An index without synonyms maps every word to the empty list, which a new term has already,
  so the early return of the code changes nothing.
\<close>

definition expand_query :: "fts_index \<Rightarrow> text_query \<Rightarrow> text_query" where
  "expand_query i q = map (map (expand_term i)) q"

definition search_Query :: "text_env \<Rightarrow> search \<Rightarrow> (fts_error, text_query) result" where
  "search_Query env s =
     (case se_index s of
        None \<Rightarrow> Err (ErrInvalidIndex SearchWithoutIndex)
      | Some i \<Rightarrow>
          if MaxTermLength < rune_count (se_term s) then Err (ErrSearchTooLong (rune_count (se_term s)))
          else
            (let q = parse env (se_term s) (se_mode s); n = sum_list (map length q) in
             if MaxTerms < n then Err (ErrTooManyTerms n)
             else if q = [] then Err ErrEmptySearch
             else Ok (expand_query i q)))"

definition search_Value :: "text_env \<Rightarrow> 'a filter_dialect_scheme \<Rightarrow> search \<Rightarrow> (fts_error, string) result" where
  "search_Value env d s =
     (case text_ops d of
        None \<Rightarrow> Err ErrUnsupported
      | Some fd \<Rightarrow>
          (case search_Query env s of
             Inl e \<Rightarrow> Err e
           | Inr q \<Rightarrow>
               (case TextSearchValue fd (ix_def (the (se_index s))) q of
                  None \<Rightarrow> Err ErrEmptySearch
                | Some v \<Rightarrow> Ok v)))"

end
