(* ===== verification/Criteria.thy ===== *)
theory Criteria
  imports Fts
begin

text \<open>
  Package \<^verbatim>\<open>sqln/criteria\<close>: predicates and orders, the builder that writes SQL text and
  collects parameters, and queries. The builder is a record passed through every write; its
  first error is kept and the text discarded, as in the source.
\<close>

section \<open>Errors\<close>

text \<open>One constructor per error the package returns; the first group wraps \<^verbatim>\<open>ErrInvalidField\<close>,
  the second \<^verbatim>\<open>ErrInvalidValue\<close>.\<close>

datatype criteria_error =
    InvalidField string
  | NotIndexColumn string
  | QualifierNotAlias string
  | TableNotInQuery string
  | TableRepeated string nat
  | BetweenArity string
  | SubstringNotString string
  | OverlapDialect string
  | OverlapUntyped string
  | DateZero string string
  | DateOrder string
  | SearchUnsupported
  | SearchError fts_error

section \<open>Predicates (predicates.go, slice.go, order.go)\<close>

datatype predicate = Predicate
  (p_field: string)
  (p_operator: string)
  (p_value: goval)
  (p_logical: string)
  (p_children: "predicate list")
  (p_raw: bool)
  (p_literal: bool)
  (p_search: "search option")
  (p_err: "criteria_error option")

definition cond :: "string \<Rightarrow> string \<Rightarrow> goval \<Rightarrow> predicate" where
  "cond field operator v = Predicate field operator v [] [] False False None None"

definition cond_err :: "string \<Rightarrow> string \<Rightarrow> goval \<Rightarrow> criteria_error option \<Rightarrow> predicate" where
  "cond_err field operator v e = Predicate field operator v [] [] False False None e"

definition isLogical :: "predicate \<Rightarrow> bool" where
  "isLogical p \<longleftrightarrow> p_logical p \<noteq> []"

definition Substring :: "predicate \<Rightarrow> predicate" where
  "Substring p =
     Predicate (p_field p) (p_operator p) (p_value p) (p_logical p) (p_children p) (p_raw p) True
       (p_search p) (p_err p)"

definition Raw :: "predicate \<Rightarrow> predicate" where
  "Raw p =
     Predicate (p_field p) (p_operator p) (p_value p) (p_logical p) (p_children p) True (p_literal p)
       (p_search p) (p_err p)"

definition Eq :: "string \<Rightarrow> goval \<Rightarrow> predicate" where
  "Eq field v = cond field op_Eq v"

definition Ne :: "string \<Rightarrow> goval \<Rightarrow> predicate" where
  "Ne field v = cond field op_NotEqual v"

definition Lt :: "string \<Rightarrow> goval \<Rightarrow> predicate" where
  "Lt field v = cond field op_Less v"

definition Lte :: "string \<Rightarrow> goval \<Rightarrow> predicate" where
  "Lte field v = cond field op_LessOrEqual v"

definition Gt :: "string \<Rightarrow> goval \<Rightarrow> predicate" where
  "Gt field v = cond field op_Greater v"

definition Gte :: "string \<Rightarrow> goval \<Rightarrow> predicate" where
  "Gte field v = cond field op_GreaterOrEqual v"

definition In :: "string \<Rightarrow> goval \<Rightarrow> predicate" where
  "In field vs = cond field op_In vs"

definition NotIn :: "string \<Rightarrow> goval \<Rightarrow> predicate" where
  "NotIn field vs = cond field op_NotIn vs"

definition isTypedSlice :: "goval \<Rightarrow> bool" where
  "isTypedSlice v = (case v of VSlice k _ \<Rightarrow> k \<noteq> KInterface \<and> k \<noteq> KUint8 | _ \<Rightarrow> False)"

definition Overlaps :: "string \<Rightarrow> goval \<Rightarrow> predicate" where
  "Overlaps field vs =
     cond_err field op_Overlaps vs (if \<not> isTypedSlice vs then Some (OverlapUntyped field) else None)"

definition Contains :: "string \<Rightarrow> string \<Rightarrow> predicate" where
  "Contains field v = cond field op_Contains (VString v)"

definition NotContains :: "string \<Rightarrow> string \<Rightarrow> predicate" where
  "NotContains field v = cond field op_NotContains (VString v)"

definition Like :: "string \<Rightarrow> string \<Rightarrow> predicate" where
  "Like field v = cond field op_Like (VString v)"

definition NotLike :: "string \<Rightarrow> string \<Rightarrow> predicate" where
  "NotLike field v = cond field op_NotLike (VString v)"

definition Between :: "string \<Rightarrow> goval \<Rightarrow> goval \<Rightarrow> predicate" where
  "Between field from to = cond field op_Between (VSlice KInterface [from, to])"

definition IsNull :: "string \<Rightarrow> predicate" where
  "IsNull field = cond field op_IsNull VNil"

definition IsNotNull :: "string \<Rightarrow> predicate" where
  "IsNotNull field = cond field op_IsNotNull VNil"

definition IsTrue :: "string \<Rightarrow> predicate" where
  "IsTrue field = cond field op_IsTrue VNil"

definition IsFalse :: "string \<Rightarrow> predicate" where
  "IsFalse field = cond field op_IsFalse VNil"

definition Group :: "predicate list \<Rightarrow> predicate" where
  "Group ps = Predicate [] op_Group VNil [] ps False False None None"

definition And :: predicate where
  "And = Predicate [] [] VNil op_And [] False False None None"

definition Or :: predicate where
  "Or = Predicate [] [] VNil op_Or [] False False None None"

definition datePredicate :: "string \<Rightarrow> string \<Rightarrow> string \<Rightarrow> int \<Rightarrow> predicate" where
  "datePredicate name field operator date =
     cond_err field operator (VTime date) (if date = 0 then Some (DateZero name field) else None)"

definition DateEq :: "string \<Rightarrow> int \<Rightarrow> predicate" where
  "DateEq field date = datePredicate ''DateEq'' field op_Eq date"

definition DateBefore :: "string \<Rightarrow> int \<Rightarrow> predicate" where
  "DateBefore field date = datePredicate ''DateBefore'' field op_Less date"

definition DateAfter :: "string \<Rightarrow> int \<Rightarrow> predicate" where
  "DateAfter field date = datePredicate ''DateAfter'' field op_Greater date"

definition DateOnOrBefore :: "string \<Rightarrow> int \<Rightarrow> predicate" where
  "DateOnOrBefore field date = datePredicate ''DateOnOrBefore'' field op_LessOrEqual date"

definition DateOnOrAfter :: "string \<Rightarrow> int \<Rightarrow> predicate" where
  "DateOnOrAfter field date = datePredicate ''DateOnOrAfter'' field op_GreaterOrEqual date"

definition DateBetween :: "string \<Rightarrow> int \<Rightarrow> int \<Rightarrow> predicate" where
  "DateBetween field from to =
     cond_err field op_Between (VSlice KInterface [VTime from, VTime to])
       (if from = 0 \<or> to = 0 then Some (DateZero ''DateBetween'' field)
        else if to < from then Some (DateOrder field) else None)"

definition Match :: "search \<Rightarrow> predicate" where
  "Match s = Predicate [] op_Search VNil [] [] False False (Some s) None"

definition toSlice :: "goval \<Rightarrow> goval list option" where
  "toSlice v = (case v of VSlice k vs \<Rightarrow> if k = KUint8 then None else Some vs | _ \<Rightarrow> None)"

record order =
  o_Field :: string
  o_Direction :: string
  o_raw :: bool
  o_search :: "search option"

definition Asc :: "string \<Rightarrow> order" where
  "Asc field = \<lparr>o_Field = field, o_Direction = ''ASC'', o_raw = False, o_search = None\<rparr>"

definition Desc :: "string \<Rightarrow> order" where
  "Desc field = \<lparr>o_Field = field, o_Direction = ''DESC'', o_raw = False, o_search = None\<rparr>"

definition order_Raw :: "order \<Rightarrow> order" where
  "order_Raw o' = o'\<lparr>o_raw := True\<rparr>"

definition ByRelevance :: "search \<Rightarrow> order" where
  "ByRelevance s = \<lparr>o_Field = [], o_Direction = ''DESC'', o_raw = False, o_search = Some s\<rparr>"

section \<open>Builder (builder.go)\<close>

text \<open>\<open>b_tables\<close> is the map from tables to qualifiers, None for the nil map of a bare clause.\<close>

record builder =
  b_params :: "goval list"
  b_sb :: string
  b_err :: "criteria_error option"
  b_tables :: "(string \<Rightarrow> string list) option"

definition newBuilder :: builder where
  "newBuilder = \<lparr>b_params = [], b_sb = [], b_err = None, b_tables = None\<rparr>"

definition fail :: "criteria_error \<Rightarrow> builder \<Rightarrow> builder" where
  "fail e b = (if b_err b = None then b\<lparr>b_err := Some e\<rparr> else b)"

definition checkField :: "string \<Rightarrow> bool \<Rightarrow> builder \<Rightarrow> bool \<times> builder" where
  "checkField field raw b =
     (if raw \<or> IsIdentifier field then (True, b) else (False, fail (InvalidField field) b))"

definition bind_param :: "'a filter_dialect_scheme \<Rightarrow> bind_fn" where
  "bind_param d v ps = (Param d (length ps + 1), ps @ [v])"

definition nextParam :: "'a filter_dialect_scheme \<Rightarrow> goval \<Rightarrow> builder \<Rightarrow> string \<times> builder" where
  "nextParam d v b =
     (let (p, ps) = bind_param d v (b_params b) in (p, b\<lparr>b_params := ps\<rparr>))"

definition write_sql :: "string \<Rightarrow> builder \<Rightarrow> builder" where
  "write_sql s b = b\<lparr>b_sb := b_sb b @ s\<rparr>"

definition likeParam :: "'a filter_dialect_scheme \<Rightarrow> predicate \<Rightarrow> builder \<Rightarrow> string \<times> builder" where
  "likeParam d p b =
     (if \<not> p_literal p then nextParam d (p_value p) b
      else case p_value p of
        VString s \<Rightarrow> nextParam d (VString (''%'' @ EscapeLike d s @ ''%'')) b
      | _ \<Rightarrow> ([], fail (SubstringNotString (p_field p)) b))"

definition writeEscape :: "predicate \<Rightarrow> builder \<Rightarrow> builder" where
  "writeEscape p b = (if p_literal p then write_sql LikeEscapeClause b else b)"

text \<open>\<^verbatim>\<open>reflect.ValueOf(v).Len()\<close>, for the slices that reach it.\<close>

definition slice_len :: "goval \<Rightarrow> nat" where
  "slice_len v = (case v of VSlice _ vs \<Rightarrow> length vs | VArray vs \<Rightarrow> length vs | VString s \<Rightarrow> length s | _ \<Rightarrow> 0)"

definition writeOverlap :: "'a filter_dialect_scheme \<Rightarrow> predicate \<Rightarrow> builder \<Rightarrow> builder" where
  "writeOverlap d p b =
     (case array_ops d of
        None \<Rightarrow> fail (OverlapDialect (p_field p)) b
      | Some ad \<Rightarrow>
          if slice_len (p_value p) = 0 then write_sql ''1 = 0'' b
          else (let (ph, b1) = nextParam d (p_value p) b in write_sql (ArrayOverlap ad (p_field p) ph) b1))"

fun write_params :: "'a filter_dialect_scheme \<Rightarrow> bool \<Rightarrow> goval list \<Rightarrow> builder \<Rightarrow> builder" where
  "write_params d first [] b = b"
| "write_params d first (v # vs) b =
     (let (ph, b1) = nextParam d v (if first then b else write_sql '', '' b) in
      write_params d False vs (write_sql ph b1))"

definition writeMembership :: "'a filter_dialect_scheme \<Rightarrow> predicate \<Rightarrow> builder \<Rightarrow> builder" where
  "writeMembership d p b =
     (case toSlice (p_value p) of
        None \<Rightarrow>
          (let (ph, b1) = nextParam d (p_value p) b in
           write_sql (p_field p @ '' '' @ p_operator p @ '' ('' @ ph @ '')'') b1)
      | Some vs \<Rightarrow>
          if vs = [] then
            (if p_operator p = op_NotIn then write_sql ''1 = 1'' b else write_sql ''1 = 0'' b)
          else
            (case (array_ops d, isTypedSlice (p_value p)) of
               (Some ad, True) \<Rightarrow>
                 (let (ph, b1) = nextParam d (p_value p) b in
                  write_sql (ArrayMembership ad (p_field p) ph (p_operator p = op_NotIn)) b1)
             | _ \<Rightarrow>
                 write_sql '')'' (write_params d True vs
                   (write_sql (p_field p @ '' '' @ p_operator p @ '' ('') b))))"

subsection \<open>Full-text expressions (match.go)\<close>

datatype text_kind = textMatch | textRank | textHighlight

definition qualifier :: "search \<Rightarrow> builder \<Rightarrow> string option \<times> builder" where
  "qualifier s b =
     (if se_qualifier s \<noteq> [] then
        (if \<not> IsIdentifier (se_qualifier s) then (None, fail (QualifierNotAlias (se_qualifier s)) b)
         else (Some (se_qualifier s), b))
      else case b_tables b of
        None \<Rightarrow> (Some [], b)
      | Some m \<Rightarrow>
          (let table = ti_Table (ix_def (the (se_index s))) in
           case m table of
             [q] \<Rightarrow> (Some q, b)
           | [] \<Rightarrow> (None, fail (TableNotInQuery table) b)
           | qs \<Rightarrow> (None, fail (TableRepeated table (length qs)) b)))"

definition render_text ::
  "full_text_dialect \<Rightarrow> text_kind \<Rightarrow> text_index \<Rightarrow> string \<Rightarrow> string \<Rightarrow> text_query \<Rightarrow> bind_fn \<Rightarrow>
     goval list \<Rightarrow> string option \<times> goval list" where
  "render_text fd kind def qual column q bind ps =
     (case kind of
        textRank \<Rightarrow> TextRank fd def qual q bind ps
      | textHighlight \<Rightarrow> TextHighlight fd def qual column q bind ps
      | textMatch \<Rightarrow> TextMatch fd def qual q bind ps)"

definition textExpr ::
  "text_env \<Rightarrow> 'a filter_dialect_scheme \<Rightarrow> search \<Rightarrow> text_kind \<Rightarrow> string \<Rightarrow> builder \<Rightarrow> string \<times> builder" where
  "textExpr env d s kind column b =
     (case text_ops d of
        None \<Rightarrow> ([], fail SearchUnsupported b)
      | Some fd \<Rightarrow>
          (case search_Query env s of
             Inl e \<Rightarrow> ([], fail (SearchError e) b)
           | Inr q \<Rightarrow>
               (case qualifier s b of
                  (None, b1) \<Rightarrow> ([], b1)
                | (Some qual, b1) \<Rightarrow>
                    (let def = ix_def (the (se_index s)) in
                     if kind = textHighlight \<and> \<not> list_ex (\<lambda>c. col_Name c = column) (ti_Columns def)
                     then ([], fail (NotIndexColumn column) b1)
                     else
                       (let (expr, ps) = render_text fd kind def qual column q (bind_param d) (b_params b1);
                            b2 = b1\<lparr>b_params := ps\<rparr> in
                        case expr of
                          None \<Rightarrow> ([], fail (SearchError ErrEmptySearch) b2)
                        | Some sql \<Rightarrow> (sql, b2))))))"

subsection \<open>Writing predicates\<close>

text \<open>
  The previous predicate of the list, if any, decides the implicit AND. Only \<open>Match\<close> makes a
  predicate with the operator \<open>SEARCH\<close> and it sets the search, so the absent one is never written.
\<close>

fun writePredicate :: "text_env \<Rightarrow> 'a filter_dialect_scheme \<Rightarrow> predicate \<Rightarrow> builder \<Rightarrow> builder"
  and writeClause_from ::
    "text_env \<Rightarrow> 'a filter_dialect_scheme \<Rightarrow> predicate option \<Rightarrow> predicate list \<Rightarrow> builder \<Rightarrow> builder" where
  "writePredicate env d (Predicate field operator v logical children raw literal srch err) b =
     (let p = Predicate field operator v logical children raw literal srch err in
      case err of
        Some e \<Rightarrow> fail e b
      | None \<Rightarrow>
         (let (ok, b) =
            (if operator \<noteq> op_Group \<and> operator \<noteq> op_Search then checkField field raw b else (True, b)) in
          if \<not> ok then b
          else if operator = op_IsNull \<or> operator = op_IsNotNull \<or> operator = op_IsTrue \<or> operator = op_IsFalse
          then write_sql (field @ '' '' @ operator) b
          else if operator = op_Group
          then write_sql '')'' (writeClause_from env d None children (write_sql ''('' b))
          else if operator = op_Search then
            (case srch of
               None \<Rightarrow> b
             | Some s \<Rightarrow> (let (sql, b1) = textExpr env d s textMatch [] b in write_sql sql b1))
          else if operator = op_Overlaps then writeOverlap d p b
          else if operator = op_In \<or> operator = op_NotIn then writeMembership d p b
          else if operator = op_Between then
            (case toSlice v of
               Some [x, y] \<Rightarrow>
                 (let (from, b1) = nextParam d x b; (to, b2) = nextParam d y b1 in
                  write_sql (field @ '' BETWEEN '' @ from @ '' AND '' @ to) b2)
             | _ \<Rightarrow> fail (BetweenArity field) b)
          else if operator = op_Contains then
            (let (ph, b1) = likeParam d p b in writeEscape p (write_sql (Like_sql d field ph) b1))
          else if operator = op_NotContains then
            (let (ph, b1) = likeParam d p b in writeEscape p (write_sql (NotLike_sql d field ph) b1))
          else if operator = op_Like then
            (let (ph, b1) = likeParam d p b in writeEscape p (write_sql (field @ '' LIKE '' @ ph) b1))
          else if operator = op_NotLike then
            (let (ph, b1) = likeParam d p b in writeEscape p (write_sql (field @ '' NOT LIKE '' @ ph) b1))
          else (let (ph, b1) = nextParam d v b in write_sql (field @ '' '' @ operator @ '' '' @ ph) b1)))"
| "writeClause_from env d prev [] b = b"
| "writeClause_from env d prev (p # ps) b =
     (let b1 = (if prev \<noteq> None then write_sql '' '' b else b);
          b2 = (if isLogical p then write_sql (p_logical p) b1
                else writePredicate env d p
                       (case prev of
                          Some p0 \<Rightarrow> if \<not> isLogical p0 then write_sql (op_And @ '' '') b1 else b1
                        | None \<Rightarrow> b1)) in
      writeClause_from env d (Some p) ps b2)"

definition writeClause :: "text_env \<Rightarrow> 'a filter_dialect_scheme \<Rightarrow> predicate list \<Rightarrow> builder \<Rightarrow> builder" where
  "writeClause env d ps b = writeClause_from env d None ps b"

section \<open>Clauses (clause.go)\<close>

definition builder_result :: "builder \<Rightarrow> (criteria_error, string \<times> goval list) result" where
  "builder_result b = (case b_err b of Some e \<Rightarrow> Err e | None \<Rightarrow> Ok (b_sb b, b_params b))"

definition BuildClauseAfter ::
  "text_env \<Rightarrow> goval list \<Rightarrow> predicate list \<Rightarrow> 'a filter_dialect_scheme \<Rightarrow>
     (criteria_error, string \<times> goval list) result" where
  "BuildClauseAfter env args ps d =
     builder_result (writeClause env d ps (newBuilder\<lparr>b_params := args\<rparr>))"

definition BuildClause ::
  "text_env \<Rightarrow> predicate list \<Rightarrow> 'a filter_dialect_scheme \<Rightarrow> (criteria_error, string \<times> goval list) result" where
  "BuildClause env ps d = BuildClauseAfter env [] ps d"

section \<open>Queries (query.go)\<close>

record join_clause =
  j_type :: string
  j_table :: string
  j_alias :: string
  j_on :: string

record relevance_select =
  r_search :: search
  r_alias :: string
  r_highlight :: string

record query =
  q_selects :: "string list"
  q_relevance :: "relevance_select list"
  q_table :: string
  q_alias :: string
  q_joins :: "join_clause list"
  q_where :: "predicate list"
  q_group :: "string list"
  q_having :: "predicate list"
  q_order :: "order list"
  q_limit :: int
  q_offset :: int

definition From :: "string \<Rightarrow> string \<Rightarrow> query" where
  "From table alias =
     \<lparr>q_selects = [], q_relevance = [], q_table = table, q_alias = alias, q_joins = [], q_where = [],
      q_group = [], q_having = [], q_order = [], q_limit = 0, q_offset = 0\<rparr>"

definition Select :: "string list \<Rightarrow> query \<Rightarrow> query" where
  "Select cols q = q\<lparr>q_selects := q_selects q @ cols\<rparr>"

definition add_join :: "string \<Rightarrow> string \<Rightarrow> string \<Rightarrow> string \<Rightarrow> query \<Rightarrow> query" where
  "add_join t table alias on q =
     q\<lparr>q_joins := q_joins q @ [\<lparr>j_type = t, j_table = table, j_alias = alias, j_on = on\<rparr>]\<rparr>"

definition Join :: "string \<Rightarrow> string \<Rightarrow> string \<Rightarrow> query \<Rightarrow> query" where
  "Join table alias on = add_join ''JOIN'' table alias on"

definition LeftJoin :: "string \<Rightarrow> string \<Rightarrow> string \<Rightarrow> query \<Rightarrow> query" where
  "LeftJoin table alias on = add_join ''LEFT JOIN'' table alias on"

definition LeftJoinLateral :: "string \<Rightarrow> string \<Rightarrow> query \<Rightarrow> query" where
  "LeftJoinLateral subquery alias = add_join ''LEFT JOIN LATERAL'' subquery alias ''TRUE''"

definition RightJoin :: "string \<Rightarrow> string \<Rightarrow> string \<Rightarrow> query \<Rightarrow> query" where
  "RightJoin table alias on = add_join ''RIGHT JOIN'' table alias on"

definition Where :: "predicate list \<Rightarrow> query \<Rightarrow> query" where
  "Where ps q = q\<lparr>q_where := q_where q @ ps\<rparr>"

definition GroupBy :: "string list \<Rightarrow> query \<Rightarrow> query" where
  "GroupBy cols q = q\<lparr>q_group := q_group q @ cols\<rparr>"

definition Having :: "predicate list \<Rightarrow> query \<Rightarrow> query" where
  "Having ps q = q\<lparr>q_having := q_having q @ ps\<rparr>"

definition OrderBy :: "order list \<Rightarrow> query \<Rightarrow> query" where
  "OrderBy os q = q\<lparr>q_order := q_order q @ os\<rparr>"

definition Limit :: "int \<Rightarrow> query \<Rightarrow> query" where
  "Limit n q = q\<lparr>q_limit := n\<rparr>"

definition Offset :: "int \<Rightarrow> query \<Rightarrow> query" where
  "Offset n q = q\<lparr>q_offset := n\<rparr>"

definition SelectRelevance :: "search \<Rightarrow> string \<Rightarrow> query \<Rightarrow> query" where
  "SelectRelevance s alias q =
     q\<lparr>q_relevance := q_relevance q @ [\<lparr>r_search = s, r_alias = alias, r_highlight = []\<rparr>]\<rparr>"

definition SelectHighlight :: "search \<Rightarrow> string \<Rightarrow> string \<Rightarrow> query \<Rightarrow> query" where
  "SelectHighlight s column alias q =
     q\<lparr>q_relevance := q_relevance q @ [\<lparr>r_search = s, r_alias = alias, r_highlight = column\<rparr>]\<rparr>"

subsection \<open>Indexes a query searches (match.go)\<close>

definition appendIndex :: "fts_index list \<Rightarrow> fts_index option \<Rightarrow> fts_index list" where
  "appendIndex out idx =
     (case idx of
        None \<Rightarrow> out
      | Some i \<Rightarrow> if list_ex (\<lambda>have. ix_addr have = ix_addr i) out then out else out @ [i])"

definition append_search :: "fts_index list \<Rightarrow> search option \<Rightarrow> fts_index list" where
  "append_search out s = (case s of None \<Rightarrow> out | Some s \<Rightarrow> appendIndex out (se_index s))"

fun append_predicate :: "fts_index list \<Rightarrow> predicate \<Rightarrow> fts_index list"
  and appendTextIndexes :: "fts_index list \<Rightarrow> predicate list \<Rightarrow> fts_index list" where
  "append_predicate out (Predicate field operator v logical children raw literal srch err) =
     appendTextIndexes (append_search out srch) children"
| "appendTextIndexes out [] = out"
| "appendTextIndexes out (p # ps) = appendTextIndexes (append_predicate out p) ps"

definition TextIndexes :: "predicate list \<Rightarrow> fts_index list" where
  "TextIndexes ps = appendTextIndexes [] ps"

definition query_TextIndexes :: "query \<Rightarrow> fts_index list" where
  "query_TextIndexes q =
     (let out1 = foldl (\<lambda>out r. appendIndex out (se_index (r_search r))) [] (q_relevance q);
          out2 = appendTextIndexes out1 (q_where q);
          out3 = appendTextIndexes out2 (q_having q) in
      foldl (\<lambda>out o'. append_search out (o_search o')) out3 (q_order q))"

subsection \<open>Build\<close>

definition add_qualifier :: "(string \<Rightarrow> string list) \<Rightarrow> string \<times> string \<Rightarrow> (string \<Rightarrow> string list)" where
  "add_qualifier m ta =
     (case ta of (table, alias) \<Rightarrow> m(table := m table @ [if alias = [] then table else alias]))"

definition tableQualifiers :: "query \<Rightarrow> string \<Rightarrow> string list" where
  "tableQualifiers q =
     foldl add_qualifier (\<lambda>_. [])
       ((q_table q, q_alias q) #
        map (\<lambda>j. (j_table j, j_alias j)) (filter (\<lambda>j. j_type j \<noteq> ''LEFT JOIN LATERAL'') (q_joins q)))"

text \<open>The loop over the relevance columns; False when it returns from \<^verbatim>\<open>writeBody\<close>.\<close>

fun write_relevance ::
  "text_env \<Rightarrow> 'a filter_dialect_scheme \<Rightarrow> relevance_select list \<Rightarrow> builder \<Rightarrow> bool \<times> builder" where
  "write_relevance env d [] b = (True, b)"
| "write_relevance env d (r # rs) b =
     (let (ok, b1) = checkField (r_alias r) False b in
      if \<not> ok then (False, b1)
      else
        (let (sql, b2) = textExpr env d (r_search r)
                           (if r_highlight r \<noteq> [] then textHighlight else textRank) (r_highlight r) b1 in
         write_relevance env d rs (write_sql ('', '' @ sql @ '' AS '' @ r_alias r) b2)))"

definition join_sql :: "join_clause \<Rightarrow> string" where
  "join_sql j =
     '' '' @ j_type j @ '' '' @ j_table j @ (if j_alias j \<noteq> [] then '' '' @ j_alias j else []) @
     '' ON '' @ j_on j"

definition from_sql :: "query \<Rightarrow> string" where
  "from_sql q =
     '' FROM '' @ q_table q @ (if q_alias q \<noteq> [] then '' '' @ q_alias q else []) @
     concat (map join_sql (q_joins q))"

definition select_sql :: "query \<Rightarrow> string" where
  "select_sql q =
     (if q_selects q = [] then ''SELECT *'' else ''SELECT '' @ join '', '' (q_selects q))"

definition writeBody :: "text_env \<Rightarrow> 'a filter_dialect_scheme \<Rightarrow> query \<Rightarrow> builder \<Rightarrow> builder" where
  "writeBody env d q b =
     (let (ok, b1) = write_relevance env d (q_relevance q)
                       (write_sql (select_sql q) (b\<lparr>b_tables := Some (tableQualifiers q)\<rparr>)) in
      if \<not> ok then b1
      else
        (let b2 = write_sql (from_sql q) b1;
             b3 = (if q_where q \<noteq> [] then writeClause env d (q_where q) (write_sql '' WHERE '' b2) else b2);
             b4 = (if q_group q \<noteq> [] then write_sql ('' GROUP BY '' @ join '', '' (q_group q)) b3 else b3) in
         if q_having q \<noteq> [] then writeClause env d (q_having q) (write_sql '' HAVING '' b4) else b4))"

fun write_orders ::
  "text_env \<Rightarrow> 'a filter_dialect_scheme \<Rightarrow> bool \<Rightarrow> order list \<Rightarrow> builder \<Rightarrow> builder" where
  "write_orders env d first [] b = b"
| "write_orders env d first (o' # os) b =
     (let (ok, b1) = (case o_search o' of
                        None \<Rightarrow> checkField (o_Field o') (o_raw o') b
                      | Some _ \<Rightarrow> (True, b)) in
      if \<not> ok then b1
      else
        (let b2 = (if first then b1 else write_sql '', '' b1);
             (field, b3) = (case o_search o' of
                              None \<Rightarrow> (o_Field o', b2)
                            | Some s \<Rightarrow> textExpr env d s textRank [] b2) in
         write_orders env d False os
           (write_sql (field @ '' '' @ SortDirection (o_Direction o')) b3)))"

definition writeOrderBy :: "text_env \<Rightarrow> 'a filter_dialect_scheme \<Rightarrow> query \<Rightarrow> builder \<Rightarrow> builder" where
  "writeOrderBy env d q b =
     (if q_order q = [] then b else write_orders env d True (q_order q) (write_sql '' ORDER BY '' b))"

definition limit_sql :: "query \<Rightarrow> string" where
  "limit_sql q =
     (if 0 < q_limit q then '' LIMIT '' @ itoa (q_limit q) else []) @
     (if 0 < q_offset q then '' OFFSET '' @ itoa (q_offset q) else [])"

definition Build ::
  "text_env \<Rightarrow> query \<Rightarrow> 'a filter_dialect_scheme \<Rightarrow> (criteria_error, string \<times> goval list) result" where
  "Build env q d =
     builder_result (write_sql (limit_sql q) (writeOrderBy env d q (writeBody env d q newBuilder)))"

definition BuildBase ::
  "text_env \<Rightarrow> query \<Rightarrow> 'a filter_dialect_scheme \<Rightarrow> (criteria_error, string \<times> goval list) result" where
  "BuildBase env q d = builder_result (writeBody env d q newBuilder)"

end
