(* ===== verification/Criteria_Spec.thy ===== *)
theory Criteria_Spec
  imports Criteria
begin

text \<open>
  What the criteria builder promises: the statement is a fixed sequence of SQL text and holes,
  the holes are numbered in order after the parameters already bound, and the parameters are
  exactly the values of the holes. The specification below computes that sequence, or the first
  error, with no state; a locale states what a dialect has to promise and its refinement lemma is
  proved once, then interpreted for the four dialects.
\<close>

section \<open>Statements with holes\<close>

datatype tok = Lit string | Hole goval

fun render :: "(nat \<Rightarrow> string) \<Rightarrow> nat \<Rightarrow> tok list \<Rightarrow> string" where
  "render par n [] = []"
| "render par n (Lit s # ts) = s @ render par n ts"
| "render par n (Hole v # ts) = par (n + 1) @ render par (n + 1) ts"

fun holes :: "tok list \<Rightarrow> goval list" where
  "holes [] = []"
| "holes (Lit s # ts) = holes ts"
| "holes (Hole v # ts) = v # holes ts"

lemma holes_append [simp]: "holes (a @ b) = holes a @ holes b"
  by (induction a rule: holes.induct) auto

lemma render_append [simp]:
  "render par n (a @ b) = render par n a @ render par (n + length (holes a)) b"
  by (induction a arbitrary: n rule: holes.induct) auto

section \<open>Specification\<close>

text \<open>
  The texts a dialect writes around a placeholder: \<open>t_member\<close> gives the text before and after the
  array of IN and NOT IN, \<open>t_overlap\<close> the text before the array of an overlap.
\<close>

record templates =
  t_like :: string
  t_notlike :: string
  t_arrays :: "((bool \<Rightarrow> string \<times> string) \<times> string) option"
  t_escape :: "string \<Rightarrow> string"
  t_text :: "(text_kind \<Rightarrow> text_index \<Rightarrow> string \<Rightarrow> string \<Rightarrow> text_query \<Rightarrow> tok list option) option"

definition qualifier_spec :: "(string \<Rightarrow> string list) option \<Rightarrow> search \<Rightarrow> (criteria_error, string) result" where
  "qualifier_spec tables s =
     (if se_qualifier s \<noteq> [] then
        (if IsIdentifier (se_qualifier s) then Ok (se_qualifier s)
         else Err (QualifierNotAlias (se_qualifier s)))
      else case tables of
        None \<Rightarrow> Ok []
      | Some m \<Rightarrow>
          (let table = ti_Table (ix_def (the (se_index s))) in
           case m table of
             [q] \<Rightarrow> Ok q
           | [] \<Rightarrow> Err (TableNotInQuery table)
           | qs \<Rightarrow> Err (TableRepeated table (length qs))))"

definition text_toks ::
  "text_env \<Rightarrow> templates \<Rightarrow> (string \<Rightarrow> string list) option \<Rightarrow> text_kind \<Rightarrow> string \<Rightarrow> search \<Rightarrow>
     (criteria_error, tok list) result" where
  "text_toks env t tables kind column s =
     (case t_text t of
        None \<Rightarrow> Err SearchUnsupported
      | Some tx \<Rightarrow>
          (case search_Query env s of
             Inl e \<Rightarrow> Err (SearchError e)
           | Inr q \<Rightarrow>
               (case qualifier_spec tables s of
                  Inl e \<Rightarrow> Err e
                | Inr qual \<Rightarrow>
                    (let def = ix_def (the (se_index s)) in
                     if kind = textHighlight \<and> column \<notin> col_Name ` set (ti_Columns def)
                     then Err (NotIndexColumn column)
                     else case tx kind def qual column q of
                       None \<Rightarrow> Err (SearchError ErrEmptySearch)
                     | Some ts \<Rightarrow> Ok ts))))"

definition like_value :: "templates \<Rightarrow> predicate \<Rightarrow> (criteria_error, goval) result" where
  "like_value t p =
     (if \<not> p_literal p then Ok (p_value p)
      else case p_value p of
        VString s \<Rightarrow> Ok (VString (''%'' @ t_escape t s @ ''%''))
      | _ \<Rightarrow> Err (SubstringNotString (p_field p)))"

definition like_toks :: "templates \<Rightarrow> string \<Rightarrow> predicate \<Rightarrow> (criteria_error, tok list) result" where
  "like_toks t word p =
     (case like_value t p of
        Inl e \<Rightarrow> Err e
      | Inr v \<Rightarrow> Ok [Lit (p_field p @ word), Hole v, Lit (if p_literal p then LikeEscapeClause else [])])"

definition overlap_toks :: "templates \<Rightarrow> predicate \<Rightarrow> (criteria_error, tok list) result" where
  "overlap_toks t p =
     (case t_arrays t of
        None \<Rightarrow> Err (OverlapDialect (p_field p))
      | Some (_, mid) \<Rightarrow>
          if slice_len (p_value p) = 0 then Ok [Lit ''1 = 0'']
          else Ok [Lit (p_field p @ mid), Hole (p_value p)])"

definition list_toks :: "goval list \<Rightarrow> tok list" where
  "list_toks vs = tl (concat (map (\<lambda>v. [Lit '', '', Hole v]) vs))"

definition member_toks :: "templates \<Rightarrow> predicate \<Rightarrow> tok list" where
  "member_toks t p =
     (case toSlice (p_value p) of
        None \<Rightarrow> [Lit (p_field p @ '' '' @ p_operator p @ '' (''), Hole (p_value p), Lit '')'']
      | Some [] \<Rightarrow> [Lit (if p_operator p = op_NotIn then ''1 = 1'' else ''1 = 0'')]
      | Some vs \<Rightarrow>
          (case (t_arrays t, isTypedSlice (p_value p)) of
             (Some (mem, _), True) \<Rightarrow>
               [Lit (p_field p @ fst (mem (p_operator p = op_NotIn))), Hole (p_value p),
                Lit (snd (mem (p_operator p = op_NotIn)))]
           | _ \<Rightarrow> Lit (p_field p @ '' '' @ p_operator p @ '' ('') # list_toks vs @ [Lit '')'']))"

fun pred_toks ::
  "text_env \<Rightarrow> templates \<Rightarrow> (string \<Rightarrow> string list) option \<Rightarrow> predicate \<Rightarrow> (criteria_error, tok list) result"
  and clause_toks_from ::
  "text_env \<Rightarrow> templates \<Rightarrow> (string \<Rightarrow> string list) option \<Rightarrow> predicate option \<Rightarrow> predicate list \<Rightarrow>
     (criteria_error, tok list) result" where
  "pred_toks env t tables (Predicate field operator v logical children raw literal srch err) =
     (let p = Predicate field operator v logical children raw literal srch err in
      case err of
        Some e \<Rightarrow> Err e
      | None \<Rightarrow>
          if operator = op_Group then
            (case clause_toks_from env t tables None children of
               Inl e \<Rightarrow> Err e
             | Inr ts \<Rightarrow> Ok (Lit ''('' # ts @ [Lit '')'']))
          else if operator = op_Search then
            (case srch of None \<Rightarrow> Ok [] | Some s \<Rightarrow> text_toks env t tables textMatch [] s)
          else if \<not> raw \<and> \<not> IsIdentifier field then Err (InvalidField field)
          else if operator \<in> {op_IsNull, op_IsNotNull, op_IsTrue, op_IsFalse}
          then Ok [Lit (field @ '' '' @ operator)]
          else if operator = op_Overlaps then overlap_toks t p
          else if operator \<in> {op_In, op_NotIn} then Ok (member_toks t p)
          else if operator = op_Between then
            (case toSlice v of
               Some [x, y] \<Rightarrow> Ok [Lit (field @ '' BETWEEN ''), Hole x, Lit '' AND '', Hole y]
             | _ \<Rightarrow> Err (BetweenArity field))
          else if operator = op_Contains then like_toks t (t_like t) p
          else if operator = op_NotContains then like_toks t (t_notlike t) p
          else if operator = op_Like then like_toks t '' LIKE '' p
          else if operator = op_NotLike then like_toks t '' NOT LIKE '' p
          else Ok [Lit (field @ '' '' @ operator @ '' ''), Hole v])"
| "clause_toks_from env t tables prev [] = Ok []"
| "clause_toks_from env t tables prev (p # ps) =
     (case (if isLogical p then Ok [Lit (p_logical p)] else pred_toks env t tables p) of
        Inl e \<Rightarrow> Err e
      | Inr here \<Rightarrow>
          (case clause_toks_from env t tables (Some p) ps of
             Inl e \<Rightarrow> Err e
           | Inr rest \<Rightarrow>
               Ok (Lit (case prev of
                          None \<Rightarrow> []
                        | Some p0 \<Rightarrow> if \<not> isLogical p0 \<and> \<not> isLogical p then '' AND '' else '' '') #
                   here @ rest)))"

definition clause_toks ::
  "text_env \<Rightarrow> templates \<Rightarrow> (string \<Rightarrow> string list) option \<Rightarrow> predicate list \<Rightarrow> (criteria_error, tok list) result" where
  "clause_toks env t tables ps = clause_toks_from env t tables None ps"

definition seq_toks ::
  "(criteria_error, tok list) result \<Rightarrow> (criteria_error, tok list) result \<Rightarrow> (criteria_error, tok list) result" where
  "seq_toks r1 r2 =
     (case r1 of Inl e \<Rightarrow> Err e
      | Inr a \<Rightarrow> (case r2 of Inl e \<Rightarrow> Err e | Inr c \<Rightarrow> Ok (a @ c)))"

fun relevance_toks ::
  "text_env \<Rightarrow> templates \<Rightarrow> (string \<Rightarrow> string list) option \<Rightarrow> relevance_select list \<Rightarrow> (criteria_error, tok list) result" where
  "relevance_toks env t tables [] = Ok []"
| "relevance_toks env t tables (r # rs) =
     (if \<not> IsIdentifier (r_alias r) then Err (InvalidField (r_alias r))
      else
        seq_toks
          (case text_toks env t tables (if r_highlight r \<noteq> [] then textHighlight else textRank)
                  (r_highlight r) (r_search r) of
             Inl e \<Rightarrow> Err e
           | Inr ts \<Rightarrow> Ok (Lit '', '' # ts @ [Lit ('' AS '' @ r_alias r)]))
          (relevance_toks env t tables rs))"

definition section_toks ::
  "text_env \<Rightarrow> templates \<Rightarrow> (string \<Rightarrow> string list) option \<Rightarrow> string \<Rightarrow> predicate list \<Rightarrow>
     (criteria_error, tok list) result" where
  "section_toks env t tables word ps =
     (if ps \<noteq> [] then seq_toks (Ok [Lit word]) (clause_toks env t tables ps) else Ok [])"

definition body_toks :: "text_env \<Rightarrow> templates \<Rightarrow> query \<Rightarrow> (criteria_error, tok list) result" where
  "body_toks env t q =
     (let tables = Some (tableQualifiers q) in
      seq_toks (Ok [Lit (select_sql q)])
        (seq_toks (relevance_toks env t tables (q_relevance q))
          (seq_toks (Ok [Lit (from_sql q)])
            (seq_toks (section_toks env t tables '' WHERE '' (q_where q))
              (seq_toks (Ok (if q_group q \<noteq> [] then [Lit ('' GROUP BY '' @ join '', '' (q_group q))] else []))
                (section_toks env t tables '' HAVING '' (q_having q)))))))"

fun order_toks ::
  "text_env \<Rightarrow> templates \<Rightarrow> (string \<Rightarrow> string list) option \<Rightarrow> bool \<Rightarrow> order list \<Rightarrow> (criteria_error, tok list) result" where
  "order_toks env t tables first [] = Ok []"
| "order_toks env t tables first (o' # os) =
     seq_toks
       (case o_search o' of
          None \<Rightarrow>
            if o_raw o' \<or> IsIdentifier (o_Field o')
            then Ok [Lit ((if first then [] else '', '') @ o_Field o' @ '' '' @ SortDirection (o_Direction o'))]
            else Err (InvalidField (o_Field o'))
        | Some s \<Rightarrow>
            (case text_toks env t tables textRank [] s of
               Inl e \<Rightarrow> Err e
             | Inr ts \<Rightarrow>
                 Ok (Lit (if first then [] else '', '') # ts @ [Lit ('' '' @ SortDirection (o_Direction o'))])))
       (order_toks env t tables False os)"

definition tail_toks :: "text_env \<Rightarrow> templates \<Rightarrow> query \<Rightarrow> (criteria_error, tok list) result" where
  "tail_toks env t q =
     seq_toks
       (if q_order q = [] then Ok []
        else seq_toks (Ok [Lit '' ORDER BY '']) (order_toks env t (Some (tableQualifiers q)) True (q_order q)))
       (Ok [Lit (limit_sql q)])"

definition rendered :: "'a filter_dialect_scheme \<Rightarrow> goval list \<Rightarrow> (criteria_error, tok list) result \<Rightarrow>
    (criteria_error, string \<times> goval list) result" where
  "rendered d args r =
     (case r of
        Inl e \<Rightarrow> Err e
      | Inr ts \<Rightarrow> Ok (render (Param d) (length args) ts, args @ holes ts))"

section \<open>Refinement of the builder\<close>

definition emit :: "'a filter_dialect_scheme \<Rightarrow> tok list \<Rightarrow> builder \<Rightarrow> builder" where
  "emit d ts b =
     b\<lparr>b_sb := b_sb b @ render (Param d) (length (b_params b)) ts, b_params := b_params b @ holes ts\<rparr>"

text \<open>
  A write refines a specified result in a query with the given tables: without an earlier error it
  emits the specified tokens or records the specified error, and it keeps an earlier error.
\<close>

definition refines ::
  "'a filter_dialect_scheme \<Rightarrow> (string \<Rightarrow> string list) option \<Rightarrow> (builder \<Rightarrow> builder) \<Rightarrow>
     (criteria_error, tok list) result \<Rightarrow> bool" where
  "refines d tables f r \<longleftrightarrow>
     (\<forall>b. b_err b = None \<longrightarrow> b_tables b = tables \<longrightarrow>
        (case r of Inl e \<Rightarrow> b_err (f b) = Some e | Inr ts \<Rightarrow> f b = emit d ts b)) \<and>
     (\<forall>b e. b_err b = Some e \<longrightarrow> b_err (f b) = Some e)"

lemma emit_fields [simp]:
  "b_err (emit d ts b) = b_err b" "b_tables (emit d ts b) = b_tables b"
  "b_params (emit d ts b) = b_params b @ holes ts"
  by (simp_all add: emit_def)

lemma emit_append: "emit d (a @ c) b = emit d c (emit d a b)"
  by (simp add: emit_def)

lemma emit_Nil [simp]: "emit d [] b = b"
  by (simp add: emit_def)

lemma refinesI:
  assumes "\<And>b. b_err b = None \<Longrightarrow> b_tables b = tables \<Longrightarrow>
      case r of Inl e \<Rightarrow> b_err (f b) = Some e | Inr ts \<Rightarrow> f b = emit d ts b"
    and "\<And>b e. b_err b = Some e \<Longrightarrow> b_err (f b) = Some e"
  shows "refines d tables f r"
  using assms by (simp add: refines_def)

lemma refines_Ok: "refines d tables f (Ok ts) \<Longrightarrow> b_err b = None \<Longrightarrow> b_tables b = tables \<Longrightarrow> f b = emit d ts b"
  by (simp add: refines_def)

lemma refines_Err: "refines d tables f (Err e) \<Longrightarrow> b_err b = None \<Longrightarrow> b_tables b = tables \<Longrightarrow> b_err (f b) = Some e"
  by (simp add: refines_def)

lemma refines_at:
  "refines d tables f r \<Longrightarrow> b_err b = None \<Longrightarrow> b_tables b = tables \<Longrightarrow>
     (case r of Inl e \<Rightarrow> b_err (f b) = Some e | Inr ts \<Rightarrow> f b = emit d ts b)"
  by (simp add: refines_def)

lemma refines_sticky: "refines d tables f r \<Longrightarrow> b_err b = Some e \<Longrightarrow> b_err (f b) = Some e"
  by (simp add: refines_def)

lemma refines_seq:
  assumes f: "refines d tables f r1" and g: "refines d tables g r2"
  shows "refines d tables (\<lambda>b. g (f b)) (seq_toks r1 r2)"
proof (rule refinesI, goal_cases)
  case (1 b)
  then show ?case
    by (cases r1; cases r2)
      (use f g 1 in \<open>auto simp: seq_toks_def emit_append refines_Ok refines_Err refines_sticky\<close>)
next
  case (2 b e)
  then show ?case using f g by (simp add: refines_sticky)
qed

lemma refines_id: "refines d tables (\<lambda>b. b) (Ok [])"
  by (simp add: refines_def)

lemma refines_write: "refines d tables (write_sql s) (Ok [Lit s])"
  by (simp add: refines_def write_sql_def emit_def)

lemma refines_fail: "refines d tables (fail e) (Err e)"
  by (simp add: refines_def fail_def)

lemma refines_param:
  "refines d tables (\<lambda>b. let (ph, b1) = nextParam d v b in write_sql (pre @ ph @ post) b1)
     (Ok [Lit pre, Hole v, Lit post])"
  by (simp add: refines_def nextParam_def bind_param_def write_sql_def emit_def)

lemma refines_param_end:
  "refines d tables (\<lambda>b. let (ph, b1) = nextParam d v b in write_sql (pre @ ph) b1) (Ok [Lit pre, Hole v])"
  by (simp add: refines_def nextParam_def bind_param_def write_sql_def emit_def)

lemma refines_cong:
  assumes "refines d tables f r" "\<And>b. f b = g b" "r = r'"
  shows "refines d tables g r'"
proof -
  have "f = g" using assms(2) by (rule ext)
  with assms show ?thesis by simp
qed

lemma refines_if:
  assumes "refines d tables f r1" "refines d tables g r2"
  shows "refines d tables (\<lambda>b. if c then f b else g b) (if c then r1 else r2)"
  using assms by simp

text \<open>The clauses of \<open>writeBody\<close> after the joins.\<close>

definition body_rest :: "text_env \<Rightarrow> 'a filter_dialect_scheme \<Rightarrow> query \<Rightarrow> builder \<Rightarrow> builder" where
  "body_rest env d q b =
     (let b3 = (if q_where q \<noteq> [] then writeClause env d (q_where q) (write_sql '' WHERE '' b) else b);
          b4 = (if q_group q \<noteq> [] then write_sql ('' GROUP BY '' @ join '', '' (q_group q)) b3 else b3) in
      if q_having q \<noteq> [] then writeClause env d (q_having q) (write_sql '' HAVING '' b4) else b4)"

section \<open>What a dialect promises\<close>

locale sql_templates =
  fixes d :: "'a filter_dialect_scheme" and t :: templates
  assumes like_law: "Like_sql d field ph = field @ t_like t @ ph"
    and notlike_law: "NotLike_sql d field ph = field @ t_notlike t @ ph"
    and escape_law: "t_escape t = EscapeLike d"
    and no_arrays: "array_ops d = None \<longleftrightarrow> t_arrays t = None"
    and member_law: "array_ops d = Some ad \<Longrightarrow> t_arrays t = Some (mem, mid) \<Longrightarrow>
      ArrayMembership ad field ph negate = field @ fst (mem negate) @ ph @ snd (mem negate)"
    and overlap_law: "array_ops d = Some ad \<Longrightarrow> t_arrays t = Some (mem, mid) \<Longrightarrow>
      ArrayOverlap ad field ph = field @ mid @ ph"
    and no_text: "text_ops d = None \<longleftrightarrow> t_text t = None"
    and text_law: "text_ops d = Some fd \<Longrightarrow> t_text t = Some tx \<Longrightarrow>
      render_text fd kind idx qual column q (bind_param d) ps =
        (case tx kind idx qual column q of
           None \<Rightarrow> (None, ps)
         | Some ts \<Rightarrow> (Some (render (Param d) (length ps) ts), ps @ holes ts))"
begin

lemma refines_like:
  "refines d tables (\<lambda>b. let (ph, b1) = likeParam d p b in writeEscape p (write_sql (p_field p @ word @ ph) b1))
     (like_toks t word p)"
  by (rule refinesI)
    (auto simp: likeParam_def like_toks_def like_value_def escape_law nextParam_def bind_param_def
      write_sql_def writeEscape_def emit_def fail_def split: goval.splits)

lemma refines_overlap: "refines d tables (writeOverlap d p) (overlap_toks t p)"
proof (cases "array_ops d")
  case None
  then show ?thesis
    using no_arrays by (auto intro!: refines_cong [OF refines_fail] simp: writeOverlap_def overlap_toks_def)
next
  case (Some ad)
  with no_arrays obtain mem mid where t: "t_arrays t = Some (mem, mid)" by fastforce
  show ?thesis
    by (rule refinesI)
      (auto simp: Some t writeOverlap_def overlap_toks_def overlap_law [OF Some t] nextParam_def
        bind_param_def write_sql_def emit_def)
qed

lemma refines_params:
  "refines d tables (write_params d first vs)
     (Ok (if first then list_toks vs else concat (map (\<lambda>v. [Lit '', '', Hole v]) vs)))"
proof (induction vs arbitrary: first)
  case Nil
  then show ?case by (auto simp: list_toks_def refines_def)
next
  case (Cons v vs)
  let ?here = "if first then [Hole v] else [Lit '', '', Hole v]"
  have "refines d tables (\<lambda>b. let (ph, b1) = nextParam d v (if first then b else write_sql '', '' b) in write_sql ph b1)
     (Ok ?here)"
    by (auto simp: refines_def nextParam_def bind_param_def write_sql_def emit_def)
  from refines_seq [OF this Cons.IH [of False]] show ?case
    by (rule refines_cong) (auto simp: list_toks_def seq_toks_def nextParam_def bind_param_def)
qed

lemma refines_member: "refines d tables (writeMembership d p) (Ok (member_toks t p))"
proof (cases "toSlice (p_value p)")
  case None
  then show ?thesis
    by (intro refines_cong [OF refines_param [of d tables "p_value p" "p_field p @ '' '' @ p_operator p @ '' (''" "'')''"]])
      (auto simp: writeMembership_def member_toks_def)
next
  case (Some vs)
  show ?thesis
  proof (cases vs)
    case Nil
    with Some show ?thesis
      by (intro refines_cong [OF refines_write [of d tables "if p_operator p = op_NotIn then ''1 = 1'' else ''1 = 0''"]])
        (auto simp: writeMembership_def member_toks_def)
  next
    case (Cons w ws)
    show ?thesis
    proof (cases "isTypedSlice (p_value p) \<and> array_ops d \<noteq> None")
      case True
      then obtain ad where ad: "array_ops d = Some ad" by auto
      with no_arrays obtain mem mid where m: "t_arrays t = Some (mem, mid)" by fastforce
      let ?n = "p_operator p = op_NotIn"
      have typed: "isTypedSlice (p_value p) = True" using True by simp
      show ?thesis
        by (intro refines_cong [OF refines_param [of d tables "p_value p" "p_field p @ fst (mem ?n)" "snd (mem ?n)"]])
          (use typed Some Cons ad m in \<open>auto simp: writeMembership_def member_toks_def member_law [OF ad m]\<close>)
    next
      case False
      let ?pre = "p_field p @ '' '' @ p_operator p @ '' (''"
      have arr: "isTypedSlice (p_value p) \<Longrightarrow> array_ops d = None \<and> t_arrays t = None"
        using False no_arrays by auto
      note seq = refines_seq [OF refines_seq [OF refines_write [of d tables ?pre]
            refines_params [of tables True vs]] refines_write [of d tables "'')''"]]
      show ?thesis
        by (rule refines_cong [OF seq])
          (use Some Cons arr in \<open>auto simp: writeMembership_def member_toks_def seq_toks_def split: option.split bool.split\<close>)
    qed
  qed
qed

lemma qualifier_refines:
  assumes "b_err b = None" "b_tables b = tables"
  shows "case qualifier_spec tables s of
      Inl e \<Rightarrow> fst (qualifier s b) = None \<and> b_err (snd (qualifier s b)) = Some e
    | Inr q \<Rightarrow> qualifier s b = (Some q, b)"
  using assms
  by (auto simp: qualifier_def qualifier_spec_def fail_def Let_def split: option.splits list.splits)

lemma qualifier_sticky: "b_err b = Some e \<Longrightarrow> b_err (snd (qualifier s b)) = Some e"
  by (auto simp: qualifier_def fail_def Let_def split: option.splits list.splits)

lemma textExpr_refines:
  assumes "b_err b = None" "b_tables b = tables"
  shows "case text_toks env t tables kind column s of
      Inl e \<Rightarrow> b_err (snd (textExpr env d s kind column b)) = Some e
    | Inr ts \<Rightarrow> textExpr env d s kind column b =
        (render (Param d) (length (b_params b)) ts, b\<lparr>b_params := b_params b @ holes ts\<rparr>)"
proof (cases "text_ops d")
  case None
  then show ?thesis
    using no_text assms by (simp add: textExpr_def text_toks_def fail_def)
next
  case (Some fd)
  with no_text obtain tx where tx: "t_text t = Some tx" by fastforce
  show ?thesis
  proof (cases "search_Query env s")
    case (Inl e)
    then show ?thesis using Some tx assms by (simp add: textExpr_def text_toks_def fail_def)
  next
    case (Inr q)
    show ?thesis
    proof (cases "qualifier_spec tables s")
      case (Inl e)
      then show ?thesis
        using qualifier_refines [OF assms, of s] Some tx Inr
        by (cases "qualifier s b") (auto simp: textExpr_def text_toks_def)
    next
      case (Inr qual)
      then have "qualifier s b = (Some qual, b)" using qualifier_refines [OF assms, of s] by simp
      with Inr Some tx \<open>search_Query env s = Inr q\<close> show ?thesis
        using assms
        by (auto simp: textExpr_def text_toks_def text_law [OF Some tx] fail_def Let_def list_ex_iff
            split: option.split)
    qed
  qed
qed

lemma textExpr_sticky:
  assumes "b_err b = Some e"
  shows "b_err (snd (textExpr env d s kind column b)) = Some e"
proof -
  obtain q b1 where qb: "qualifier s b = (q, b1)" by (cases "qualifier s b")
  then have "b_err b1 = Some e" using qualifier_sticky [OF assms, of s] by simp
  with qb assms show ?thesis
    by (auto simp: textExpr_def fail_def Let_def split: option.split sum.split prod.split)
qed

lemma refines_text:
  "refines d tables (\<lambda>b. let (sql, b1) = textExpr env d s kind column b in write_sql (pre @ sql @ post) b1)
     (case text_toks env t tables kind column s of
        Inl e \<Rightarrow> Err e | Inr ts \<Rightarrow> Ok (Lit pre # ts @ [Lit post]))"
proof (rule refinesI, goal_cases)
  case (1 b)
  then show ?case
    using textExpr_refines [OF 1, of env s kind column]
    by (cases "text_toks env t tables kind column s"; cases "textExpr env d s kind column b")
      (auto simp: write_sql_def emit_def)
next
  case (2 b e)
  then show ?case
    using textExpr_sticky [OF 2, of env s kind column]
    by (cases "textExpr env d s kind column b") (simp add: write_sql_def)
qed

lemma refines_between:
  "refines d tables
     (\<lambda>b. let (from, b1) = nextParam d x b; (to, b2) = nextParam d y b1 in
          write_sql (field @ '' BETWEEN '' @ from @ '' AND '' @ to) b2)
     (Ok [Lit (field @ '' BETWEEN ''), Hole x, Lit '' AND '', Hole y])"
  by (simp add: refines_def nextParam_def bind_param_def write_sql_def emit_def)

lemma refines_clause_from:
  assumes "\<And>p. p \<in> set ps \<Longrightarrow> refines d tables (writePredicate env d p) (pred_toks env t tables p)"
  shows "refines d tables (writeClause_from env d prev ps) (clause_toks_from env t tables prev ps)"
  using assms
proof (induction ps arbitrary: prev)
  case Nil
  then show ?case by (auto intro: refines_cong [OF refines_id])
next
  case (Cons p ps)
  let ?sep = "case prev of None \<Rightarrow> [] | Some p0 \<Rightarrow> if \<not> isLogical p0 \<and> \<not> isLogical p then '' AND '' else '' ''"
  let ?here = "if isLogical p then Ok [Lit (p_logical p)] else pred_toks env t tables p"
  have here: "refines d tables (\<lambda>b. if isLogical p then write_sql (p_logical p) b else writePredicate env d p b) ?here"
    using Cons.prems [of p] refines_write [of d tables "p_logical p"] by auto
  have rest: "refines d tables (writeClause_from env d (Some p) ps) (clause_toks_from env t tables (Some p) ps)"
    using Cons by simp
  note seq = refines_seq [OF refines_seq [OF refines_write [of d tables ?sep] here] rest]
  have "clause_toks_from env t tables prev (p # ps) =
      seq_toks (seq_toks (Ok [Lit ?sep]) ?here) (clause_toks_from env t tables (Some p) ps)"
    by (simp add: seq_toks_def split: sum.split)
  moreover have "(let b1 = write_sql ?sep b in
      writeClause_from env d (Some p) ps (if isLogical p then write_sql (p_logical p) b1 else writePredicate env d p b1)) =
      writeClause_from env d prev (p # ps) b" for b
    by (simp add: write_sql_def Let_def op_And_def split: option.split)
  ultimately show ?case using seq by (auto simp: Let_def intro: refines_cong)
qed

lemma writePredicate_condition:
  assumes "operator \<noteq> op_Group" "operator \<noteq> op_Search" "raw \<or> IsIdentifier field"
    and p: "p = Predicate field operator v logical children raw literal srch None"
  shows "writePredicate env d p b =
     (if operator = op_IsNull \<or> operator = op_IsNotNull \<or> operator = op_IsTrue \<or> operator = op_IsFalse
      then write_sql (field @ '' '' @ operator) b
      else if operator = op_Overlaps then writeOverlap d p b
      else if operator = op_In \<or> operator = op_NotIn then writeMembership d p b
      else if operator = op_Between then
        (case toSlice v of
           Some [x, y] \<Rightarrow>
             (let (from, b1) = nextParam d x b; (to, b2) = nextParam d y b1 in
              write_sql (field @ '' BETWEEN '' @ from @ '' AND '' @ to) b2)
         | _ \<Rightarrow> fail (BetweenArity field) b)
      else if operator = op_Contains then
        (let (ph, b1) = likeParam d p b in writeEscape p (write_sql (p_field p @ t_like t @ ph) b1))
      else if operator = op_NotContains then
        (let (ph, b1) = likeParam d p b in writeEscape p (write_sql (p_field p @ t_notlike t @ ph) b1))
      else if operator = op_Like then
        (let (ph, b1) = likeParam d p b in writeEscape p (write_sql (p_field p @ '' LIKE '' @ ph) b1))
      else if operator = op_NotLike then
        (let (ph, b1) = likeParam d p b in writeEscape p (write_sql (p_field p @ '' NOT LIKE '' @ ph) b1))
      else (let (ph, b1) = nextParam d v b in write_sql ((field @ '' '' @ operator @ '' '') @ ph) b1))"
proof -
  have "checkField field raw b = (True, b)"
    using assms by (simp add: checkField_def)
  then show ?thesis
    unfolding p writePredicate.simps Let_def
    using assms(1,2) by (simp only: if_True option.case prod.case like_law notlike_law predicate.sel
        append.assoc not_True_eq_False if_False simp_thms)
qed

lemma refines_between_value:
  "refines d tables
     (\<lambda>b. case toSlice v of
         Some [x, y] \<Rightarrow>
           (let (from, b1) = nextParam d x b; (to, b2) = nextParam d y b1 in
            write_sql (field @ '' BETWEEN '' @ from @ '' AND '' @ to) b2)
       | _ \<Rightarrow> fail (BetweenArity field) b)
     (case toSlice v of
        Some [x, y] \<Rightarrow> Ok [Lit (field @ '' BETWEEN ''), Hole x, Lit '' AND '', Hole y]
      | _ \<Rightarrow> Err (BetweenArity field))"
  by (cases "toSlice v") (auto split: list.split intro: refines_fail refines_between [unfolded Let_def, simplified])

lemma refines_condition:
  assumes "operator \<noteq> op_Group" "operator \<noteq> op_Search" "raw \<or> IsIdentifier field"
    and p: "p = Predicate field operator v logical children raw literal srch None"
  shows "refines d tables (writePredicate env d p) (pred_toks env t tables p)"
proof -
  have ok: "(\<not> raw \<and> \<not> IsIdentifier field) = False" using assms(3) by simp
  have toks: "pred_toks env t tables p =
     (if operator = op_IsNull \<or> operator = op_IsNotNull \<or> operator = op_IsTrue \<or> operator = op_IsFalse
      then Ok [Lit (field @ '' '' @ operator)]
      else if operator = op_Overlaps then overlap_toks t p
      else if operator = op_In \<or> operator = op_NotIn then Ok (member_toks t p)
      else if operator = op_Between then
        (case toSlice v of
           Some [x, y] \<Rightarrow> Ok [Lit (field @ '' BETWEEN ''), Hole x, Lit '' AND '', Hole y]
         | _ \<Rightarrow> Err (BetweenArity field))
      else if operator = op_Contains then like_toks t (t_like t) p
      else if operator = op_NotContains then like_toks t (t_notlike t) p
      else if operator = op_Like then like_toks t '' LIKE '' p
      else if operator = op_NotLike then like_toks t '' NOT LIKE '' p
      else Ok [Lit (field @ '' '' @ operator @ '' ''), Hole v])"
    using assms(1-2) ok unfolding p pred_toks.simps Let_def
    by (simp only: option.case if_False insert_iff empty_iff simp_thms)
  show ?thesis
    unfolding toks
    by (rule refines_cong [OF _ writePredicate_condition [OF assms, symmetric] refl])
      (intro refines_if refines_write refines_overlap refines_member refines_between_value
        refines_like refines_param_end)
qed

lemma refines_predicate: "refines d tables (writePredicate env d p) (pred_toks env t tables p)"
proof (induction p)
  case (Predicate field operator v logical children raw literal srch err)
  consider (err) e where "err = Some e"
    | (group) "err = None" "operator = op_Group"
    | (srch) "err = None" "operator = op_Search"
    | (bad) "err = None" "operator \<noteq> op_Group" "operator \<noteq> op_Search" "\<not> (raw \<or> IsIdentifier field)"
    | (ok) "err = None" "operator \<noteq> op_Group" "operator \<noteq> op_Search" "raw \<or> IsIdentifier field"
    by (cases err) auto
  then show ?case
  proof cases
    case err
    then show ?thesis by (intro refines_cong [OF refines_fail]) auto
  next
    case group
    note children = refines_clause_from [OF Predicate.IH, of children None]
    note seq = refines_seq [OF refines_seq [OF refines_write [of d tables "''(''"] children]
        refines_write [of d tables "'')''"]]
    from group show ?thesis
      by (intro refines_cong [OF seq]) (auto simp: seq_toks_def op_defs split: sum.split)
  next
    case srch
    note [simp] = op_defs
    show ?thesis
    proof (cases srch)
      case None
      with srch show ?thesis by (intro refines_cong [OF refines_id]) auto
    next
      case (Some s)
      have "refines d tables (\<lambda>b. let (sql, b1) = textExpr env d s textMatch [] b in write_sql sql b1)
         (text_toks env t tables textMatch [] s)"
        using refines_text [of tables env s textMatch "[]" "[]" "[]"]
        by (auto simp: refines_def emit_def split: sum.splits)
      with srch Some show ?thesis by (auto intro: refines_cong)
    qed
  next
    case bad
    then show ?thesis
      by (intro refines_cong [OF refines_fail [of d tables "InvalidField field"]]) (auto simp: checkField_def)
  next
    case ok
    show ?thesis unfolding ok(1) by (rule refines_condition [OF ok(2-4) refl])
  qed
qed

lemma refines_clause: "refines d tables (writeClause env d ps) (clause_toks env t tables ps)"
  unfolding writeClause_def clause_toks_def
  using refines_clause_from [of ps tables env None] refines_predicate
  by (auto intro: refines_cong)

lemma builder_result_refines:
  assumes "refines d tables f r" "b_err b = None" "b_tables b = tables" "b_sb b = []"
  shows "builder_result (f b) = rendered d (b_params b) r"
proof (cases r)
  case (Inl e)
  with assms show ?thesis by (simp add: builder_result_def rendered_def refines_Err)
next
  case (Inr ts)
  with assms have "f b = emit d ts b" by (simp add: refines_Ok)
  with Inr assms show ?thesis by (simp add: builder_result_def rendered_def emit_def)
qed

lemma BuildClauseAfter_spec: "BuildClauseAfter env args ps d = rendered d args (clause_toks env t None ps)"
  using builder_result_refines [OF refines_clause [of None env ps], of "newBuilder\<lparr>b_params := args\<rparr>"]
  by (simp add: BuildClauseAfter_def newBuilder_def)

lemma refines_section:
  "refines d tables (\<lambda>b. if ps \<noteq> [] then writeClause env d ps (write_sql word b) else b)
     (section_toks env t tables word ps)"
  unfolding section_toks_def
  by (intro refines_if refines_seq [OF refines_write refines_clause] refines_id)

lemma relevance_sticky:
  "b_err b = Some e \<Longrightarrow> b_err (snd (write_relevance env d rs b)) = Some e"
proof (induction rs arbitrary: b)
  case (Cons r rs)
  let ?kind = "if r_highlight r \<noteq> [] then textHighlight else textRank"
  show ?case
  proof (cases "IsIdentifier (r_alias r)")
    case True
    obtain sql b1 where tx: "textExpr env d (r_search r) ?kind (r_highlight r) b = (sql, b1)"
      by (cases "textExpr env d (r_search r) ?kind (r_highlight r) b")
    then have "b_err b1 = Some e"
      using textExpr_sticky [OF Cons.prems, of env "r_search r" ?kind "r_highlight r"] by simp
    with Cons.IH tx True show ?thesis by (simp add: checkField_def write_sql_def)
  qed (use Cons in \<open>simp add: checkField_def fail_def\<close>)
qed simp

lemma relevance_refines:
  assumes "b_err b = None" "b_tables b = tables"
  shows "case relevance_toks env t tables rs of
      Inl e \<Rightarrow> b_err (snd (write_relevance env d rs b)) = Some e
    | Inr ts \<Rightarrow> write_relevance env d rs b = (True, emit d ts b)"
  using assms
proof (induction rs arbitrary: b)
  case (Cons r rs)
  let ?kind = "if r_highlight r \<noteq> [] then textHighlight else textRank"
  let ?text = "text_toks env t tables ?kind (r_highlight r) (r_search r)"
  let ?emit_rel = "\<lambda>b. let (sql, b1) = textExpr env d (r_search r) ?kind (r_highlight r) b in
      write_sql ('', '' @ sql @ '' AS '' @ r_alias r) b1"
  show ?case
  proof (cases "IsIdentifier (r_alias r)")
    case False
    with Cons.prems show ?thesis by (simp add: checkField_def fail_def)
  next
    case True
    have step: "write_relevance env d (r # rs) b = write_relevance env d rs (?emit_rel b)"
      using True by (simp add: checkField_def split: prod.split)
    note tx = refines_text [of tables env "r_search r" ?kind "r_highlight r" "'', ''" "'' AS '' @ r_alias r"]
    show ?thesis
    proof (cases ?text)
      case (Inl e)
      have "b_err (?emit_rel b) = Some e"
        using refines_Err [OF tx [unfolded Inl sum.case] Cons.prems] .
      then have "b_err (snd (write_relevance env d rs (?emit_rel b))) = Some e"
        by (rule relevance_sticky)
      with Inl True step show ?thesis by (simp add: seq_toks_def)
    next
      case (Inr ts)
      let ?b = "emit d (Lit '', '' # ts @ [Lit ('' AS '' @ r_alias r)]) b"
      have "?emit_rel b = ?b"
        using refines_Ok [OF tx [unfolded Inr sum.case] Cons.prems] .
      with Inr True step Cons.IH [of ?b] Cons.prems show ?thesis
        by (cases "relevance_toks env t tables rs")
          (auto simp: seq_toks_def emit_append [symmetric])
    qed
  qed
qed simp

lemma refines_body_rest:
  "refines d tables (body_rest env d q)
     (seq_toks (section_toks env t tables '' WHERE '' (q_where q))
       (seq_toks (Ok (if q_group q \<noteq> [] then [Lit ('' GROUP BY '' @ join '', '' (q_group q))] else []))
         (section_toks env t tables '' HAVING '' (q_having q))))"
proof -
  have "refines d tables (\<lambda>b. if q_group q \<noteq> [] then write_sql ('' GROUP BY '' @ join '', '' (q_group q)) b else b)
     (Ok (if q_group q \<noteq> [] then [Lit ('' GROUP BY '' @ join '', '' (q_group q))] else []))"
    using refines_write refines_id by (cases "q_group q \<noteq> []") auto
  from refines_seq [OF refines_section refines_seq [OF this refines_section]]
  show ?thesis by (rule refines_cong) (simp_all add: body_rest_def Let_def)
qed

lemma refines_write_body:
  "refines d (Some (tableQualifiers q)) (\<lambda>b. writeBody env d q b) (body_toks env t q)"
proof (rule refinesI, goal_cases)
  case (1 b)
  let ?tables = "Some (tableQualifiers q)"
  let ?b1 = "emit d [Lit (select_sql q)] b"
  have b1: "write_sql (select_sql q) (b\<lparr>b_tables := ?tables\<rparr>) = ?b1"
    using 1 by (simp add: write_sql_def emit_def)
  have body: "writeBody env d q b =
      (let (ok, b2) = write_relevance env d (q_relevance q) ?b1 in
       if \<not> ok then b2 else body_rest env d q (write_sql (from_sql q) b2))"
    by (simp only: writeBody_def b1 body_rest_def Let_def)
  define R where "R = seq_toks (Ok [Lit (from_sql q)])
      (seq_toks (section_toks env t ?tables '' WHERE '' (q_where q))
        (seq_toks (Ok (if q_group q \<noteq> [] then [Lit ('' GROUP BY '' @ join '', '' (q_group q))] else []))
          (section_toks env t ?tables '' HAVING '' (q_having q))))"
  note rest = refines_seq [OF refines_write [of d ?tables "from_sql q"] refines_body_rest [of ?tables env q], folded R_def]
  have b1': "b_err ?b1 = None" "b_tables ?b1 = ?tables" using 1 by simp_all
  note rel = relevance_refines [OF b1', of env "q_relevance q"]
  show ?case
  proof (cases "relevance_toks env t ?tables (q_relevance q)")
    case (Inl e)
    with rel have "b_err (snd (write_relevance env d (q_relevance q) ?b1)) = Some e" by simp
    then have "b_err (writeBody env d q b) = Some e"
      unfolding body using refines_sticky [OF rest] by (auto split: prod.split)
    moreover have "body_toks env t q = Err e"
      unfolding body_toks_def Let_def Inl by (simp add: seq_toks_def)
    ultimately show ?thesis by simp
  next
    case (Inr ts)
    let ?b2 = "emit d ts ?b1"
    from Inr rel have "writeBody env d q b = body_rest env d q (write_sql (from_sql q) ?b2)"
      unfolding body by simp
    moreover have "b_err ?b2 = None" "b_tables ?b2 = ?tables" using b1' by simp_all
    ultimately have "case R of Inl e \<Rightarrow> b_err (writeBody env d q b) = Some e
        | Inr rs \<Rightarrow> writeBody env d q b = emit d rs ?b2"
      using refines_at [OF rest, of ?b2] by (simp only:)
    moreover have "body_toks env t q = seq_toks (Ok ([Lit (select_sql q)] @ ts)) R"
      unfolding body_toks_def Let_def R_def [symmetric] Inr by (simp add: seq_toks_def split: sum.split)
    ultimately show ?thesis
      by (simp only:) (simp add: seq_toks_def emit_append [symmetric] split: sum.splits)
  qed
next
  case (2 b e)
  let ?b1 = "write_sql (select_sql q) (b\<lparr>b_tables := Some (tableQualifiers q)\<rparr>)"
  obtain ok b2 where rel: "write_relevance env d (q_relevance q) ?b1 = (ok, b2)" by fastforce
  have "b_err ?b1 = Some e" using 2 by (simp add: write_sql_def)
  then have "b_err b2 = Some e" using relevance_sticky [of ?b1 e env "q_relevance q"] rel by simp
  then have "b_err (body_rest env d q (write_sql (from_sql q) b2)) = Some e"
    using refines_sticky [OF refines_body_rest] by (simp add: write_sql_def)
  with \<open>b_err b2 = Some e\<close> rel show ?case
    by (simp add: writeBody_def body_rest_def Let_def)
qed

lemma refines_orders: "refines d tables (write_orders env d first os) (order_toks env t tables first os)"
proof (induction os arbitrary: first)
  case Nil
  then show ?case by (auto intro: refines_cong [OF refines_id])
next
  case (Cons o' os)
  let ?sep = "if first then [] else '', ''" and ?dir = "SortDirection (o_Direction o')"
  show ?case
  proof (cases "o_search o'")
    case None
    show ?thesis
    proof (cases "o_raw o' \<or> IsIdentifier (o_Field o')")
      case True
      note seq = refines_seq [OF refines_write [of d tables "?sep @ o_Field o' @ '' '' @ ?dir"] Cons.IH [of False]]
      show ?thesis
        by (rule refines_cong [OF seq]) (use None True in \<open>auto simp: checkField_def write_sql_def\<close>)
    next
      case False
      with None show ?thesis
        by (intro refines_cong [OF refines_fail [of d tables "InvalidField (o_Field o')"]])
          (auto simp: checkField_def seq_toks_def)
    qed
  next
    case (Some s)
    note tx = refines_text [of tables env s textRank "[]" "[]" "'' '' @ ?dir"]
    note seq = refines_seq [OF refines_seq [OF refines_write [of d tables ?sep] tx] Cons.IH [of False]]
    show ?thesis
    proof (rule refinesI, goal_cases)
      case (1 b)
      have eq: "write_orders env d first (o' # os) b =
          write_orders env d False os
            (let (sql, b1) = textExpr env d s textRank [] (if first then b else write_sql '', '' b) in
             write_sql (sql @ '' '' @ ?dir) b1)"
        using Some by (simp add: Let_def split: prod.split)
      have sep: "(if first then b else write_sql '', '' b) = write_sql ?sep b"
        by (simp add: write_sql_def)
      show ?case
        unfolding eq sep
        using seq 1 Some
        by (cases "text_toks env t tables textRank [] s"; cases "order_toks env t tables False os")
          (auto simp: refines_def seq_toks_def emit_def)
    next
      case (2 b e)
      then have "b_err (if first then b else write_sql '', '' b) = Some e" by (simp add: write_sql_def)
      from textExpr_sticky [OF this, of env s textRank "[]"] show ?case
        using Some refines_sticky [OF Cons.IH [of False]]
        by (auto simp: write_sql_def Let_def split: prod.split)
    qed
  qed
qed

lemma refines_tail:
  "refines d (Some (tableQualifiers q)) (\<lambda>b. write_sql (limit_sql q) (writeOrderBy env d q b)) (tail_toks env t q)"
proof -
  let ?tables = "Some (tableQualifiers q)"
  have "refines d ?tables (writeOrderBy env d q)
      (if q_order q = [] then Ok []
       else seq_toks (Ok [Lit '' ORDER BY '']) (order_toks env t ?tables True (q_order q)))"
    using refines_if [OF refines_id refines_seq [OF refines_write refines_orders]]
    by (rule refines_cong) (auto simp: writeOrderBy_def)
  from refines_seq [OF this refines_write [of d ?tables "limit_sql q"]] show ?thesis
    unfolding tail_toks_def .
qed

lemma newBuilder_tables:
  "writeBody env d q newBuilder = writeBody env d q (newBuilder\<lparr>b_tables := Some (tableQualifiers q)\<rparr>)"
  by (simp add: writeBody_def)

lemma BuildBase_spec: "BuildBase env q d = rendered d [] (body_toks env t q)"
  using builder_result_refines [OF refines_write_body [of q env],
      of "newBuilder\<lparr>b_tables := Some (tableQualifiers q)\<rparr>"]
  by (simp add: BuildBase_def newBuilder_tables) (simp add: newBuilder_def)

lemma Build_spec: "Build env q d = rendered d [] (seq_toks (body_toks env t q) (tail_toks env t q))"
  using builder_result_refines [OF refines_seq [OF refines_write_body [of q env] refines_tail [of q env]],
      of "newBuilder\<lparr>b_tables := Some (tableQualifiers q)\<rparr>"]
  by (simp add: Build_def newBuilder_tables) (simp add: newBuilder_def)

end

section \<open>The four dialects keep the promises\<close>

definition postgres_text_toks ::
  "text_kind \<Rightarrow> text_index \<Rightarrow> string \<Rightarrow> string \<Rightarrow> text_query \<Rightarrow> tok list option" where
  "postgres_text_toks kind idx qual column q =
     map_option (\<lambda>v.
       let query = ''to_tsquery('' @ regconfig idx @ '', '' in
       case kind of
         textMatch \<Rightarrow> [Lit (document_sql idx qual @ '' @@ '' @ query), Hole (VString v), Lit '')'']
       | textRank \<Rightarrow> [Lit (''ts_rank_cd('' @ document_sql idx qual @ '', '' @ query), Hole (VString v), Lit ''))'']
       | textHighlight \<Rightarrow>
           [Lit (''ts_headline('' @ regconfig idx @ '', coalesce('' @ qualify qual column @ '', '' @ quote @ quote @
              ''), '' @ query), Hole (VString v), Lit (''), '' @ headlineOptions @ '')'')])
       (postgres_TextSearchValue idx q)"

definition postgres_templates :: templates where
  "postgres_templates =
     \<lparr>t_like = '' ILIKE '', t_notlike = '' NOT ILIKE '',
      t_arrays = Some (\<lambda>negate. if negate then ('' <> ALL('', '')'') else ('' = ANY('', '')''), '' && ''),
      t_escape = EscapeLike PostgresDialect, t_text = Some postgres_text_toks\<rparr>"

interpretation pg_sql: sql_templates PostgresDialect postgres_templates
proof (unfold_locales, goal_cases)
  case (8 fd tx kind idx qual column q ps)
  then show ?case
    by (cases kind)
      (auto simp: PostgresDialect_def postgres_templates_def postgres_text_def render_text_def postgres_text_toks_def
        postgres_TextMatch_def postgres_TextRank_def postgres_TextHighlight_def tsquery_def bind_param_def
        split: option.split)
qed (auto simp: PostgresDialect_def postgres_templates_def postgres_Like_def postgres_NotLike_def
    postgres_arrays_def postgres_ArrayMembership_def postgres_ArrayOverlap_def)

definition match_prefix :: "text_column list \<Rightarrow> string \<Rightarrow> string" where
  "match_prefix cols qual =
     ''MATCH('' @
     join '', '' (map (\<lambda>c. (if qual \<noteq> [] then qual @ ''.'' else []) @ col_Name c) cols) @ '') AGAINST (''"

definition match_toks :: "text_column list \<Rightarrow> string \<Rightarrow> string \<Rightarrow> string \<Rightarrow> tok list" where
  "match_toks cols qual v post = [Lit (match_prefix cols qual), Hole (VString v), Lit ('' IN BOOLEAN MODE)'' @ post)]"

definition rank_toks :: "string \<Rightarrow> string \<Rightarrow> text_column list list \<Rightarrow> tok list" where
  "rank_toks qual rv groups =
     tl (concat (map (\<lambda>cols. Lit '' + '' # match_toks cols qual rv ('' * '' @ weight_factor (col_Weight (hd cols))))
        groups))"

definition mysql_text_toks ::
  "text_env \<Rightarrow> text_kind \<Rightarrow> text_index \<Rightarrow> string \<Rightarrow> string \<Rightarrow> text_query \<Rightarrow> tok list option" where
  "mysql_text_toks env kind idx qual column q =
     (case kind of
        textHighlight \<Rightarrow>
          (let col = (if qual \<noteq> [] then qual @ ''.'' @ column else column);
               alts = highlightAlternatives env idx q in
           if alts = [] then Some [Lit (''COALESCE('' @ col @ '', '' @ quote @ quote @ '')'')]
           else Some [Lit (''REGEXP_REPLACE(COALESCE('' @ col @ '', '' @ quote @ quote @ ''), ''),
                      Hole (VString (''(?<!'' @ word_class @ '')(?:'' @ join ''|'' alts @ '')'')), Lit '', '',
                      Hole (VString (HighlightStart @ ''$0'' @ HighlightEnd)),
                      Lit ('', 1, 0, '' @ quote @ ''i'' @ quote @ '')'')])
      | textMatch \<Rightarrow>
          map_option (\<lambda>v. match_toks (ti_Columns idx) qual v []) (mysql_TextSearchValue env idx q)
      | textRank \<Rightarrow>
          map_option (\<lambda>v.
            if WeightGroups idx = [] then match_toks (ti_Columns idx) qual v []
            else Lit ''('' # rank_toks qual (rankValue env idx q) (WeightGroups idx) @ [Lit '')''])
            (mysql_TextSearchValue env idx q))"

definition mysql_templates :: "text_env \<Rightarrow> templates" where
  "mysql_templates env =
     \<lparr>t_like = '' LIKE '', t_notlike = '' NOT LIKE '', t_arrays = None,
      t_escape = EscapeLike (MySQLDialect env), t_text = Some (mysql_text_toks env)\<rparr>"

lemma rank_parts_toks:
  "\<exists>ts. concat (map (\<lambda>cols. Lit '' + '' # match_toks cols qual rv ('' * '' @ weight_factor (col_Weight (hd cols)))) groups) = ts \<and>
     rank_parts qual rv (bind_param d) groups ps = (fst (rank_parts qual rv (bind_param d) groups ps), ps @ holes ts) \<and>
     render (Param d) (length ps) ts = concat (map (\<lambda>s. '' + '' @ s) (fst (rank_parts qual rv (bind_param d) groups ps)))"
proof (induction groups arbitrary: ps)
  case (Cons cols groups)
  let ?ps = "ps @ [VString rv]"
  show ?case
    using Cons.IH [of ?ps]
    by (auto simp: match_toks_def match_prefix_def match_sql_def bind_param_def Let_def split: prod.split)
qed simp

lemma join_tl: "xs \<noteq> [] \<Longrightarrow> sep @ join sep xs = concat (map (\<lambda>s. sep @ s) xs)"
  by (induction xs) (auto simp: join_Cons)

lemma rank_parts_join:
  assumes "groups \<noteq> []"
  shows "rank_parts qual rv (bind_param d) groups ps = (fst (rank_parts qual rv (bind_param d) groups ps), ps @ holes (rank_toks qual rv groups))"
    and "render (Param d) (length ps) (rank_toks qual rv groups) = join '' + '' (fst (rank_parts qual rv (bind_param d) groups ps))"
proof -
  let ?parts = "fst (rank_parts qual rv (bind_param d) groups ps)"
  define ts where "ts = concat (map (\<lambda>cols. Lit '' + '' # match_toks cols qual rv ('' * '' @ weight_factor (col_Weight (hd cols)))) groups)"
  have ts: "ts = Lit '' + '' # rank_toks qual rv groups"
    using assms by (cases groups) (auto simp: ts_def rank_toks_def)
  have parts: "?parts \<noteq> []" using assms by (cases groups) (auto simp: bind_param_def Let_def split: prod.split)
  have "rank_parts qual rv (bind_param d) groups ps = (?parts, ps @ holes ts)"
    "render (Param d) (length ps) ts = concat (map (\<lambda>s. '' + '' @ s) ?parts)"
    using rank_parts_toks [of qual rv groups d ps] unfolding ts_def by auto
  then have *: "rank_parts qual rv (bind_param d) groups ps = (?parts, ps @ holes (rank_toks qual rv groups))"
    "'' + '' @ render (Param d) (length ps) (rank_toks qual rv groups) = '' + '' @ join '' + '' ?parts"
    unfolding ts join_tl [OF parts, of "'' + ''"] by (simp_all only: render.simps holes.simps)
  show "rank_parts qual rv (bind_param d) groups ps = (?parts, ps @ holes (rank_toks qual rv groups))"
    by (fact *)
  show "render (Param d) (length ps) (rank_toks qual rv groups) = join '' + '' ?parts"
    using *(2) by (simp only: same_append_eq)
qed

interpretation my_sql: sql_templates "MySQLDialect env" "mysql_templates env" for env
proof (unfold_locales, goal_cases)
  case (8 fd tx kind idx qual column q ps)
  then have fd: "fd = mysql_text env" "tx = mysql_text_toks env"
    by (auto simp: MySQLDialect_def mysql_templates_def)
  show ?case
  proof (cases kind)
    case textRank
    then show ?thesis
      using rank_parts_join [where groups = "WeightGroups idx" and qual = qual and rv = "rankValue env idx q"
          and d = "MySQLDialect env" and ps = ps]
      by (auto simp: fd mysql_text_def render_text_def mysql_text_toks_def mysql_TextRank_def bind_param_def
          match_sql_def match_toks_def match_prefix_def split: option.split prod.split)
  qed (auto simp: fd mysql_text_def render_text_def mysql_text_toks_def mysql_TextMatch_def bind_param_def
      mysql_TextHighlight_def match_sql_def match_toks_def match_prefix_def Let_def split: option.split)
qed (auto simp: MySQLDialect_def mysql_templates_def mysql_Like_def mysql_NotLike_def)

definition plain_templates :: "'a filter_dialect_scheme \<Rightarrow> templates" where
  "plain_templates d =
     \<lparr>t_like = '' LIKE '', t_notlike = '' NOT LIKE '', t_arrays = None, t_escape = EscapeLike d, t_text = None\<rparr>"

interpretation ms_sql: sql_templates SQLServerDialect "plain_templates SQLServerDialect"
  by unfold_locales
    (auto simp: SQLServerDialect_def plain_templates_def sqlserver_Like_def sqlserver_NotLike_def)

interpretation ora_sql: sql_templates OracleDialect "plain_templates OracleDialect"
  by unfold_locales
    (auto simp: OracleDialect_def plain_templates_def oracle_Like_def oracle_NotLike_def)

end
