(* ===== verification/Criteria_Props.thy ===== *)
theory Criteria_Props
  imports Criteria_Spec
begin

text \<open>
  Properties of \<^verbatim>\<open>sqln/criteria\<close>, each for the four dialects: the builder refines its
  specification, only column references reach the SQL text as fields, bound values never do, a
  paged query extends its base query, and the listed full-text indexes are the searched ones.
\<close>

section \<open>The dialects\<close>

definition dialects :: "text_env \<Rightarrow> dialect list" where
  "dialects env = [PostgresDialect, MySQLDialect env, SQLServerDialect, OracleDialect]"

definition templates_of :: "text_env \<Rightarrow> dialect \<Rightarrow> templates" where
  "templates_of env d =
     (if d = PostgresDialect then postgres_templates
      else if d = MySQLDialect env then mysql_templates env
      else plain_templates d)"

lemma dialects_distinct:
  "MySQLDialect env \<noteq> PostgresDialect" "SQLServerDialect \<noteq> PostgresDialect" "OracleDialect \<noteq> PostgresDialect"
  "SQLServerDialect \<noteq> MySQLDialect env" "OracleDialect \<noteq> MySQLDialect env"
  by (simp_all add: PostgresDialect_def MySQLDialect_def SQLServerDialect_def OracleDialect_def)

lemma templates_of_dialects:
  assumes "d \<in> set (dialects env)"
  shows "sql_templates d (templates_of env d)"
  using assms dialects_distinct
    pg_sql.sql_templates_axioms my_sql.sql_templates_axioms [of env]
    ms_sql.sql_templates_axioms ora_sql.sql_templates_axioms
  by (auto simp: dialects_def templates_of_def)

lemmas clause_spec = sql_templates.BuildClauseAfter_spec [OF templates_of_dialects]
lemmas build_spec = sql_templates.Build_spec [OF templates_of_dialects]
lemmas base_spec = sql_templates.BuildBase_spec [OF templates_of_dialects]

lemma rendered_Ok:
  "rendered d args r = Ok (sql, ps) \<longleftrightarrow>
     (\<exists>ts. r = Ok ts \<and> sql = render (Param d) (length args) ts \<and> ps = args @ holes ts)"
  by (auto simp: rendered_def split: sum.splits)

lemma seq_toks_Ok: "seq_toks r1 r2 = Ok ts \<longleftrightarrow> (\<exists>a c. r1 = Ok a \<and> r2 = Ok c \<and> ts = a @ c)"
  by (auto simp: seq_toks_def split: sum.splits)

section \<open>Fields\<close>

text \<open>Every field written as text is a column reference or was marked trusted.\<close>

fun safe_pred :: "predicate \<Rightarrow> bool" where
  "safe_pred (Predicate field operator v logical children raw literal srch err) =
     (logical \<noteq> [] \<or>
      (if operator = op_Group then list_all safe_pred children
       else operator = op_Search \<or> raw \<or> IsIdentifier field))"

definition safe_query :: "query \<Rightarrow> bool" where
  "safe_query q \<longleftrightarrow>
     list_all safe_pred (q_where q) \<and> list_all safe_pred (q_having q) \<and>
     list_all (\<lambda>o'. o_search o' = None \<longrightarrow> o_raw o' \<or> IsIdentifier (o_Field o')) (q_order q) \<and>
     list_all (\<lambda>r. IsIdentifier (r_alias r)) (q_relevance q)"

lemma clause_safe_from:
  assumes "\<And>p ts. p \<in> set ps \<Longrightarrow> pred_toks env t tables p = Ok ts \<Longrightarrow> safe_pred p"
    and "clause_toks_from env t tables prev ps = Ok ts"
  shows "list_all safe_pred ps"
  using assms
proof (induction ps arbitrary: prev ts)
  case (Cons p ps)
  then obtain ts' where rest: "clause_toks_from env t tables (Some p) ps = Ok ts'"
    and here: "isLogical p \<or> (\<exists>hs. pred_toks env t tables p = Ok hs)"
    by (auto split: sum.splits if_splits)
  have "safe_pred p"
    using here Cons.prems(1) [of p] by (cases p) (auto simp: isLogical_def)
  moreover have "list_all safe_pred ps"
    using Cons.IH [OF _ rest] Cons.prems(1) by simp
  ultimately show ?case by simp
qed simp

lemma pred_safe: "pred_toks env t tables p = Ok ts \<Longrightarrow> safe_pred p"
proof (induction p arbitrary: ts)
  case (Predicate field operator v logical children raw literal srch err)
  have err: "err = None" using Predicate.prems by (cases err) (simp_all add: Let_def)
  show ?case
  proof (cases "operator = op_Group")
    case True
    with Predicate.prems err obtain cs where "clause_toks_from env t tables None children = Ok cs"
      by (auto simp: Let_def split: sum.splits)
    with Predicate.IH have "list_all safe_pred children"
      by (rule clause_safe_from)
    with True show ?thesis by simp
  next
    case False
    have "operator = op_Search \<or> raw \<or> IsIdentifier field"
    proof (rule ccontr)
      assume "\<not> ?thesis"
      with False err Predicate.prems show False by (simp add: Let_def)
    qed
    with False show ?thesis by simp
  qed
qed

lemma clause_safe: "clause_toks env t tables ps = Ok ts \<Longrightarrow> list_all safe_pred ps"
  unfolding clause_toks_def using clause_safe_from [of ps env t tables None ts] pred_safe by blast

lemma section_safe: "section_toks env t tables word ps = Ok ts \<Longrightarrow> list_all safe_pred ps"
  by (auto simp: section_toks_def seq_toks_Ok clause_safe split: if_splits)

lemma order_safe:
  "order_toks env t tables first os = Ok ts \<Longrightarrow>
     list_all (\<lambda>o'. o_search o' = None \<longrightarrow> o_raw o' \<or> IsIdentifier (o_Field o')) os"
  by (induction os arbitrary: first ts) (auto simp: seq_toks_Ok split: option.splits if_splits)

lemma relevance_safe:
  "relevance_toks env t tables rs = Ok ts \<Longrightarrow> list_all (\<lambda>r. IsIdentifier (r_alias r)) rs"
  by (induction rs arbitrary: ts) (auto simp: seq_toks_Ok split: if_splits)

lemma query_safe:
  assumes "seq_toks (body_toks env t q) (tail_toks env t q) = Ok ts"
  shows "safe_query q"
  using assms
  by (auto simp: seq_toks_Ok body_toks_def tail_toks_def safe_query_def Let_def
      dest!: section_safe relevance_safe split: if_splits dest: order_safe)

section \<open>Values\<close>

text \<open>The same predicates with every bound value replaced.\<close>

primrec revalue :: "(goval \<Rightarrow> goval) \<Rightarrow> predicate \<Rightarrow> predicate" where
  "revalue f (Predicate field operator v logical children raw literal srch err) =
     Predicate field operator (f v) logical (map (revalue f) children) raw literal srch err"

text \<open>A replacement that keeps what the builder may inspect: the kind and length of a slice and
  whether a value is a string.\<close>

definition shape_preserving :: "(goval \<Rightarrow> goval) \<Rightarrow> bool" where
  "shape_preserving f \<longleftrightarrow>
     (\<forall>v. map_option length (toSlice (f v)) = map_option length (toSlice v) \<and>
          isTypedSlice (f v) = isTypedSlice v \<and> (slice_len (f v) = 0 \<longleftrightarrow> slice_len v = 0) \<and>
          ((\<exists>s. f v = VString s) \<longleftrightarrow> (\<exists>s. v = VString s)))"

text \<open>Token sequences with the same text and as many holes in the same places.\<close>

fun same_text :: "tok list \<Rightarrow> tok list \<Rightarrow> bool" where
  "same_text [] [] = True"
| "same_text (Lit s # ts) (Lit s' # ts') = (s = s' \<and> same_text ts ts')"
| "same_text (Hole v # ts) (Hole v' # ts') = same_text ts ts'"
| "same_text _ _ = False"

lemma same_text_refl [simp]: "same_text ts ts"
proof (induction ts)
  case (Cons x ts)
  then show ?case by (cases x) auto
qed simp

lemma same_text_append: "same_text a a' \<Longrightarrow> same_text c c' \<Longrightarrow> same_text (a @ c) (a' @ c')"
  by (induction a a' rule: same_text.induct) auto

lemma same_text_render: "same_text ts ts' \<Longrightarrow> render par n ts = render par n ts'"
  by (induction ts ts' arbitrary: n rule: same_text.induct) auto

definition same_result :: "(criteria_error, tok list) result \<Rightarrow> (criteria_error, tok list) result \<Rightarrow> bool" where
  "same_result r r' \<longleftrightarrow>
     (case (r, r') of (Inl e, Inl e') \<Rightarrow> e = e' | (Inr ts, Inr ts') \<Rightarrow> same_text ts ts' | _ \<Rightarrow> False)"

lemma same_result_refl [simp]: "same_result r r"
  by (simp add: same_result_def split: sum.split)

lemma list_toks_same:
  assumes "length vs = length vs'"
  shows "same_text (list_toks vs) (list_toks vs')"
proof -
  have "same_text (concat (map (\<lambda>v. [Lit '', '', Hole v]) us)) (concat (map (\<lambda>v. [Lit '', '', Hole v]) us'))"
    if "length us = length us'" for us us'
    using that by (induction us us' rule: list_induct2) auto
  with assms show ?thesis by (cases vs; cases vs') (auto simp: list_toks_def)
qed

lemma revalue_sel [simp]:
  "p_field (revalue f p) = p_field p" "p_operator (revalue f p) = p_operator p" "p_value (revalue f p) = f (p_value p)"
  "p_logical (revalue f p) = p_logical p" "p_literal (revalue f p) = p_literal p"
  "isLogical (revalue f p) = isLogical p"
  by (cases p; simp add: isLogical_def)+

lemma shape_toSlice:
  assumes "shape_preserving f"
  obtains "toSlice v = None" "toSlice (f v) = None"
  | vs vs' where "toSlice v = Some vs" "toSlice (f v) = Some vs'" "length vs = length vs'"
proof (cases "toSlice v")
  case None
  with assms have "map_option length (toSlice (f v)) = None" by (simp add: shape_preserving_def)
  with None that show ?thesis by auto
next
  case (Some vs)
  with assms have "map_option length (toSlice (f v)) = Some (length vs)" by (simp add: shape_preserving_def)
  with Some that show ?thesis by (cases "toSlice (f v)") auto
qed

lemma member_same:
  assumes f: "shape_preserving f"
  shows "same_text (member_toks t p) (member_toks t (revalue f p))"
proof -
  have typed: "isTypedSlice (f (p_value p)) = isTypedSlice (p_value p)"
    using f by (simp add: shape_preserving_def)
  show ?thesis
  proof (rule shape_toSlice [OF f, of "p_value p"], goal_cases)
    case 1
    then show ?case by (simp add: member_toks_def)
  next
    case (2 vs vs')
    then show ?case
      using typed list_toks_same [OF 2(3)]
      by (cases vs; cases vs')
        (auto simp: member_toks_def same_text_append split: option.split bool.split)
  qed
qed

lemma like_value_not_string:
  "\<nexists>s. p_value p = VString s \<Longrightarrow> p_literal p \<Longrightarrow> like_value t p = Err (SubstringNotString (p_field p))"
  by (cases "p_value p") (auto simp: like_value_def)

lemma like_same:
  assumes "shape_preserving f"
  shows "same_result (like_toks t word p) (like_toks t word (revalue f p))"
proof (cases "\<exists>s. p_value p = VString s")
  case True
  with assms obtain s s' where "p_value p = VString s" "f (p_value p) = VString s'"
    unfolding shape_preserving_def by blast
  then show ?thesis by (simp add: like_toks_def like_value_def same_result_def)
next
  case False
  with assms have "\<nexists>s. f (p_value p) = VString s" unfolding shape_preserving_def by blast
  with False show ?thesis
    using like_value_not_string [of p t] like_value_not_string [of "revalue f p" t]
    by (cases "p_literal p") (auto simp: like_toks_def like_value_def [of t "p"] like_value_def [of t "revalue f p"] same_result_def)
qed

lemma between_same:
  assumes "shape_preserving f"
  shows "same_result
    (case toSlice v of Some [x, y] \<Rightarrow> Ok [Lit a, Hole x, Lit c, Hole y] | _ \<Rightarrow> Err e)
    (case toSlice (f v) of Some [x, y] \<Rightarrow> Ok [Lit a, Hole x, Lit c, Hole y] | _ \<Rightarrow> Err e)"
proof (rule shape_toSlice [OF assms, of v], goal_cases)
  case 1
  then show ?case by simp
next
  case (2 vs vs')
  then show ?case
    by (auto simp: same_result_def length_Suc_conv split: list.split)
qed

lemma overlap_same:
  assumes "shape_preserving f"
  shows "same_result (overlap_toks t p) (overlap_toks t (revalue f p))"
  using assms by (auto simp: overlap_toks_def same_result_def shape_preserving_def split: option.split)

lemma same_result_if:
  "same_result r1 r1' \<Longrightarrow> same_result r2 r2' \<Longrightarrow> same_result (if c then r1 else r2) (if c then r1' else r2')"
  by simp

lemma same_result_ok: "same_text ts ts' \<Longrightarrow> same_result (Ok ts) (Ok ts')"
  by (simp add: same_result_def)

lemma clause_same_from:
  assumes "\<And>p. p \<in> set ps \<Longrightarrow> same_result (pred_toks env t tables p) (pred_toks env t tables (revalue f p))"
  shows "same_result (clause_toks_from env t tables prev ps)
     (clause_toks_from env t tables (map_option (revalue f) prev) (map (revalue f) ps))"
  using assms
proof (induction ps arbitrary: prev)
  case (Cons p ps)
  have here: "same_result (if isLogical p then Ok [Lit (p_logical p)] else pred_toks env t tables p)
      (if isLogical p then Ok [Lit (p_logical p)] else pred_toks env t tables (revalue f p))"
    using Cons.prems by simp
  have rest: "same_result (clause_toks_from env t tables (Some p) ps)
      (clause_toks_from env t tables (Some (revalue f p)) (map (revalue f) ps))"
    using Cons.IH [of "Some p"] Cons.prems by simp
  show ?case
    using here rest
    by (cases "isLogical p"; cases "pred_toks env t tables p"; cases "pred_toks env t tables (revalue f p)";
        cases "clause_toks_from env t tables (Some p) ps";
        cases "clause_toks_from env t tables (Some (revalue f p)) (map (revalue f) ps)";
        cases prev)
      (auto simp: same_result_def same_text_append)
qed simp

lemma pred_toks_eq:
  "pred_toks env t tables p =
     (case p_err p of
        Some e \<Rightarrow> Err e
      | None \<Rightarrow>
          if p_operator p = op_Group then
            (case clause_toks_from env t tables None (p_children p) of
               Inl e \<Rightarrow> Err e
             | Inr ts \<Rightarrow> Ok (Lit ''('' # ts @ [Lit '')'']))
          else if p_operator p = op_Search then
            (case p_search p of None \<Rightarrow> Ok [] | Some s \<Rightarrow> text_toks env t tables textMatch [] s)
          else if \<not> p_raw p \<and> \<not> IsIdentifier (p_field p) then Err (InvalidField (p_field p))
          else if p_operator p \<in> {op_IsNull, op_IsNotNull, op_IsTrue, op_IsFalse}
          then Ok [Lit (p_field p @ '' '' @ p_operator p)]
          else if p_operator p = op_Overlaps then overlap_toks t p
          else if p_operator p \<in> {op_In, op_NotIn} then Ok (member_toks t p)
          else if p_operator p = op_Between then
            (case toSlice (p_value p) of
               Some [x, y] \<Rightarrow> Ok [Lit (p_field p @ '' BETWEEN ''), Hole x, Lit '' AND '', Hole y]
             | _ \<Rightarrow> Err (BetweenArity (p_field p)))
          else if p_operator p = op_Contains then like_toks t (t_like t) p
          else if p_operator p = op_NotContains then like_toks t (t_notlike t) p
          else if p_operator p = op_Like then like_toks t '' LIKE '' p
          else if p_operator p = op_NotLike then like_toks t '' NOT LIKE '' p
          else Ok [Lit (p_field p @ '' '' @ p_operator p @ '' ''), Hole (p_value p)])"
  by (cases p) (simp only: pred_toks.simps Let_def predicate.sel)

lemma revalue_sel2:
  "p_err (revalue f p) = p_err p" "p_raw (revalue f p) = p_raw p" "p_search (revalue f p) = p_search p"
  "p_children (revalue f p) = map (revalue f) (p_children p)"
  by (cases p; simp)+

lemma pred_same:
  assumes f: "shape_preserving f"
  shows "same_result (pred_toks env t tables p) (pred_toks env t tables (revalue f p))"
proof (induction p)
  case (Predicate field operator v logical children raw literal srch err)
  let ?p = "Predicate field operator v logical children raw literal srch err"
  have children: "same_result (clause_toks_from env t tables None (p_children ?p))
      (clause_toks_from env t tables None (map (revalue f) (p_children ?p)))"
    using clause_same_from [of children env t tables f None] Predicate.IH by simp
  have group: "same_result
      (case clause_toks_from env t tables None (p_children ?p) of
         Inl e \<Rightarrow> Err e | Inr ts \<Rightarrow> Ok (Lit ''('' # ts @ [Lit '')'']))
      (case clause_toks_from env t tables None (map (revalue f) (p_children ?p)) of
         Inl e \<Rightarrow> Err e | Inr ts \<Rightarrow> Ok (Lit ''('' # ts @ [Lit '')'']))"
    using children by (auto simp: same_result_def same_text_append split: sum.splits)
  show ?case
    unfolding pred_toks_eq [of env t tables ?p] pred_toks_eq [of env t tables "revalue f ?p"]
      revalue_sel revalue_sel2
  proof (cases "p_err ?p", goal_cases)
    case 1
    show ?case
      unfolding 1 option.case
      by (intro same_result_if same_result_refl group overlap_same [OF f] same_result_ok member_same [OF f]
          between_same [OF f] like_same [OF f]) simp
  next
    case (2 e)
    then show ?case by simp
  qed
qed

lemma clause_same:
  assumes "shape_preserving f"
  shows "same_result (clause_toks env t tables ps) (clause_toks env t tables (map (revalue f) ps))"
  using clause_same_from [of ps env t tables f None] pred_same [OF assms] by (simp add: clause_toks_def)

lemma same_text_holes: "same_text ts ts' \<Longrightarrow> length (holes ts) = length (holes ts')"
  by (induction ts ts' rule: same_text.induct) auto

section \<open>Searched indexes\<close>

primrec pred_searches :: "predicate \<Rightarrow> search list" where
  "pred_searches (Predicate field operator v logical children raw literal srch err) =
     (case srch of None \<Rightarrow> [] | Some s \<Rightarrow> [s]) @ concat (map pred_searches children)"

definition query_searches :: "query \<Rightarrow> search list" where
  "query_searches q =
     map r_search (q_relevance q) @ concat (map pred_searches (q_where q)) @
     concat (map pred_searches (q_having q)) @ List.map_filter o_search (q_order q)"

definition searched_indexes :: "search list \<Rightarrow> fts_index list" where
  "searched_indexes ss = List.map_filter se_index ss"

lemma append_search_fold:
  "append_search out s = foldl appendIndex out (map se_index (case s of None \<Rightarrow> [] | Some s \<Rightarrow> [s]))"
  by (simp add: append_search_def split: option.split)

lemma appendTextIndexes_fold_from:
  assumes "\<And>p out. p \<in> set ps \<Longrightarrow> append_predicate out p = foldl appendIndex out (map se_index (pred_searches p))"
  shows "appendTextIndexes out ps = foldl appendIndex out (map se_index (concat (map pred_searches ps)))"
  using assms by (induction ps arbitrary: out) auto

lemma append_predicate_fold: "append_predicate out p = foldl appendIndex out (map se_index (pred_searches p))"
proof (induction p arbitrary: out)
  case (Predicate field operator v logical children raw literal srch err)
  then show ?case
    using appendTextIndexes_fold_from [of children] by (simp add: append_search_fold split: option.split)
qed

lemma appendTextIndexes_fold:
  "appendTextIndexes out ps = foldl appendIndex out (map se_index (concat (map pred_searches ps)))"
  by (rule appendTextIndexes_fold_from) (rule append_predicate_fold)

lemma orders_fold:
  "foldl (\<lambda>out o'. append_search out (o_search o')) out os =
     foldl appendIndex out (map se_index (List.map_filter o_search os))"
  by (induction os arbitrary: out) (auto simp: append_search_def List.map_filter_def split: option.split)

lemma relevance_fold:
  "foldl (\<lambda>out r. appendIndex out (se_index (r_search r))) out rs =
     foldl appendIndex out (map se_index (map r_search rs))"
  by (induction rs arbitrary: out) auto

lemma query_TextIndexes_fold:
  "query_TextIndexes q = foldl appendIndex [] (map se_index (query_searches q))"
  by (simp add: query_TextIndexes_def query_searches_def Let_def appendTextIndexes_fold orders_fold
      relevance_fold)

lemma foldl_appendIndex:
  assumes "distinct (map ix_addr out)"
  shows "distinct (map ix_addr (foldl appendIndex out is))"
    "ix_addr ` set (foldl appendIndex out is) = ix_addr ` (set out \<union> {i. Some i \<in> set is})"
    "set (foldl appendIndex out is) \<subseteq> set out \<union> {i. Some i \<in> set is}"
  using assms
proof (induction "is" arbitrary: out)
  case (Cons i "is")
  have step: "distinct (map ix_addr (appendIndex out i))"
    "ix_addr ` set (appendIndex out i) = ix_addr ` (set out \<union> {j. Some j = i})"
    "set (appendIndex out i) \<subseteq> set out \<union> {j. Some j = i}" if "distinct (map ix_addr out)" for out
    using that by (auto simp: appendIndex_def list_ex_iff image_iff split: option.splits) metis
  {
    case 1
    then show ?case using Cons.IH(1) step(1) by simp
  next
    case 2
    then show ?case using Cons.IH(2) [OF step(1)] step(2) by (auto simp: image_Un)
  next
    case 3
    then show ?case using Cons.IH(3) [OF step(1)] step(3) by fastforce
  }
qed auto

section \<open>Properties\<close>

text \<open>C1. The builder refines its specification for every dialect: Build, BuildBase and
  BuildClauseAfter return the specified text with placeholders numbered in order after the given
  parameters, the parameters followed by the bound values, or the first error.\<close>

theorem criteria_build_refines:
  assumes "d \<in> set (dialects env)"
  shows "Build env q d =
      rendered d [] (seq_toks (body_toks env (templates_of env d) q) (tail_toks env (templates_of env d) q)) \<and>
    BuildBase env q d = rendered d [] (body_toks env (templates_of env d) q) \<and>
    BuildClauseAfter env args ps d = rendered d args (clause_toks env (templates_of env d) None ps)"
  using assms by (simp add: build_spec base_spec clause_spec)

definition sample_clause :: "predicate list" where
  "sample_clause =
     [Eq ''company_id'' (VInt 7),
      Group [Substring (Contains ''p.title'' ''50%''), Or, In ''p.sku'' (VSlice KInterface [VInt 1, VInt 2])]]"

lemma sample_identifiers: "IsIdentifier ''company_id''" "IsIdentifier ''p.title''" "IsIdentifier ''p.sku''"
  by (simp_all add: IsIdentifier_def is_segment_def is_letter_char_def is_digit_char_def ident_char_def Let_def)

theorem criteria_build_refines_witness:
  "BuildClauseAfter ascii_env [VInt 3] sample_clause SQLServerDialect =
     Ok (''company_id = @p2 AND (p.title LIKE @p3 ESCAPE '' @ [CHR 0x27] @ ''!'' @ [CHR 0x27] @
           '' OR p.sku IN (@p4, @p5))'',
         [VInt 3, VInt 7, VString ''%50!%%'', VInt 1, VInt 2])"
proof -
  have d: "SQLServerDialect \<in> set (dialects ascii_env)" by (simp add: dialects_def)
  have "templates_of ascii_env SQLServerDialect = plain_templates SQLServerDialect"
    by (simp add: templates_of_def dialects_distinct)
  moreover have "EscapeLike SQLServerDialect ''50%'' = ''50!%''"
    using EscapeLike_ascii [of "''50%''" "''[''" SQLServerDialect]
    by simp
  ultimately show ?thesis
    using criteria_build_refines [OF d, of "From ''t'' []" "[VInt 3]" sample_clause]
    by (simp add: clause_toks_def sample_clause_def Eq_def Group_def Substring_def Contains_def Or_def In_def
        cond_def op_defs isLogical_def sample_identifiers rendered_def like_toks_def like_value_def
        plain_templates_def member_toks_def toSlice_def list_toks_def LikeEscapeClause_def
        sqlserver_Param_def itoa_nat_eval digit_char_eval digit_char_eval_Suc)
qed

text \<open>C29. A built query holds no unchecked name: when Build succeeds, every predicate and order field
  that is not marked Raw, and every alias of a selected relevance, is a column reference.\<close>

theorem criteria_fields_are_identifiers:
  assumes "d \<in> set (dialects env)" "Build env q d = Ok (sql, ps)"
  shows "safe_query q"
  using assms query_safe by (auto simp: build_spec rendered_Ok)

definition sample_query :: query where
  "sample_query = Limit 15 (OrderBy [Desc ''u.id''] (Where [Gt ''u.age'' (VInt 18)] (From ''users'' ''u'')))"

lemma sample_query_build:
  "Build ascii_env sample_query PostgresDialect =
     Ok (''SELECT * FROM users u WHERE u.age > $1 ORDER BY u.id DESC LIMIT 15'', [VInt 18])"
proof -
  have ids: "IsIdentifier ''u.id''" "IsIdentifier ''u.age''"
    by (simp_all add: IsIdentifier_def is_segment_def is_letter_char_def is_digit_char_def ident_char_def Let_def)
  have dir: "SortDirection ''DESC'' = ''DESC''" by (rule SortDirection_fixed) (simp add: sort_directions_def)
  have lim: "itoa_nat 15 = ''15''" by (simp add: itoa_nat.simps digit_char_eval)
  show ?thesis
    by (simp add: pg_sql.Build_spec sample_query_def body_toks_def tail_toks_def seq_toks_def From_def Where_def
        OrderBy_def Limit_def Gt_def cond_def Desc_def select_sql_def from_sql_def section_toks_def
        clause_toks_def isLogical_def op_defs ids dir limit_sql_def itoa_def lim rendered_def postgres_Param_def
        itoa_nat_eval digit_char_eval)
qed

theorem criteria_fields_are_identifiers_witness:
  "Build ascii_env sample_query PostgresDialect =
     Ok (''SELECT * FROM users u WHERE u.age > $1 ORDER BY u.id DESC LIMIT 15'', [VInt 18]) \<and>
   safe_query sample_query"
proof -
  have "PostgresDialect \<in> set (dialects ascii_env)" by (simp add: dialects_def)
  from criteria_fields_are_identifiers [OF this sample_query_build] sample_query_build show ?thesis by simp
qed

text \<open>C30. Bound values never reach the SQL text: replacing the values of a clause by others of the
  same shape, and the earlier parameters by as many others, gives the same text and as many
  parameters.\<close>

theorem criteria_values_not_in_text:
  assumes "d \<in> set (dialects env)" "shape_preserving f" "length args' = length args"
    and "BuildClauseAfter env args ps d = Ok (sql, params)"
  shows "\<exists>params'. BuildClauseAfter env args' (map (revalue f) ps) d = Ok (sql, params') \<and>
    length params' = length params"
proof -
  let ?t = "templates_of env d"
  from assms obtain ts where ts: "clause_toks env ?t None ps = Ok ts"
    "sql = render (Param d) (length args) ts" "params = args @ holes ts"
    by (auto simp: clause_spec rendered_Ok)
  with clause_same [OF assms(2), of env ?t None ps] obtain ts'
    where "clause_toks env ?t None (map (revalue f) ps) = Ok ts'" "same_text ts ts'"
    by (auto simp: same_result_def split: sum.splits)
  with ts assms show ?thesis
    using same_text_render [of ts ts'] same_text_holes [of ts ts'] by (auto simp: clause_spec rendered_Ok)
qed

text \<open>A replacement of every string by a hostile one.\<close>

definition inject :: "goval \<Rightarrow> goval" where
  "inject v = (case v of VString s \<Rightarrow> VString (if s = [] then [] else CHR 0x27 # '' OR 1 = 1 --'') | _ \<Rightarrow> v)"

theorem criteria_values_not_in_text_witness:
  "\<exists>params'. BuildClauseAfter ascii_env [] (map (revalue inject) [Eq ''u.name'' (VString ''ana'')]) PostgresDialect =
     Ok (''u.name = $1'', params') \<and> length params' = 1"
proof -
  have d: "PostgresDialect \<in> set (dialects ascii_env)" by (simp add: dialects_def)
  have f: "shape_preserving inject"
    by (auto simp: shape_preserving_def inject_def toSlice_def isTypedSlice_def slice_len_def split: goval.split)
  have "IsIdentifier ''u.name''"
    by (simp add: IsIdentifier_def is_segment_def is_letter_char_def is_digit_char_def ident_char_def Let_def)
  then have "BuildClauseAfter ascii_env [] [Eq ''u.name'' (VString ''ana'')] PostgresDialect =
      Ok (''u.name = $1'', [VString ''ana''])"
    by (simp add: pg_sql.BuildClauseAfter_spec rendered_def clause_toks_def Eq_def cond_def op_defs isLogical_def
        postgres_Param_def itoa_nat_eval digit_char_eval)
  from criteria_values_not_in_text [OF d f _ this, of "[]"] show ?thesis by simp
qed

text \<open>The base query of a paged query is the beginning of the full query: BuildBase succeeds
  whenever Build does, with a prefix of its text and of its parameters.\<close>

theorem criteria_base_is_prefix:
  assumes "d \<in> set (dialects env)" "Build env q d = Ok (sql, ps)"
  shows "\<exists>base bps. BuildBase env q d = Ok (base, bps) \<and> prefix base sql \<and> prefix bps ps"
  using assms by (auto simp: build_spec base_spec rendered_Ok seq_toks_Ok)

theorem criteria_base_is_prefix_witness:
  "\<exists>base bps. BuildBase ascii_env sample_query PostgresDialect = Ok (base, bps) \<and>
     prefix base ''SELECT * FROM users u WHERE u.age > $1 ORDER BY u.id DESC LIMIT 15'' \<and> prefix bps [VInt 18]"
proof -
  have "PostgresDialect \<in> set (dialects ascii_env)" by (simp add: dialects_def)
  from criteria_base_is_prefix [OF this sample_query_build] show ?thesis .
qed

text \<open>TextIndexes lists what a query searches, so checking the listed indexes checks them all: an
  index is searched by a predicate, an order or a selected relevance exactly when an index of the
  same identity is listed, and none is listed twice.\<close>

theorem criteria_text_indexes_complete:
  "ix_addr ` set (query_TextIndexes q) = ix_addr ` set (searched_indexes (query_searches q)) \<and>
   distinct (map ix_addr (query_TextIndexes q))"
proof -
  have "{i. Some i \<in> set (map se_index ss)} = set (searched_indexes ss)" for ss
    by (induction ss) (auto simp: searched_indexes_def List.map_filter_def split: option.splits)
  then show ?thesis
    unfolding query_TextIndexes_fold
    using foldl_appendIndex(1,2) [of "[]" "map se_index (query_searches q)"] by simp
qed



end
