(* ===== verification/Dynamic_Filter.thy ===== *)
theory Dynamic_Filter
  imports Criteria_Props
begin

text \<open>
  Package \<^verbatim>\<open>sqln/filter\<close>: dynamic filters from requests (\<^verbatim>\<open>dynamic_filter.go\<close>), the
  allowlist that resolves them (\<^verbatim>\<open>mapping.go\<close>) and their bounds (\<^verbatim>\<open>limits.go\<close>). The parts of
  the Go library that format or read values (\<^verbatim>\<open>fmt.Sprintf("%v")\<close>, RFC 3339 times and the
  widening of a float32) are fields of \<open>value_env\<close>; no property depends on them.
\<close>

section \<open>Data\<close>

record value_env =
  sprint_v :: "goval \<Rightarrow> string"
  parse_rfc3339 :: "string \<Rightarrow> int option"
  widen_float :: "32 word \<Rightarrow> 64 word"

record cond_filter =
  f_Field :: string
  f_Condition :: string
  f_Value :: goval
  f_LogicalOperator :: string

definition NewFilter :: "string \<Rightarrow> string \<Rightarrow> goval \<Rightarrow> cond_filter" where
  "NewFilter field condition v =
     \<lparr>f_Field = field, f_Condition = condition, f_Value = v, f_LogicalOperator = []\<rparr>"

definition filter_AND :: cond_filter where
  "filter_AND = \<lparr>f_Field = [], f_Condition = [], f_Value = VNil, f_LogicalOperator = op_And\<rparr>"

definition filter_OR :: cond_filter where
  "filter_OR = \<lparr>f_Field = [], f_Condition = [], f_Value = VNil, f_LogicalOperator = op_Or\<rparr>"

record filter_params =
  fp_Page :: "16 word"
  fp_Limit :: "16 word"
  fp_SortField :: string
  fp_SortDirection :: string

text \<open>A list of filter pointers, None for a nil one.\<close>

record filters =
  fs_Params :: filter_params
  fs_Filters :: "cond_filter option list"

definition NewFilters :: filters where
  "NewFilters =
     \<lparr>fs_Params = \<lparr>fp_Page = 0, fp_Limit = 15, fp_SortField = [], fp_SortDirection = ''ASC''\<rparr>,
      fs_Filters = []\<rparr>"

definition filters_Add :: "cond_filter option list \<Rightarrow> filters \<Rightarrow> filters" where
  "filters_Add fs f = f\<lparr>fs_Filters := fs_Filters f @ fs\<rparr>"

record map_field =
  mf_Column :: string
  mf_Ops :: "string list"
  mf_Sortable :: bool
  mf_Search :: "fts_index option"
  mf_SearchMode :: search_mode
  mf_SearchOn :: string

type_synonym mapping = "string \<Rightarrow> map_field option"

record query_param =
  qp_Query :: string
  qp_Params :: "goval list"
  qp_Indexes :: "fts_index list"

datatype filter_error =
    TooManyConditions nat int
  | LeadingLogicalOp
  | TrailingLogicalOp
  | ConsecutiveLogicalOp
  | NilFilter nat
  | InvalidLogicalOp nat string
  | NotInMapping nat string
  | ConditionNotAllowed nat string string
  | NoTextIndex nat string
  | SearchNeedsString nat string
  | InvalidColumn nat string string
  | InvalidConditionOrValue nat string string
  | TooManyValues nat string nat
  | LikeTooLong nat string
  | ClauseError criteria_error
  | InvalidSortField string
  | InvalidSortColumn string string

section \<open>Predicate conversion (dynamic_filter.go)\<close>

definition scalarConditionPredicate :: "string \<Rightarrow> string \<Rightarrow> goval \<Rightarrow> predicate option" where
  "scalarConditionPredicate field condition v =
     (if condition = op_Eq then Some (Eq field v)
      else if condition = op_NotEqual then Some (Ne field v)
      else if condition = op_Less then Some (Lt field v)
      else if condition = op_LessOrEqual then Some (Lte field v)
      else if condition = op_Greater then Some (Gt field v)
      else if condition = op_GreaterOrEqual then Some (Gte field v)
      else None)"

definition parseBetweenDates :: "value_env \<Rightarrow> string \<Rightarrow> (int \<times> int) option" where
  "parseBetweenDates venv s =
     (case split_on (CHR ''|'') s of
        [a, b] \<Rightarrow>
          (case (parse_rfc3339 venv a, parse_rfc3339 venv b) of
             (Some x, Some y) \<Rightarrow> Some (x, y)
           | _ \<Rightarrow> None)
      | _ \<Rightarrow> None)"

text \<open>A pair of times is the slice \<^verbatim>\<open>[]time.Time{start, end}\<close>.\<close>

definition resolveValueType :: "value_env \<Rightarrow> goval \<Rightarrow> goval" where
  "resolveValueType venv v =
     (case v of
        VString s \<Rightarrow>
          if CHR ''|'' \<in> set s then
            (case parseBetweenDates venv s of
               Some (x, y) \<Rightarrow> VSlice KTime [VTime x, VTime y]
             | None \<Rightarrow> VStringValue s)
          else VStringValue s
      | VInt i \<Rightarrow> VIntValue i
      | VInt32 i \<Rightarrow> VIntValue i
      | VInt64 i \<Rightarrow> VIntValue i
      | VFloat32 w \<Rightarrow> VFloatValue (widen_float venv w)
      | VFloat64 w \<Rightarrow> VFloatValue w
      | _ \<Rightarrow> VStringValue (sprint_v venv v))"

definition buildScalarPredicate :: "value_env \<Rightarrow> cond_filter \<Rightarrow> predicate option" where
  "buildScalarPredicate venv f =
     (case resolveValueType venv (f_Value f) of
        VStringValue s \<Rightarrow>
          if f_Condition f = op_Contains then Some (Substring (Contains (f_Field f) s))
          else if f_Condition f = op_NotContains then Some (Substring (NotContains (f_Field f) s))
          else if f_Condition f = op_Like then Some (Substring (Like (f_Field f) s))
          else if f_Condition f = op_NotLike then Some (Substring (NotLike (f_Field f) s))
          else scalarConditionPredicate (f_Field f) (f_Condition f) (VStringValue s)
      | VFloatValue w \<Rightarrow> scalarConditionPredicate (f_Field f) (f_Condition f) (VFloatValue w)
      | VIntValue i \<Rightarrow> scalarConditionPredicate (f_Field f) (f_Condition f) (VIntValue i)
      | VSlice k [x, y] \<Rightarrow>
          if f_Condition f = op_Between then Some (Between (f_Field f) x y) else None
      | _ \<Rightarrow> None)"

definition toAnySlice :: "goval \<Rightarrow> goval list option" where
  "toAnySlice v = (case v of VSlice _ vs \<Rightarrow> Some vs | VArray vs \<Rightarrow> Some vs | _ \<Rightarrow> None)"

definition is_time :: "goval \<Rightarrow> bool" where
  "is_time v = (case v of VTime _ \<Rightarrow> True | _ \<Rightarrow> False)"

definition toTimeSlice :: "goval list \<Rightarrow> goval list option" where
  "toTimeSlice vs = (if list_all is_time vs then Some vs else None)"

definition buildBetweenPredicate :: "cond_filter \<Rightarrow> goval list \<Rightarrow> predicate option" where
  "buildBetweenPredicate f vs =
     (case toTimeSlice vs of Some [x, y] \<Rightarrow> Some (Between (f_Field f) x y) | _ \<Rightarrow> None)"

fun or_parts :: "cond_filter \<Rightarrow> bool \<Rightarrow> goval list \<Rightarrow> predicate list option" where
  "or_parts f first [] = Some []"
| "or_parts f first (v # vs) =
     (case scalarConditionPredicate (f_Field f) (f_Condition f) v of
        None \<Rightarrow> None
      | Some p \<Rightarrow> map_option (\<lambda>ps. (if first then [] else [Or]) @ p # ps) (or_parts f False vs))"

definition buildOrExpansion :: "cond_filter \<Rightarrow> goval list \<Rightarrow> predicate option" where
  "buildOrExpansion f vs = map_option Group (or_parts f True vs)"

definition buildSingleElementPredicate :: "value_env \<Rightarrow> cond_filter \<Rightarrow> goval \<Rightarrow> predicate option" where
  "buildSingleElementPredicate venv f v =
     (let cond = (if f_Condition f = op_In then op_Eq
                  else if f_Condition f = op_NotIn then op_NotEqual else f_Condition f) in
      buildScalarPredicate venv (NewFilter (f_Field f) cond v))"

definition buildSlicePredicate :: "value_env \<Rightarrow> cond_filter \<Rightarrow> predicate option" where
  "buildSlicePredicate venv f =
     (case toAnySlice (f_Value f) of
        None \<Rightarrow> None
      | Some [] \<Rightarrow> None
      | Some [v] \<Rightarrow> buildSingleElementPredicate venv f v
      | Some vs \<Rightarrow>
          if f_Condition f = op_Between then buildBetweenPredicate f vs
          else if f_Condition f = op_In \<or> f_Condition f = op_Eq then Some (In (f_Field f) (VSlice KInterface vs))
          else if f_Condition f = op_NotIn \<or> f_Condition f = op_NotEqual
          then Some (NotIn (f_Field f) (VSlice KInterface vs))
          else buildOrExpansion f vs)"

definition filterToPredicate :: "value_env \<Rightarrow> cond_filter \<Rightarrow> predicate option" where
  "filterToPredicate venv f =
     (if f_LogicalOperator f \<noteq> [] then
        (if f_LogicalOperator f = op_And then Some And
         else if f_LogicalOperator f = op_Or then Some Or else None)
      else if \<not> IsIdentifier (f_Field f) then None
      else if f_Condition f = op_IsNull then Some (IsNull (f_Field f))
      else if f_Condition f = op_IsNotNull then Some (IsNotNull (f_Field f))
      else if f_Value f = VNil then Some (IsNull (f_Field f))
      else if f_Condition f \<notin> set AllowedOperators then None
      else if toAnySlice (f_Value f) \<noteq> None then buildSlicePredicate venv f
      else buildScalarPredicate venv f)"

subsection \<open>Blocked terms\<close>

definition notAllowedTerms :: "string list" where
  "notAllowedTerms =
     [''DROP'', ''DELETE'', ''UPDATE'', ''INSERT'', ''ALTER'', ''TRUNCATE'', ''EXEC'', ''EXECUTE'', ''MERGE'',
      ''UNION'', ''GRANT'', ''REVOKE'', ''DECLARE'', ''SLEEP'', ''BENCHMARK'']"

text \<open>Case folding of the regular expression: \<open>s\<close> also matches U+017F and \<open>k\<close> U+212A.\<close>

definition fold_upper :: "rune \<Rightarrow> rune" where
  "fold_upper r = (if r = 8490 then 75 else upper_rune r)"

definition re_word :: "rune \<Rightarrow> bool" where
  "re_word r \<longleftrightarrow> (48 \<le> r \<and> r \<le> 57) \<or> (65 \<le> r \<and> r \<le> 90) \<or> (97 \<le> r \<and> r \<le> 122) \<or> r = 95"

definition word_at :: "rune list \<Rightarrow> nat \<Rightarrow> bool" where
  "word_at rs i \<longleftrightarrow> i < length rs \<and> re_word (rs ! i)"

definition boundary :: "rune list \<Rightarrow> nat \<Rightarrow> bool" where
  "boundary rs i \<longleftrightarrow> (0 < i \<and> word_at rs (i - 1)) \<noteq> word_at rs i"

definition matches_term :: "rune list \<Rightarrow> string \<Rightarrow> bool" where
  "matches_term rs w \<longleftrightarrow>
     list_ex (\<lambda>i. map fold_upper (take (length w) (drop i rs)) = map of_char w \<and>
                  boundary rs i \<and> boundary rs (i + length w)) [0..<Suc (length rs)]"

definition ContainsNotAllowedValue :: "string \<Rightarrow> bool" where
  "ContainsNotAllowedValue input \<longleftrightarrow> list_ex (matches_term (runes input)) notAllowedTerms"

section \<open>Bounds (limits.go)\<close>

record limits =
  maxFilters :: int
  maxInValues :: int
  maxLikeLength :: int

type_synonym limit_option = "limits \<Rightarrow> limits"

definition WithMaxFilters :: "int \<Rightarrow> limit_option" where
  "WithMaxFilters n l = l\<lparr>maxFilters := n\<rparr>"

definition WithMaxInValues :: "int \<Rightarrow> limit_option" where
  "WithMaxInValues n l = l\<lparr>maxInValues := n\<rparr>"

definition WithMaxLikeLength :: "int \<Rightarrow> limit_option" where
  "WithMaxLikeLength n l = l\<lparr>maxLikeLength := n\<rparr>"

definition newLimits :: "limit_option list \<Rightarrow> limits" where
  "newLimits opts =
     (let l = foldl (\<lambda>l opt. opt l) \<lparr>maxFilters = 0, maxInValues = 0, maxLikeLength = 0\<rparr> opts in
      \<lparr>maxFilters = (if maxFilters l \<le> 0 then 50 else maxFilters l),
       maxInValues = (if maxInValues l \<le> 0 then 1000 else maxInValues l),
       maxLikeLength = (if maxLikeLength l \<le> 0 then 256 else maxLikeLength l)\<rparr>)"

definition likeConditions :: "string list" where
  "likeConditions = [op_Contains, op_NotContains, op_Like, op_NotLike, op_Search]"

definition is_condition :: "cond_filter option \<Rightarrow> bool" where
  "is_condition f = (case f of None \<Rightarrow> False | Some f \<Rightarrow> f_LogicalOperator f = [])"

definition countConditions :: "cond_filter option list \<Rightarrow> nat" where
  "countConditions fs = length (filter is_condition fs)"

definition like_too_long :: "limits \<Rightarrow> goval \<Rightarrow> bool" where
  "like_too_long l v = (case v of VString s \<Rightarrow> maxLikeLength l < int (rune_count s) | _ \<Rightarrow> False)"

definition limits_check :: "limits \<Rightarrow> nat \<Rightarrow> cond_filter \<Rightarrow> filter_error option" where
  "limits_check l i f =
     (let vs = (case toAnySlice (f_Value f) of None \<Rightarrow> [f_Value f] | Some vs \<Rightarrow> vs) in
      if toAnySlice (f_Value f) \<noteq> None \<and> maxInValues l < int (length vs)
      then Some (TooManyValues i (f_Field f) (length vs))
      else if f_Condition f \<notin> set likeConditions then None
      else if list_ex (like_too_long l) vs then Some (LikeTooLong i (f_Field f))
      else None)"

section \<open>Mapping (mapping.go)\<close>

definition Equality :: "string list" where
  "Equality = [op_Eq, op_NotEqual, op_In, op_NotIn, op_IsNull, op_IsNotNull]"

definition Range_ops :: "string list" where
  "Range_ops =
     [op_Eq, op_NotEqual, op_Less, op_LessOrEqual, op_Greater, op_GreaterOrEqual, op_Between, op_IsNull, op_IsNotNull]"

definition Text_ops :: "string list" where
  "Text_ops =
     [op_Eq, op_NotEqual, op_In, op_NotIn, op_Contains, op_NotContains, op_Like, op_NotLike, op_IsNull, op_IsNotNull]"

definition Allow :: "string list \<Rightarrow> mapping" where
  "Allow columns =
     foldl (\<lambda>m c. m(c \<mapsto> \<lparr>mf_Column = c, mf_Ops = [], mf_Sortable = True, mf_Search = None,
                         mf_SearchMode = Websearch, mf_SearchOn = []\<rparr>)) Map.empty columns"

definition searchPredicate :: "nat \<Rightarrow> map_field \<Rightarrow> cond_filter \<Rightarrow> (filter_error, predicate) result" where
  "searchPredicate i field f =
     (case mf_Search field of
        None \<Rightarrow> Err (NoTextIndex i (f_Field f))
      | Some ix \<Rightarrow>
          (case f_Value f of
             VString s \<Rightarrow> Ok (Match (search_On (search_Mode (Search ix s) (mf_SearchMode field)) (mf_SearchOn field)))
           | _ \<Rightarrow> Err (SearchNeedsString i (f_Field f))))"

definition effective_condition :: "cond_filter \<Rightarrow> string" where
  "effective_condition f = (if f_Value f = VNil \<and> f_Condition f = [] then op_IsNull else f_Condition f)"

definition mapping_predicate ::
  "value_env \<Rightarrow> mapping \<Rightarrow> nat \<Rightarrow> cond_filter option \<Rightarrow> (filter_error, predicate) result" where
  "mapping_predicate venv m i fo =
     (case fo of
        None \<Rightarrow> Err (NilFilter i)
      | Some f \<Rightarrow>
          if f_LogicalOperator f \<noteq> [] then
            (case filterToPredicate venv f of
               None \<Rightarrow> Err (InvalidLogicalOp i (f_LogicalOperator f))
             | Some p \<Rightarrow> Ok p)
          else
            (case m (f_Field f) of
               None \<Rightarrow> Err (NotInMapping i (f_Field f))
             | Some field \<Rightarrow>
                 (let cond = effective_condition f in
                  if mf_Ops field \<noteq> [] \<and> cond \<notin> set (mf_Ops field)
                  then Err (ConditionNotAllowed i cond (f_Field f))
                  else if cond = op_Search then searchPredicate i field f
                  else if \<not> IsIdentifier (mf_Column field)
                  then Err (InvalidColumn i (f_Field f) (mf_Column field))
                  else
                    (case filterToPredicate venv (f\<lparr>f_Field := mf_Column field\<rparr>) of
                       None \<Rightarrow> Err (InvalidConditionOrValue i (f_Field f) (f_Condition f))
                     | Some p \<Rightarrow> Ok p))))"

definition checkedPredicate ::
  "value_env \<Rightarrow> limits \<Rightarrow> mapping \<Rightarrow> nat \<Rightarrow> cond_filter option \<Rightarrow> (filter_error, predicate) result" where
  "checkedPredicate venv l m i fo =
     (case fo of
        Some f \<Rightarrow>
          if f_LogicalOperator f = [] then
            (case limits_check l i f of Some e \<Rightarrow> Err e | None \<Rightarrow> mapping_predicate venv m i fo)
          else mapping_predicate venv m i fo
      | None \<Rightarrow> mapping_predicate venv m i fo)"

definition is_logical_filter :: "cond_filter option \<Rightarrow> bool" where
  "is_logical_filter f = (case f of None \<Rightarrow> False | Some f \<Rightarrow> f_LogicalOperator f \<noteq> [])"

fun consecutive_logical :: "cond_filter option list \<Rightarrow> bool" where
  "consecutive_logical (f # g # fs) =
     (is_logical_filter g \<and> is_logical_filter f \<or> consecutive_logical (g # fs))"
| "consecutive_logical _ = False"

definition validateLogicalPlacement :: "cond_filter option list \<Rightarrow> filter_error option" where
  "validateLogicalPlacement fs =
     (if fs = [] then None
      else if is_logical_filter (hd fs) then Some LeadingLogicalOp
      else if is_logical_filter (last fs) then Some TrailingLogicalOp
      else if consecutive_logical fs then Some ConsecutiveLogicalOp
      else None)"

text \<open>The loop over the filters: the predicates of the valid ones and the errors of the others.\<close>

fun resolve_filters ::
  "value_env \<Rightarrow> limits \<Rightarrow> mapping \<Rightarrow> nat \<Rightarrow> cond_filter option list \<Rightarrow> filter_error list \<times> predicate list" where
  "resolve_filters venv l m i [] = ([], [])"
| "resolve_filters venv l m i (f # fs) =
     (let (es, ps) = resolve_filters venv l m (Suc i) fs in
      case checkedPredicate venv l m i f of
        Inl e \<Rightarrow> (e # es, ps)
      | Inr p \<Rightarrow> (es, p # ps))"

definition filter_Build ::
  "text_env \<Rightarrow> value_env \<Rightarrow> string \<Rightarrow> goval list \<Rightarrow> filters option \<Rightarrow> mapping \<Rightarrow> 'a filter_dialect_scheme \<Rightarrow>
     limit_option list \<Rightarrow> (filter_error list, query_param) result" where
  "filter_Build env venv base args fs m d opts =
     (case fs of
        None \<Rightarrow> Ok \<lparr>qp_Query = base, qp_Params = args, qp_Indexes = []\<rparr>
      | Some filters \<Rightarrow>
         (if fs_Filters filters = [] then Ok \<lparr>qp_Query = base, qp_Params = args, qp_Indexes = []\<rparr>
          else
            (let lim = newLimits opts; n = countConditions (fs_Filters filters) in
             if maxFilters lim < int n then Err [TooManyConditions n (maxFilters lim)]
             else
               (let (es, ps) = resolve_filters venv lim m 0 (fs_Filters filters);
                    errs = (case validateLogicalPlacement (fs_Filters filters) of None \<Rightarrow> [] | Some e \<Rightarrow> [e]) @ es in
                if errs \<noteq> [] then Err errs
                else
                  (case BuildClauseAfter env args ps d of
                     Inl e \<Rightarrow> Err [ClauseError e]
                   | Inr (clause, params) \<Rightarrow>
                       Ok \<lparr>qp_Query = base @ '' AND ( '' @ clause @ '' )'', qp_Params = params,
                           qp_Indexes = TextIndexes ps\<rparr>)))))"

definition SortColumn :: "mapping \<Rightarrow> string \<Rightarrow> (filter_error, string) result" where
  "SortColumn m field =
     (if field = [] then Ok []
      else case m field of
        None \<Rightarrow> Err (InvalidSortField field)
      | Some f \<Rightarrow>
          if \<not> mf_Sortable f then Err (InvalidSortField field)
          else if \<not> IsIdentifier (mf_Column f) then Err (InvalidSortColumn field (mf_Column f))
          else Ok (mf_Column f))"

end
