(* ===== verification/Dynamic_Filter_Props.thy ===== *)
theory Dynamic_Filter_Props
  imports Dynamic_Filter
begin

text \<open>
  Properties of \<^verbatim>\<open>sqln/filter\<close>: a built filter only writes columns of the mapping, every
  condition it holds is admitted and within its bounds, and an admitted request without a search
  always builds.
\<close>

section \<open>Fields a predicate writes\<close>

primrec written_fields :: "predicate \<Rightarrow> string list" where
  "written_fields (Predicate field operator v logical children raw literal srch err) =
     (if logical \<noteq> [] then []
      else (if operator = op_Group \<or> operator = op_Search then [] else [field]) @
           concat (map written_fields children))"

fun has_raw :: "predicate \<Rightarrow> bool" where
  "has_raw (Predicate field operator v logical children raw literal srch err) =
     (raw \<or> list_ex has_raw children)"

text \<open>A condition on one column that compiles in every dialect and query.\<close>

definition column_pred :: "string \<Rightarrow> predicate \<Rightarrow> bool" where
  "column_pred c p \<longleftrightarrow>
     \<not> isLogical p \<and> \<not> has_raw p \<and> set (written_fields p) \<subseteq> {c} \<and>
     (\<forall>env t tables. \<exists>ts. pred_toks env t tables p = Ok ts)"

lemma pred_toks_cond:
  assumes "IsIdentifier field"
  shows "operator \<in> {op_Eq, op_NotEqual, op_Less, op_LessOrEqual, op_Greater, op_GreaterOrEqual, op_IsNull, op_IsNotNull, op_In, op_NotIn}
    \<Longrightarrow> \<exists>ts. pred_toks env t tables (cond field operator v) = Ok ts"
  using assms by (auto simp: cond_def op_defs)

lemma column_pred_cond:
  assumes "IsIdentifier field"
    and "operator \<in> {op_Eq, op_NotEqual, op_Less, op_LessOrEqual, op_Greater, op_GreaterOrEqual, op_IsNull, op_IsNotNull, op_In, op_NotIn}"
  shows "column_pred field (cond field operator v)"
  using pred_toks_cond [OF assms] by (auto simp: column_pred_def isLogical_def cond_def)

lemma column_pred_between:
  assumes "IsIdentifier field"
  shows "column_pred field (Between field x y)"
  using assms by (auto simp: column_pred_def Between_def cond_def isLogical_def toSlice_def op_defs)

lemma like_toks_string: "p_value p = VString s \<Longrightarrow> \<exists>ts. like_toks t word p = Ok ts"
  by (simp add: like_toks_def like_value_def)

lemma column_pred_substring:
  assumes "IsIdentifier field" "operator \<in> {op_Contains, op_NotContains, op_Like, op_NotLike}"
  shows "column_pred field (Substring (cond field operator (VString s)))"
proof -
  let ?p = "Predicate field operator (VString s) [] [] False True None None"
  have p: "Substring (cond field operator (VString s)) = ?p" by (simp add: Substring_def cond_def)
  have op: "operator \<noteq> op_Group" "operator \<noteq> op_Search" "operator \<noteq> op_Overlaps" "operator \<noteq> op_Between"
    "operator \<notin> {op_IsNull, op_IsNotNull, op_IsTrue, op_IsFalse}" "operator \<notin> {op_In, op_NotIn}"
    using assms(2) by (auto simp: op_defs)
  have like: "\<exists>ts. like_toks t word ?p = Ok ts" for t word by (rule like_toks_string) simp
  have "\<exists>ts. pred_toks env t tables ?p = Ok ts" for env t tables
  proof -
    have "pred_toks env t tables ?p =
      (if operator = op_Contains then like_toks t (t_like t) ?p
       else if operator = op_NotContains then like_toks t (t_notlike t) ?p
       else if operator = op_Like then like_toks t '' LIKE '' ?p
       else like_toks t '' NOT LIKE '' ?p)"
      unfolding pred_toks_eq [of env t tables ?p] predicate.sel option.case
      using assms op by (simp only: if_False if_True simp_thms insert_iff empty_iff) (elim disjE; simp add: op_defs)
    then show ?thesis using like by presburger
  qed
  then show ?thesis using op unfolding p by (simp add: column_pred_def isLogical_def)
qed

lemma scalarCondition_column:
  "IsIdentifier field \<Longrightarrow> scalarConditionPredicate field c v = Some p \<Longrightarrow> column_pred field p"
  by (auto simp: scalarConditionPredicate_def Eq_def Ne_def Lt_def Lte_def Gt_def Gte_def
      intro!: column_pred_cond split: if_splits)

lemma buildScalar_column:
  assumes "IsIdentifier (f_Field f)" "buildScalarPredicate venv f = Some p"
  shows "column_pred (f_Field f) p"
proof -
  have sub: "column_pred (f_Field f) (Substring (Contains (f_Field f) s))"
    "column_pred (f_Field f) (Substring (NotContains (f_Field f) s))"
    "column_pred (f_Field f) (Substring (Like (f_Field f) s))"
    "column_pred (f_Field f) (Substring (NotLike (f_Field f) s))" for s
    using column_pred_substring [OF assms(1)]
    by (auto simp: Contains_def NotContains_def Like_def NotLike_def)
  show ?thesis
    using assms sub column_pred_between [OF assms(1)] scalarCondition_column [OF assms(1)]
    by (auto simp: buildScalarPredicate_def split: goval.splits if_splits list.splits)
qed

lemma or_parts_compile:
  assumes "IsIdentifier (f_Field f)"
  shows "or_parts f first vs = Some ps \<Longrightarrow>
    (\<forall>p\<in>set ps. p = Or \<or> column_pred (f_Field f) p)"
proof (induction vs arbitrary: first ps)
  case (Cons v vs)
  then obtain p qs where "scalarConditionPredicate (f_Field f) (f_Condition f) v = Some p"
    "or_parts f False vs = Some qs" "ps = (if first then [] else [Or]) @ p # qs"
    by (auto split: option.splits)
  with Cons.IH [of False qs] scalarCondition_column [OF assms] show ?case by auto
qed simp

lemma clause_compiles_from:
  assumes "\<forall>p\<in>set ps. isLogical p \<or> (\<exists>ts. pred_toks env t tables p = Ok ts)"
  shows "\<exists>ts. clause_toks_from env t tables prev ps = Ok ts"
  using assms
proof (induction ps arbitrary: prev)
  case (Cons p ps)
  have "\<forall>p\<in>set ps. isLogical p \<or> (\<exists>ts. pred_toks env t tables p = Ok ts)" using Cons.prems by simp
  from Cons.IH [OF this] obtain rest where "clause_toks_from env t tables (Some p) ps = Ok rest" by blast
  moreover have "\<exists>here. (if isLogical p then Ok [Lit (p_logical p)] else pred_toks env t tables p) = Ok here"
    using Cons.prems by (cases "isLogical p") simp_all
  ultimately show ?case by (elim exE) (simp only: clause_toks_from.simps sum.case, blast)
qed simp

lemma Or_facts: "isLogical Or" "isLogical And" "\<not> has_raw Or" "\<not> has_raw And" "written_fields Or = []" "written_fields And = []"
  by (simp_all add: isLogical_def Or_def And_def op_defs)

lemma column_pred_group:
  assumes "\<forall>p\<in>set ps. p = Or \<or> column_pred c p"
  shows "column_pred c (Group ps)"
proof -
  have "\<exists>ts. pred_toks env t tables (Group ps) = Ok ts" for env t tables
  proof -
    have "\<forall>p\<in>set ps. isLogical p \<or> (\<exists>ts. pred_toks env t tables p = Ok ts)"
      using assms Or_facts by (auto simp: column_pred_def)
    from clause_compiles_from [OF this, of None] show ?thesis by (auto simp: Group_def)
  qed
  moreover have "\<not> has_raw (Group ps)" "set (written_fields (Group ps)) \<subseteq> {c}" "\<not> isLogical (Group ps)"
    using assms Or_facts by (auto simp: Group_def column_pred_def list_ex_iff isLogical_def)
  ultimately show ?thesis by (simp add: column_pred_def)
qed

lemma buildSlice_column:
  assumes "IsIdentifier (f_Field f)" "buildSlicePredicate venv f = Some p"
  shows "column_pred (f_Field f) p"
proof -
  have single: "column_pred (f_Field f) p" if "buildSingleElementPredicate venv f v = Some p" for v
    using that buildScalar_column [of "NewFilter (f_Field f) c v" for c] assms(1)
    by (auto simp: buildSingleElementPredicate_def Let_def NewFilter_def dest!: buildScalar_column [rotated])
  have between: "column_pred (f_Field f) p" if "buildBetweenPredicate f vs = Some p" for vs
    using that column_pred_between [OF assms(1)]
    by (auto simp: buildBetweenPredicate_def split: option.splits list.splits)
  have expansion: "column_pred (f_Field f) p" if "buildOrExpansion f vs = Some p" for vs
    using that column_pred_group or_parts_compile [OF assms(1)]
    by (auto simp: buildOrExpansion_def)
  have member: "column_pred (f_Field f) (In (f_Field f) v)" "column_pred (f_Field f) (NotIn (f_Field f) v)" for v
    using column_pred_cond [OF assms(1)] by (simp_all add: In_def NotIn_def)
  show ?thesis
    using assms(2) single between expansion member
    by (auto simp: buildSlicePredicate_def split: option.splits list.splits if_splits)
qed

lemma filterToPredicate_column:
  assumes "f_LogicalOperator f = []" "filterToPredicate venv f = Some p"
  shows "column_pred (f_Field f) p"
  using assms buildSlice_column buildScalar_column
  by (auto simp: filterToPredicate_def IsNull_def IsNotNull_def intro: column_pred_cond split: if_splits)

section \<open>What the mapping admits\<close>

definition columns_of :: "mapping \<Rightarrow> string set" where
  "columns_of m = {mf_Column field |name field. m name = Some field}"

definition within_bounds :: "limits \<Rightarrow> cond_filter \<Rightarrow> bool" where
  "within_bounds l f \<longleftrightarrow>
     (case toAnySlice (f_Value f) of None \<Rightarrow> True | Some vs \<Rightarrow> int (length vs) \<le> maxInValues l) \<and>
     (f_Condition f \<in> set likeConditions \<longrightarrow>
        (\<forall>v \<in> set (case toAnySlice (f_Value f) of None \<Rightarrow> [f_Value f] | Some vs \<Rightarrow> vs). \<not> like_too_long l v))"

definition admitted :: "limits \<Rightarrow> mapping \<Rightarrow> cond_filter option \<Rightarrow> bool" where
  "admitted l m fo =
     (case fo of
        None \<Rightarrow> False
      | Some f \<Rightarrow>
          if f_LogicalOperator f \<noteq> [] then f_LogicalOperator f \<in> {op_And, op_Or}
          else within_bounds l f \<and>
            (case m (f_Field f) of
               None \<Rightarrow> False
             | Some field \<Rightarrow>
                 (mf_Ops field = [] \<or> effective_condition f \<in> set (mf_Ops field)) \<and>
                 (if effective_condition f = op_Search then mf_Search field \<noteq> None
                  else IsIdentifier (mf_Column field))))"

text \<open>A predicate made from a filter: a connector, a search on the field's index, or a condition on
  the mapped column.\<close>

definition resolved :: "mapping \<Rightarrow> cond_filter option \<Rightarrow> predicate \<Rightarrow> bool" where
  "resolved m fo p \<longleftrightarrow>
     (\<exists>f. fo = Some f \<and>
        (f_LogicalOperator f \<noteq> [] \<and> (p = And \<or> p = Or) \<or>
         f_LogicalOperator f = [] \<and>
           (\<exists>field. m (f_Field f) = Some field \<and>
              (effective_condition f = op_Search \<and> (\<exists>s. p = Match s) \<or>
               effective_condition f \<noteq> op_Search \<and> column_pred (mf_Column field) p))))"

lemma limits_check_None: "limits_check l i f = None \<longleftrightarrow> within_bounds l f"
  by (auto simp: limits_check_def within_bounds_def Let_def list_ex_iff split: option.splits if_splits)

lemma mapping_predicate_Ok:
  assumes "mapping_predicate venv m i (Some f) = Ok p"
  shows "resolved m (Some f) p"
    and "within_bounds l f \<Longrightarrow> admitted l m (Some f)"
proof -
  have "resolved m (Some f) p \<and> (within_bounds l f \<longrightarrow> admitted l m (Some f))"
  proof (cases "f_LogicalOperator f = []")
    case False
    with assms show ?thesis
      by (auto simp: mapping_predicate_def filterToPredicate_def resolved_def admitted_def split: if_splits option.splits)
  next
    case True
    then obtain field where m: "m (f_Field f) = Some field"
      and ops: "mf_Ops field = [] \<or> effective_condition f \<in> set (mf_Ops field)"
      using assms by (auto simp: mapping_predicate_def Let_def split: option.splits if_splits)
    show ?thesis
    proof (cases "effective_condition f = op_Search")
      case search: True
      with True m ops assms show ?thesis
        by (auto simp: mapping_predicate_def Let_def searchPredicate_def resolved_def admitted_def
            split: option.splits if_splits goval.splits)
    next
      case cond: False
      with True m ops assms have id: "IsIdentifier (mf_Column field)"
        and p: "filterToPredicate venv (f\<lparr>f_Field := mf_Column field\<rparr>) = Some p"
        by (auto simp: mapping_predicate_def Let_def split: option.splits if_splits)
      have "column_pred (mf_Column field) p"
        using filterToPredicate_column [OF _ p] True by simp
      with True m ops cond id show ?thesis by (auto simp: resolved_def admitted_def)
    qed
  qed
  then show "resolved m (Some f) p" "within_bounds l f \<Longrightarrow> admitted l m (Some f)" by auto
qed

lemma checkedPredicate_Ok:
  assumes "checkedPredicate venv l m i fo = Ok p"
  shows "resolved m fo p \<and> admitted l m fo"
proof (cases fo)
  case None
  with assms show ?thesis by (simp add: checkedPredicate_def mapping_predicate_def)
next
  case (Some f)
  with assms have mp: "mapping_predicate venv m i (Some f) = Ok p"
    and b: "f_LogicalOperator f = [] \<Longrightarrow> within_bounds l f"
    by (auto simp: checkedPredicate_def limits_check_None split: if_splits option.splits)
  have "admitted l m (Some f)"
  proof (cases "f_LogicalOperator f = []")
    case True
    with b mapping_predicate_Ok(2) [OF mp] show ?thesis by blast
  next
    case False
    then show ?thesis
      using mp by (auto simp: mapping_predicate_def filterToPredicate_def admitted_def split: if_splits option.splits)
  qed
  with mapping_predicate_Ok(1) [OF mp] Some show ?thesis by simp
qed

lemma resolve_filters_Ok:
  "resolve_filters venv l m i fs = ([], ps) \<Longrightarrow>
     list_all2 (resolved m) fs ps \<and> list_all (admitted l m) fs"
proof (induction fs arbitrary: i ps)
  case (Cons f fs)
  obtain es qs where rest: "resolve_filters venv l m (Suc i) fs = (es, qs)" by fastforce
  with Cons.prems obtain p where "checkedPredicate venv l m i f = Ok p" "es = []" "ps = p # qs"
    by (auto split: sum.splits)
  with Cons.IH [of "Suc i" qs] rest checkedPredicate_Ok show ?case by auto
qed simp

lemma filter_Build_Ok:
  assumes "filter_Build env venv base args (Some fs) m d opts = Ok qp" "fs_Filters fs \<noteq> []"
  obtains ps clause where "resolve_filters venv (newLimits opts) m 0 (fs_Filters fs) = ([], ps)"
    "validateLogicalPlacement (fs_Filters fs) = None"
    "int (countConditions (fs_Filters fs)) \<le> maxFilters (newLimits opts)"
    "BuildClauseAfter env args ps d = Ok (clause, qp_Params qp)"
    "qp_Query qp = base @ '' AND ( '' @ clause @ '' )''" "qp_Indexes qp = TextIndexes ps"
proof -
  obtain es ps where r: "resolve_filters venv (newLimits opts) m 0 (fs_Filters fs) = (es, ps)" by fastforce
  from assms r have "es = []" "validateLogicalPlacement (fs_Filters fs) = None"
    "int (countConditions (fs_Filters fs)) \<le> maxFilters (newLimits opts)"
    by (auto simp: filter_Build_def Let_def split: if_splits option.splits)
  moreover obtain clause params where c: "BuildClauseAfter env args ps d = Ok (clause, params)"
    using assms r by (auto simp: filter_Build_def Let_def split: if_splits option.splits sum.splits)
  moreover have "qp = \<lparr>qp_Query = base @ '' AND ( '' @ clause @ '' )'', qp_Params = params, qp_Indexes = TextIndexes ps\<rparr>"
    using assms r c by (simp add: filter_Build_def Let_def split: if_splits option.splits)
  ultimately show thesis using that r by simp
qed

lemma params_prefix:
  assumes "d \<in> set (dialects env)" "BuildClauseAfter env args ps d = Ok (clause, params)"
  shows "prefix args params"
  using assms by (auto simp: clause_spec rendered_Ok)

lemma resolved_columns:
  assumes "list_all2 (resolved m) fs ps" "p \<in> set ps"
  shows "set (written_fields p) \<subseteq> columns_of m \<and> \<not> has_raw p"
proof -
  obtain f where "resolved m f p" using assms by (auto simp: list_all2_conv_all_nth in_set_conv_nth)
  then show ?thesis
    by (auto simp: resolved_def columns_of_def Or_facts column_pred_def Match_def op_defs)
qed

lemma resolved_compiles:
  assumes "list_all2 (resolved m) fs ps" "\<forall>f. Some f \<in> set fs \<longrightarrow> effective_condition f \<noteq> op_Search" "p \<in> set ps"
  shows "isLogical p \<or> (\<exists>ts. pred_toks env t tables p = Ok ts)"
proof -
  obtain i where "i < length ps" "p = ps ! i" using assms(3) by (auto simp: in_set_conv_nth)
  with assms(1) have "resolved m (fs ! i) p" "fs ! i \<in> set fs" by (auto simp: list_all2_conv_all_nth)
  with assms(2) show ?thesis by (auto simp: resolved_def Or_facts column_pred_def)
qed

section \<open>Properties\<close>

text \<open>C2. A filter request cannot reach a column outside the mapping: when Build succeeds, every
  condition of the request is admitted by the mapping and within its bounds, the predicates it
  resolved to write only mapped columns and no trusted expression, and the query is the base, the
  clause of those predicates in parentheses, with the parameters after the given ones.\<close>

theorem filter_build_sound:
  assumes "d \<in> set (dialects env)" "fs_Filters fs \<noteq> []"
    and "filter_Build env venv base args (Some fs) m d opts = Ok qp"
  shows "\<exists>ps clause. list_all (admitted (newLimits opts) m) (fs_Filters fs) \<and>
    int (countConditions (fs_Filters fs)) \<le> maxFilters (newLimits opts) \<and>
    (\<forall>p\<in>set ps. set (written_fields p) \<subseteq> columns_of m \<and> \<not> has_raw p) \<and>
    BuildClauseAfter env args ps d = Ok (clause, qp_Params qp) \<and>
    qp_Query qp = base @ '' AND ( '' @ clause @ '' )'' \<and> prefix args (qp_Params qp)"
proof -
  from filter_Build_Ok [OF assms(3,2)] obtain ps clause
    where b: "resolve_filters venv (newLimits opts) m 0 (fs_Filters fs) = ([], ps)"
      "int (countConditions (fs_Filters fs)) \<le> maxFilters (newLimits opts)"
      "BuildClauseAfter env args ps d = Ok (clause, qp_Params qp)"
      "qp_Query qp = base @ '' AND ( '' @ clause @ '' )''" by metis
  from resolve_filters_Ok [OF b(1)] have r: "list_all2 (resolved m) (fs_Filters fs) ps"
    "list_all (admitted (newLimits opts) m) (fs_Filters fs)" by auto
  show ?thesis
    using b r resolved_columns [OF r(1)] params_prefix [OF assms(1) b(3)] by blast
qed

definition sample_mapping :: mapping where
  "sample_mapping = Allow [''o.status'', ''o.total'']"

definition sample_filters :: filters where
  "sample_filters =
     filters_Add [Some (NewFilter ''o.status'' ''='' (VString ''open'')), Some filter_OR,
                  Some (NewFilter ''o.total'' ''>'' (VInt 100))] NewFilters"

definition plain_values :: value_env where
  "plain_values = \<lparr>sprint_v = (\<lambda>_. []), parse_rfc3339 = (\<lambda>_. None), widen_float = ucast\<rparr>"

lemma sample_columns: "IsIdentifier ''o.status''" "IsIdentifier ''o.total''"
  by (simp_all add: IsIdentifier_def is_segment_def is_letter_char_def is_digit_char_def ident_char_def Let_def)

lemma sample_filters_build:
  "filter_Build ascii_env plain_values ''SELECT * FROM orders o WHERE o.tenant = $1'' [VInt 9] (Some sample_filters)
     sample_mapping PostgresDialect [] =
   Ok \<lparr>qp_Query = ''SELECT * FROM orders o WHERE o.tenant = $1 AND ( o.status = $2 OR o.total > $3 )'',
       qp_Params = [VInt 9, VStringValue ''open'', VIntValue 100], qp_Indexes = []\<rparr>"
proof -
  note [simp] = op_defs
  have f: "filterToPredicate plain_values (NewFilter ''o.status'' ''='' (VString ''open'')) = Some (Eq ''o.status'' (VStringValue ''open''))"
    "filterToPredicate plain_values (NewFilter ''o.total'' ''>'' (VInt 100)) = Some (Gt ''o.total'' (VIntValue 100))"
    "filterToPredicate plain_values filter_OR = Some Or"
    by (simp_all add: filterToPredicate_def NewFilter_def sample_columns AllowedOperators_def toAnySlice_def
        buildScalarPredicate_def resolveValueType_def scalarConditionPredicate_def filter_OR_def)
  have chk: "checkedPredicate plain_values (newLimits []) sample_mapping i (Some (NewFilter ''o.status'' ''='' (VString ''open''))) =
      Ok (Eq ''o.status'' (VStringValue ''open''))"
    "checkedPredicate plain_values (newLimits []) sample_mapping i (Some (NewFilter ''o.total'' ''>'' (VInt 100))) =
      Ok (Gt ''o.total'' (VIntValue 100))"
    "checkedPredicate plain_values (newLimits []) sample_mapping i (Some filter_OR) = Ok Or" for i
    using f
    by (simp_all add: checkedPredicate_def limits_check_def mapping_predicate_def NewFilter_def filter_OR_def toAnySlice_def
        likeConditions_def effective_condition_def sample_mapping_def Allow_def sample_columns Let_def)
  have r: "resolve_filters plain_values (newLimits []) sample_mapping 0 (fs_Filters sample_filters) =
      ([], [Eq ''o.status'' (VStringValue ''open''), Or, Gt ''o.total'' (VIntValue 100)])"
    by (simp add: sample_filters_def filters_Add_def NewFilters_def chk)
  have c: "BuildClauseAfter ascii_env [VInt 9] [Eq ''o.status'' (VStringValue ''open''), Or, Gt ''o.total'' (VIntValue 100)] PostgresDialect
      = Ok (''o.status = $2 OR o.total > $3'', [VInt 9, VStringValue ''open'', VIntValue 100])"
    by (simp add: pg_sql.BuildClauseAfter_spec rendered_def clause_toks_def Eq_def Gt_def Or_def cond_def isLogical_def
        sample_columns postgres_Param_def itoa_nat_eval digit_char_eval digit_char_eval_Suc)
  have "TextIndexes [Eq ''o.status'' (VStringValue ''open''), Or, Gt ''o.total'' (VIntValue 100)] = []"
    by (simp add: TextIndexes_def Eq_def Gt_def Or_def cond_def append_search_def)
  with r c show ?thesis
    by (simp add: filter_Build_def Let_def) (simp add: sample_filters_def filters_Add_def NewFilters_def countConditions_def
        is_condition_def validateLogicalPlacement_def is_logical_filter_def NewFilter_def filter_OR_def newLimits_def)
qed

theorem filter_build_sound_witness:
  "\<exists>ps clause. list_all (admitted (newLimits []) sample_mapping) (fs_Filters sample_filters) \<and>
    int (countConditions (fs_Filters sample_filters)) \<le> maxFilters (newLimits []) \<and>
    (\<forall>p\<in>set ps. set (written_fields p) \<subseteq> columns_of sample_mapping \<and> \<not> has_raw p) \<and>
    BuildClauseAfter ascii_env [VInt 9] ps PostgresDialect = Ok (clause, [VInt 9, VStringValue ''open'', VIntValue 100]) \<and>
    ''SELECT * FROM orders o WHERE o.tenant = $1 AND ( o.status = $2 OR o.total > $3 )'' =
      ''SELECT * FROM orders o WHERE o.tenant = $1'' @ '' AND ( '' @ clause @ '' )'' \<and>
    prefix [VInt 9] [VInt 9, VStringValue ''open'', VIntValue 100]"
proof -
  have d: "PostgresDialect \<in> set (dialects ascii_env)" by (simp add: dialects_def)
  have ne: "fs_Filters sample_filters \<noteq> []" by (simp add: sample_filters_def filters_Add_def)
  from filter_build_sound [OF d ne sample_filters_build] show ?thesis by simp
qed

fun adjacent_connectors :: "predicate list \<Rightarrow> bool" where
  "adjacent_connectors (p # q # ps) = (isLogical p \<and> isLogical q \<or> adjacent_connectors (q # ps))"
| "adjacent_connectors _ = False"

lemma resolved_logical: "resolved m f p \<Longrightarrow> isLogical p = is_logical_filter f"
  by (auto simp: resolved_def is_logical_filter_def And_def Or_def op_defs Match_def isLogical_def column_pred_def)

lemma adjacent_resolved:
  "list_all2 (resolved m) fs ps \<Longrightarrow> adjacent_connectors ps = consecutive_logical fs"
proof (induction fs arbitrary: ps rule: consecutive_logical.induct)
  case (1 f g fs)
  then obtain p q qs where "ps = p # q # qs" "resolved m f p" "resolved m g q" "list_all2 (resolved m) (g # fs) (q # qs)"
    by (auto simp: list_all2_Cons1)
  with 1 resolved_logical show ?case by auto
qed (auto simp: list_all2_Cons1)

text \<open>The connectors of a built clause are well placed: the predicates a successful Build compiles
  start and end with a condition and hold no two adjacent connectors, so the clause inside the
  parentheses is a condition on its own.\<close>

theorem filter_connectors_well_placed:
  assumes "fs_Filters fs \<noteq> []" "filter_Build env venv base args (Some fs) m d opts = Ok qp"
  shows "\<exists>ps clause. BuildClauseAfter env args ps d = Ok (clause, qp_Params qp) \<and>
    qp_Query qp = base @ '' AND ( '' @ clause @ '' )'' \<and>
    length ps = length (fs_Filters fs) \<and> ps \<noteq> [] \<and>
    \<not> isLogical (hd ps) \<and> \<not> isLogical (last ps) \<and> \<not> adjacent_connectors ps"
proof -
  from filter_Build_Ok [OF assms(2,1)] obtain ps clause
    where b: "resolve_filters venv (newLimits opts) m 0 (fs_Filters fs) = ([], ps)"
      "validateLogicalPlacement (fs_Filters fs) = None"
      "BuildClauseAfter env args ps d = Ok (clause, qp_Params qp)"
      "qp_Query qp = base @ '' AND ( '' @ clause @ '' )''" by metis
  from resolve_filters_Ok [OF b(1)] have r: "list_all2 (resolved m) (fs_Filters fs) ps" by simp
  then have len: "length ps = length (fs_Filters fs)" and ne: "ps \<noteq> []"
    using assms(1) by (auto dest: list_all2_lengthD)
  have "resolved m (hd (fs_Filters fs)) (hd ps)" "resolved m (last (fs_Filters fs)) (last ps)"
    using r ne assms(1) len by (auto simp: list_all2_conv_all_nth hd_conv_nth last_conv_nth)
  with b(2) assms(1) have "\<not> isLogical (hd ps)" "\<not> isLogical (last ps)" "\<not> consecutive_logical (fs_Filters fs)"
    by (auto simp: validateLogicalPlacement_def resolved_logical split: if_splits)
  with b len ne adjacent_resolved [OF r] show ?thesis by blast
qed

theorem filter_connectors_well_placed_witness:
  "\<exists>ps clause. BuildClauseAfter ascii_env [VInt 9] ps PostgresDialect =
      Ok (clause, [VInt 9, VStringValue ''open'', VIntValue 100]) \<and>
    ''SELECT * FROM orders o WHERE o.tenant = $1 AND ( o.status = $2 OR o.total > $3 )'' =
      ''SELECT * FROM orders o WHERE o.tenant = $1'' @ '' AND ( '' @ clause @ '' )'' \<and>
    length ps = 3 \<and> ps \<noteq> [] \<and> \<not> isLogical (hd ps) \<and> \<not> isLogical (last ps) \<and> \<not> adjacent_connectors ps"
proof -
  have ne: "fs_Filters sample_filters \<noteq> []" "length (fs_Filters sample_filters) = 3"
    by (simp_all add: sample_filters_def filters_Add_def NewFilters_def)
  from filter_connectors_well_placed [OF ne(1) sample_filters_build] ne(2) show ?thesis by simp
qed

text \<open>C37. An admitted request builds: when the request is within the limit of conditions, its
  connectors are well placed, no filter is rejected on its own and none is a full-text search, Build
  returns a query in every dialect.\<close>

theorem filter_build_complete:
  assumes "d \<in> set (dialects env)"
    and "int (countConditions (fs_Filters fs)) \<le> maxFilters (newLimits opts)"
    and "validateLogicalPlacement (fs_Filters fs) = None"
    and "fst (resolve_filters venv (newLimits opts) m 0 (fs_Filters fs)) = []"
    and "\<forall>f. Some f \<in> set (fs_Filters fs) \<longrightarrow> effective_condition f \<noteq> op_Search"
  shows "\<exists>qp. filter_Build env venv base args (Some fs) m d opts = Ok qp"
proof -
  let ?t = "templates_of env d"
  obtain ps where r: "resolve_filters venv (newLimits opts) m 0 (fs_Filters fs) = ([], ps)"
    using assms(4) by (metis prod.collapse)
  from resolve_filters_Ok [OF r] have "list_all2 (resolved m) (fs_Filters fs) ps" by simp
  from resolved_compiles [OF this assms(5)]
  have "\<forall>p\<in>set ps. isLogical p \<or> (\<exists>ts. pred_toks env ?t None p = Ok ts)" by blast
  from clause_compiles_from [OF this, of None] obtain ts where "clause_toks env ?t None ps = Ok ts"
    by (auto simp: clause_toks_def)
  then have "\<exists>clause params. BuildClauseAfter env args ps d = Ok (clause, params)"
    using assms(1) by (simp add: clause_spec rendered_def)
  with r assms(2,3) show ?thesis by (auto simp: filter_Build_def Let_def)
qed

theorem filter_build_complete_witness:
  "\<exists>qp. filter_Build ascii_env plain_values ''SELECT * FROM orders o WHERE o.tenant = $1'' [VInt 9] (Some sample_filters)
     sample_mapping OracleDialect [] = Ok qp"
proof -
  have d: "OracleDialect \<in> set (dialects ascii_env)" by (simp add: dialects_def)
  have ne: "fs_Filters sample_filters \<noteq> []" by (simp add: sample_filters_def filters_Add_def)
  from filter_Build_Ok [OF sample_filters_build ne]
  have "fst (resolve_filters plain_values (newLimits []) sample_mapping 0 (fs_Filters sample_filters)) = []"
    "validateLogicalPlacement (fs_Filters sample_filters) = None"
    "int (countConditions (fs_Filters sample_filters)) \<le> maxFilters (newLimits [])"
    by (metis fst_conv)+
  moreover have "\<forall>f. Some f \<in> set (fs_Filters sample_filters) \<longrightarrow> effective_condition f \<noteq> op_Search"
    by (auto simp: sample_filters_def filters_Add_def NewFilters_def NewFilter_def filter_OR_def effective_condition_def op_defs)
  ultimately show ?thesis using filter_build_complete [OF d] by blast
qed

text \<open>A nil value compiles to IS NULL whatever the condition is: for a mapped field whose operators
  admit the condition, any condition but IS NOT NULL and SEARCH, even one that is no operator, gives
  the null check of the column.\<close>

theorem filter_nil_value_is_null_check:
  assumes "m name = Some field" "IsIdentifier (mf_Column field)"
    and "mf_Ops field = [] \<or> c \<in> set (mf_Ops field)" "c \<notin> {[], op_IsNotNull, op_Search}"
  shows "mapping_predicate venv m i (Some (NewFilter name c VNil)) = Ok (IsNull (mf_Column field))"
  using assms
  by (auto simp: mapping_predicate_def NewFilter_def effective_condition_def filterToPredicate_def Let_def)

definition equality_only :: mapping where
  "equality_only = [''state'' \<mapsto> \<lparr>mf_Column = ''o.state'', mf_Ops = [op_Eq], mf_Sortable = False, mf_Search = None,
     mf_SearchMode = Websearch, mf_SearchOn = []\<rparr>]"

theorem filter_nil_value_is_null_check_witness:
  "mapping_predicate plain_values equality_only 0 (Some (NewFilter ''state'' op_Eq VNil)) = Ok (IsNull ''o.state'') \<and>
   op_IsNull \<notin> {op_Eq}"
proof -
  have "IsIdentifier ''o.state''"
    by (simp add: IsIdentifier_def is_segment_def is_letter_char_def is_digit_char_def ident_char_def Let_def)
  then show ?thesis
    using filter_nil_value_is_null_check [of equality_only "''state''" _ op_Eq plain_values 0]
    by (simp add: equality_only_def op_defs)
qed

end
