(* ===== verification/Fts_Props.thy ===== *)
theory Fts_Props
  imports Fts
begin

text \<open>
  Properties of \<^verbatim>\<open>sqln/fts\<close>: a parsed search holds only words made of letters, digits and
  marks within its bounds, and the search string PostgreSQL gets reads back as the parsed search:
  no operator comes from the request.
\<close>

section \<open>Parsed searches\<close>

text \<open>What the parser needs of the Unicode tables: lower case keeps word runes and valid runes.\<close>

definition lower_closed :: "text_env \<Rightarrow> bool" where
  "lower_closed env \<longleftrightarrow>
     (\<forall>r. valid_rune r \<longrightarrow> valid_rune (lower_rune env r)) \<and>
     (\<forall>r. word_rune env r \<longrightarrow> word_rune env (lower_rune env r))"

definition is_word :: "text_env \<Rightarrow> string \<Rightarrow> bool" where
  "is_word env w \<longleftrightarrow> (\<exists>rs. rs \<noteq> [] \<and> w = encode_runes rs \<and> list_all valid_rune rs \<and> list_all (word_rune env) rs)"

definition wf_term :: "text_env \<Rightarrow> text_term \<Rightarrow> bool" where
  "wf_term env t \<longleftrightarrow>
     tt_Words t \<noteq> [] \<and> list_all (is_word env) (tt_Words t) \<and> tt_Near t \<le> MaxNear \<and>
     (0 < tt_Near t \<longrightarrow> length (tt_Words t) = 2) \<and> list_all (list_all (is_word env)) (tt_Synonyms t)"

definition wf_group :: "text_env \<Rightarrow> text_group \<Rightarrow> bool" where
  "wf_group env g \<longleftrightarrow> list_all (wf_term env) g \<and> list_ex (\<lambda>t. \<not> tt_Negate t) g"

lemma rune_fields_words:
  "list_all valid_rune rs \<Longrightarrow> f \<in> set (rune_fields p rs) \<Longrightarrow> f \<noteq> [] \<and> list_all p f \<and> list_all valid_rune f"
proof (induction p rs rule: rune_fields.induct)
  case (2 p r rs)
  have sub: "list_all valid_rune (dropWhile p rs)" "list_all valid_rune (takeWhile p rs)"
    using 2(3) by (auto simp: list_all_iff dest: set_dropWhileD set_takeWhileD)
  have "list_all p (takeWhile p rs)" by (auto simp: list_all_iff dest: set_takeWhileD)
  with 2 sub show ?case by (cases "p r") auto
qed simp

lemma splitWords_words: "list_all (is_word env) (splitWords env s)"
proof -
  have "is_word env (encode_runes f)" if "f \<in> set (rune_fields (word_rune env) (runes (ToLower env s)))" for f
    using rune_fields_words [OF _ that] by (auto simp: is_word_def)
  then show ?thesis by (auto simp: splitWords_def list_all_iff)
qed

lemma lower_word:
  assumes "lower_closed env" "list_all valid_rune rs" "list_all (word_rune env) rs" "rs \<noteq> []"
  shows "is_word env (ToLower env (encode_runes rs))"
  unfolding is_word_def ToLower_def
  by (rule exI [of _ "map (lower_rune env) rs"])
    (use assms in \<open>auto simp: lower_closed_def list_all_iff\<close>)

lemma quoted_term_wf:
  "list_all (is_word env) words \<Longrightarrow> list_all (wf_term env) (quoted_term words negate near)"
  by (auto simp: quoted_term_def wf_term_def)

lemma read_quoted_words: "read_quoted env rs = (ws, near, rest) \<Longrightarrow> list_all (is_word env) ws"
  by (auto simp: read_quoted_def Let_def splitWords_words split: prod.splits)

lemma set_read_quoted:
  assumes "read_quoted env rs = (ws, near, rest)"
  shows "set rest \<subseteq> set rs"
proof -
  define after where "after = drop (length (takeWhile (\<lambda>r. r \<noteq> 34) rs) + 1) rs"
  have "set rest \<subseteq> set after"
    using assms unfolding read_quoted_def Let_def after_def [symmetric]
    by (auto simp: read_near_def Let_def split: list.splits if_splits dest: in_set_dropD)
  then show ?thesis unfolding after_def by (auto dest: in_set_dropD)
qed

lemma word_term_wf: "is_word env w \<Longrightarrow> wf_term env ((word_term w)\<lparr>tt_Negate := n\<rparr>)"
  by (simp add: wf_term_def word_term_def)

lemma web_loop_wf:
  assumes env: "lower_closed env"
  shows "list_all valid_rune rs \<Longrightarrow> list_all (list_all (wf_term env)) q \<Longrightarrow> list_all (wf_term env) g \<Longrightarrow>
    list_all (list_all (wf_term env)) (web_loop env prev q g rs)"
proof (induction "length rs" arbitrary: prev q g rs rule: less_induct)
  case less
  show ?case
  proof (cases rs)
    case Nil
    with less.prems show ?thesis by simp
  next
    case (Cons r0 rs0)
    let ?neg = "opens_negation env prev (r0 # rs0)"
    define r where "r = (if ?neg then hd rs0 else r0)"
    define rs1 where "rs1 = (if ?neg then tl rs0 else rs0)"
    have ne: "?neg \<Longrightarrow> rs0 \<noteq> []" by (auto simp: opens_negation_def split: list.splits)
    have valid: "valid_rune r" "list_all valid_rune rs1"
      using less.prems(1) ne Cons by (auto simp: r_def rs1_def list_all_iff dest: list.set_sel)
    have "length (tl rs0) \<le> length rs0" by simp
    then have len: "length rs1 < length rs" by (auto simp: rs1_def Cons)
    let ?w = "ToLower env (encode_runes (r # takeWhile (word_rune env) rs1))"
    let ?rest = "dropWhile (word_rune env) rs1"
    let ?prev = "rune_before (r0 # rs0) ?rest"
    have step: "web_loop env prev q g rs =
      (if r = 34 then
         (case read_quoted env rs1 of (words, near, rest) \<Rightarrow>
            web_loop env (rune_before (r0 # rs0) rest) q (g @ quoted_term words ?neg near) rest)
       else if word_rune env r then
         (if ?w = ''or'' \<and> \<not> ?neg then
            (if g \<noteq> [] then web_loop env ?prev (q @ [g]) [] ?rest else web_loop env ?prev q g ?rest)
          else web_loop env ?prev q (g @ [(word_term ?w)\<lparr>tt_Negate := ?neg\<rparr>]) ?rest)
       else web_loop env (Some r) q g rs1)"
      by (simp only: Cons web_loop.simps(2) Let_def r_def rs1_def)
    show ?thesis
    proof (cases "r = 34")
      case True
      obtain ws near rest where rq: "read_quoted env rs1 = (ws, near, rest)" by (metis prod_cases3)
      have "list_all valid_rune rest" using valid(2) set_read_quoted [OF rq] by (auto simp: list_all_iff)
      moreover have "length rest < length rs" using read_quoted_shorter [OF rq] len by simp
      ultimately show ?thesis
        using less.hyps less.prems read_quoted_words [OF rq] True rq quoted_term_wf
        unfolding step by simp
    next
      case not34: False
      show ?thesis
      proof (cases "word_rune env r")
        case True
        have "list_all valid_rune (r # takeWhile (word_rune env) rs1)" "list_all (word_rune env) (r # takeWhile (word_rune env) rs1)"
          using valid True by (auto simp: list_all_iff dest: set_takeWhileD)
        from lower_word [OF env this] have w: "is_word env ?w" by simp
        have "list_all valid_rune ?rest" using valid(2) by (auto simp: list_all_iff dest: set_dropWhileD)
        moreover have "length ?rest < length rs" using length_dropWhile_le [of "word_rune env" rs1] len by simp
        ultimately show ?thesis
          using less.hyps less.prems not34 True word_term_wf [OF w]
          unfolding step by simp
      next
        case False
        then show ?thesis
          using less.hyps [OF len] less.prems not34 valid
          unfolding step by simp
      qed
    qed
  qed
qed

lemma keepPositive_wf:
  "list_all (list_all (wf_term env)) q \<Longrightarrow> list_all (wf_group env) (keepPositive q)"
  by (auto simp: keepPositive_def wf_group_def list_all_iff)

lemma parse_wf:
  assumes "lower_closed env"
  shows "list_all (wf_group env) (parse env s mode)"
proof -
  have words: "is_word env w" if "w \<in> set (splitWords env s)" for w
    using splitWords_words [of env s] that by (simp add: list_all_iff)
  have wf: "wf_term env ((word_term w)\<lparr>tt_Prefix := b\<rparr>)" "wf_term env (word_term w)" if "is_word env w" for w b
    using that by (simp_all add: wf_term_def word_term_def)
  have "list_all (wf_group env) (parseWebsearch env s)"
    unfolding parseWebsearch_def
    by (intro keepPositive_wf web_loop_wf [OF assms]) simp_all
  moreover have "list_all (wf_group env) (keepPositive [map (\<lambda>w. (word_term w)\<lparr>tt_Prefix := b\<rparr>) (splitWords env s)])" for b
    by (intro keepPositive_wf) (auto simp: list_all_iff words wf)
  moreover have "list_all (wf_group env) (map (\<lambda>w. [word_term w]) (splitWords env s))"
    by (auto simp: list_all_iff wf_group_def words wf) (simp add: word_term_def)
  moreover have "splitWords env s \<noteq> [] \<Longrightarrow> wf_group env [(word_term [])\<lparr>tt_Words := splitWords env s\<rparr>]"
    using splitWords_words [of env s] by (simp add: wf_group_def wf_term_def word_term_def)
  ultimately show ?thesis by (simp add: parse_def Let_def)
qed

section \<open>Synonyms\<close>

definition wf_synonyms :: "text_env \<Rightarrow> (string \<Rightarrow> string list list) \<Rightarrow> bool" where
  "wf_synonyms env m \<longleftrightarrow> (\<forall>w. list_all (\<lambda>ws. ws \<noteq> [] \<and> list_all (is_word env) ws) (m w))"

lemma synonym_members_wf:
  "synonym_members env g = Ok ms \<Longrightarrow> list_all (\<lambda>ws. ws \<noteq> [] \<and> list_all (is_word env) ws) ms"
  by (induction g arbitrary: ms) (auto simp: Let_def splitWords_words split: if_splits sum.splits)

lemma add_synonym_wf:
  "wf_synonyms env m \<Longrightarrow> ws \<noteq> [] \<and> list_all (is_word env) ws \<Longrightarrow> wf_synonyms env (add_synonym m w ws)"
  by (auto simp: wf_synonyms_def add_synonym_def)

lemma foldl_inv: "P a \<Longrightarrow> (\<And>a x. x \<in> set xs \<Longrightarrow> P a \<Longrightarrow> P (f a x)) \<Longrightarrow> P (foldl f a xs)"
  by (induction xs arbitrary: a) auto

lemma add_member_wf:
  assumes "list_all (\<lambda>ws. ws \<noteq> [] \<and> list_all (is_word env) ws) ms" "wf_synonyms env m"
  shows "wf_synonyms env (add_member ms m i)"
  unfolding add_member_def
  using assms by (auto intro!: foldl_inv [where P = "wf_synonyms env"] add_synonym_wf simp: list_all_length)

lemma synonymMap_wf:
  "wf_synonyms env m \<Longrightarrow> synonymMap env m gs = Ok m' \<Longrightarrow> wf_synonyms env m'"
proof (induction gs arbitrary: m)
  case (Cons g gs)
  then obtain ms where ms: "synonym_members env g = Ok ms"
    and rest: "synonymMap env (foldl (add_member ms) m [0..<length ms]) gs = Ok m'"
    by (auto split: sum.splits if_splits)
  have "wf_synonyms env (foldl (add_member ms) m [0..<length ms])"
    using Cons.prems(1) add_member_wf [OF synonym_members_wf [OF ms]]
    by (intro foldl_inv [where P = "wf_synonyms env"])
  with Cons.IH rest show ?case by blast
qed simp

lemma NewIndex_synonyms:
  assumes "NewIndex env addr table spec = Ok ix"
  shows "wf_synonyms env (ix_synonyms ix)"
proof -
  have "wf_synonyms env (\<lambda>_. [])" by (simp add: wf_synonyms_def)
  with assms show ?thesis
    by (auto simp: NewIndex_def Let_def split: if_splits sum.splits dest: synonymMap_wf)
qed

section \<open>Search queries\<close>

lemma expand_term_sel [simp]:
  "tt_Words (expand_term i t) = tt_Words t" "tt_Near (expand_term i t) = tt_Near t"
  "tt_Negate (expand_term i t) = tt_Negate t" "tt_Prefix (expand_term i t) = tt_Prefix t"
  by (simp_all add: expand_term_def)

lemma expand_term_wf:
  "wf_synonyms env (ix_synonyms i) \<Longrightarrow> wf_term env t \<Longrightarrow> wf_term env (expand_term i t)"
  by (auto simp: expand_term_def wf_synonyms_def wf_term_def list_all_iff)

lemma expand_wf:
  "wf_synonyms env (ix_synonyms i) \<Longrightarrow> list_all (wf_group env) q \<Longrightarrow> list_all (wf_group env) (expand_query i q)"
  by (auto simp: expand_query_def list_all_iff wf_group_def list_ex_iff expand_term_wf)

lemma search_Query_wf:
  assumes "lower_closed env" "se_index s = Some i" "wf_synonyms env (ix_synonyms i)" "search_Query env s = Ok q"
  shows "q \<noteq> []" "list_all (wf_group env) q" "sum_list (map length q) \<le> MaxTerms"
    "rune_count (se_term s) \<le> MaxTermLength"
proof -
  from assms(2,4) have q: "q = expand_query i (parse env (se_term s) (se_mode s))"
    "sum_list (map length (parse env (se_term s) (se_mode s))) \<le> MaxTerms"
    "parse env (se_term s) (se_mode s) \<noteq> []" "rune_count (se_term s) \<le> MaxTermLength"
    by (auto simp: search_Query_def Let_def split: if_splits)
  then show "q \<noteq> []" "rune_count (se_term s) \<le> MaxTermLength" by (simp_all add: expand_query_def)
  show "list_all (wf_group env) q" unfolding q(1) by (intro expand_wf parse_wf assms)
  show "sum_list (map length q) \<le> MaxTerms" using q(1,2) by (simp add: expand_query_def comp_def)
qed

section \<open>The search string of PostgreSQL reads back\<close>

text \<open>
  The tokens of the \<^verbatim>\<open>to_tsquery\<close> language, with \<^verbatim>\<open><->\<close> as distance one, and a scanner for them
  written from its documentation: quoted words, operators, parentheses and the prefix mark.
\<close>

datatype ts_tok = TWord string | TStar | TAnd | TOr | TNot | TOpen | TClose | TDist nat

abbreviation not_quote :: "char \<Rightarrow> bool" where
  "not_quote \<equiv> \<lambda>x. x \<noteq> CHR 0x27"

function ts_lex :: "string \<Rightarrow> ts_tok list option" where
  "ts_lex [] = Some []"
| "ts_lex (c # s) =
     (if c = CHR '' '' then ts_lex s
      else if c = CHR 0x27 then
        (case dropWhile not_quote s of
           [] \<Rightarrow> None
         | _ # rest \<Rightarrow> map_option ((#) (TWord (takeWhile not_quote s))) (ts_lex rest))
      else if c = CHR ''&'' then map_option ((#) TAnd) (ts_lex s)
      else if c = CHR ''|'' then map_option ((#) TOr) (ts_lex s)
      else if c = CHR ''!'' then map_option ((#) TNot) (ts_lex s)
      else if c = CHR ''('' then map_option ((#) TOpen) (ts_lex s)
      else if c = CHR '')'' then map_option ((#) TClose) (ts_lex s)
      else if c = CHR '':'' then
        (case s of
           d # rest \<Rightarrow> if d = CHR ''*'' then map_option ((#) TStar) (ts_lex rest) else None
         | [] \<Rightarrow> None)
      else if c = CHR ''<'' then
        (if takeWhile is_digit_char s \<noteq> [] then
           (case dropWhile is_digit_char s of
              g # rest \<Rightarrow>
                if g = CHR ''>'' then map_option ((#) (TDist (digits_value (takeWhile is_digit_char s)))) (ts_lex rest)
                else None
            | [] \<Rightarrow> None)
         else
           (case s of
              a # b # rest \<Rightarrow>
                if a = CHR ''-'' \<and> b = CHR ''>'' then map_option ((#) (TDist 1)) (ts_lex rest) else None
            | _ \<Rightarrow> None))
      else None)"
  by pat_completeness auto
termination
proof (relation "measure length", goal_cases)
  case (3 c s x rest)
  then have "length rest < length (dropWhile not_quote s)" by simp
  also have "\<dots> \<le> length s" by (rule length_dropWhile_le)
  finally show ?case by simp
next
  case (10 c s g rest)
  then have "length rest < length (dropWhile is_digit_char s)" by simp
  also have "\<dots> \<le> length s" by (rule length_dropWhile_le)
  finally show ?case by simp
qed auto

declare ts_lex.simps(2) [simp del]

definition lexes :: "string \<Rightarrow> ts_tok list \<Rightarrow> bool" where
  "lexes s ts \<longleftrightarrow> (\<forall>r. ts_lex (s @ r) = (case ts_lex r of None \<Rightarrow> None | Some rs \<Rightarrow> Some (ts @ rs)))"

lemma lexes_Nil: "lexes [] []"
  by (simp add: lexes_def split: option.split)

lemma lexes_append: "lexes a x \<Longrightarrow> lexes b y \<Longrightarrow> lexes (a @ b) (x @ y)"
  by (simp add: lexes_def split: option.split)

lemma lexes_ops:
  "lexes '' & '' [TAnd]" "lexes '' | '' [TOr]" "lexes ''! '' [TNot]" "lexes ''!'' [TNot]" "lexes ''( '' [TOpen]"
  "lexes ''('' [TOpen]" "lexes '' )'' [TClose]" "lexes '')'' [TClose]" "lexes '':*'' [TStar]"
  "lexes '' <-> '' [TDist 1]" "lexes '' ) | ( '' [TClose, TOr, TOpen]" "lexes ''!('' [TNot, TOpen]"
  by (simp_all add: lexes_def ts_lex.simps(2) is_digit_char_def split: option.split)

lemma lexes_word: "CHR 0x27 \<notin> set w \<Longrightarrow> lexes (quote @ w @ quote) [TWord w]"
proof -
  assume "CHR 0x27 \<notin> set w"
  then have "dropWhile not_quote (w @ CHR 0x27 # r) = CHR 0x27 # r" "takeWhile not_quote (w @ CHR 0x27 # r) = w" for r
    by (induction w) auto
  then show ?thesis by (simp add: lexes_def ts_lex.simps(2) split: option.split)
qed

lemma lexes_dist: "lexes ('' <'' @ itoa_nat k @ ''> '') [TDist k]"
proof -
  have digits: "takeWhile is_digit_char (itoa_nat k @ CHR ''>'' # r) = itoa_nat k"
    "dropWhile is_digit_char (itoa_nat k @ CHR ''>'' # r) = CHR ''>'' # r" for r
    using itoa_nat_digits by (simp_all add: takeWhile_append2 dropWhile_append2 is_digit_char_def)
  show ?thesis
    by (simp add: lexes_def ts_lex.simps(2) digits split: option.split)
qed

lemma lexes_join:
  assumes "lexes sep septoks"
  shows "list_all2 lexes xs tss \<Longrightarrow> lexes (join sep xs) (join septoks tss)"
proof (induction xs arbitrary: tss)
  case (Cons x xs)
  then obtain ts tss' where t: "tss = ts # tss'" "lexes x ts" "list_all2 lexes xs tss'"
    by (auto simp: list_all2_Cons1)
  then have "xs = [] \<longleftrightarrow> tss' = []" by auto
  with t Cons.IH [OF t(3)] assms show ?case by (auto simp: join_Cons intro!: lexes_append)
qed (simp add: lexes_Nil)

definition phrase_toks :: "string list \<Rightarrow> ts_tok list" where
  "phrase_toks ws = join [TDist 1] (map (\<lambda>w. [TWord w]) ws)"

definition near_toks :: "nat \<Rightarrow> string \<Rightarrow> string \<Rightarrow> ts_tok list" where
  "near_toks n a b =
     join [TOr] (concat (map (\<lambda>k. [[TWord a, TDist k, TWord b], [TWord b, TDist k, TWord a]]) [1..<Suc n]))"

definition term_toks :: "text_term \<Rightarrow> ts_tok list" where
  "term_toks t =
     (let ws = tt_Words t;
          near = (0 < tt_Near t \<and> length ws = 2);
          syn = (tt_Synonyms t \<noteq> [] \<and> length ws = 1);
          body = (if near then TOpen # near_toks (tt_Near t) (ws ! 0) (ws ! 1) @ [TClose]
                  else if syn then TOpen # join [TOr] (map phrase_toks (ws # tt_Synonyms t)) @ [TClose]
                  else phrase_toks ws @ (if tt_Prefix t \<and> length ws = 1 then [TStar] else [])) in
      if \<not> tt_Negate t then body
      else if 1 < length ws \<and> \<not> near \<and> \<not> syn then [TNot, TOpen] @ body @ [TClose]
      else TNot # body)"

definition query_toks :: "text_query \<Rightarrow> ts_tok list" where
  "query_toks q =
     (case map (\<lambda>ts. join [TAnd] (map term_toks ts))
             (filter (\<lambda>ts. ts \<noteq> []) (map (filter (\<lambda>t. tt_Words t \<noteq> [])) q)) of
        [g] \<Rightarrow> g
      | groups \<Rightarrow> TOpen # join [TClose, TOr, TOpen] groups @ [TClose])"

definition plain_words :: "text_term \<Rightarrow> bool" where
  "plain_words t \<longleftrightarrow> (\<forall>w \<in> set (concat (tt_Words t # tt_Synonyms t)). CHR 0x27 \<notin> set w)"

lemma lexes_phrase: "\<forall>w\<in>set ws. CHR 0x27 \<notin> set w \<Longrightarrow> lexes (tsPhrase ws) (phrase_toks ws)"
  unfolding tsPhrase_def phrase_toks_def
  by (rule lexes_join [OF lexes_ops(10)]) (auto simp: list_all2_conv_all_nth intro: lexes_word simp del: append.simps)

lemma lexes_near:
  assumes "CHR 0x27 \<notin> set a" "CHR 0x27 \<notin> set b"
  shows "lexes (join '' | '' (near_alternatives n (quote @ a @ quote) (quote @ b @ quote))) (near_toks n a b)"
proof -
  have alt: "lexes ((quote @ x @ quote) @ ('' <'' @ itoa_nat k @ ''> '') @ (quote @ y @ quote)) ([TWord x] @ [TDist k] @ [TWord y])"
    if "CHR 0x27 \<notin> set x" "CHR 0x27 \<notin> set y" for x y k
    by (intro lexes_append lexes_word lexes_dist that)
  have pair: "list_all2 lexes (concat (map (\<lambda>k. let d = '' <'' @ itoa_nat k @ ''> '' in
        [(quote @ a @ quote) @ d @ (quote @ b @ quote), (quote @ b @ quote) @ d @ (quote @ a @ quote)]) ks))
      (concat (map (\<lambda>k. [[TWord a, TDist k, TWord b], [TWord b, TDist k, TWord a]]) ks))" for ks
    using alt [OF assms] alt [OF assms(2,1)] by (induction ks) (simp_all add: Let_def)
  show ?thesis unfolding near_toks_def near_alternatives_def by (rule lexes_join [OF lexes_ops(2) pair])
qed

lemma lexes_term:
  assumes "plain_words t"
  shows "lexes (tsTerm t) (term_toks t)"
proof -
  let ?ws = "tt_Words t"
  let ?near = "0 < tt_Near t \<and> length ?ws = 2"
  let ?syn = "tt_Synonyms t \<noteq> [] \<and> length ?ws = 1"
  have ws: "\<forall>w\<in>set ?ws. CHR 0x27 \<notin> set w" using assms by (auto simp: plain_words_def)
  define str where "str = (if ?near then ''( '' @ join '' | '' (near_alternatives (tt_Near t) (quote @ ?ws ! 0 @ quote) (quote @ ?ws ! 1 @ quote)) @ '' )''
      else if ?syn then ''( '' @ join '' | '' (tsPhrase ?ws # map tsPhrase (tt_Synonyms t)) @ '' )''
      else tsPhrase ?ws @ (if tt_Prefix t \<and> length ?ws = 1 then '':*'' else []))"
  define body where "body = (if ?near then TOpen # near_toks (tt_Near t) (?ws ! 0) (?ws ! 1) @ [TClose]
      else if ?syn then TOpen # join [TOr] (map phrase_toks (?ws # tt_Synonyms t)) @ [TClose]
      else phrase_toks ?ws @ (if tt_Prefix t \<and> length ?ws = 1 then [TStar] else []))"
  have "lexes str body"
  proof -
    have near: "lexes (''( '' @ join '' | '' (near_alternatives (tt_Near t) (quote @ ?ws ! 0 @ quote) (quote @ ?ws ! 1 @ quote)) @ '' )'')
        ([TOpen] @ near_toks (tt_Near t) (?ws ! 0) (?ws ! 1) @ [TClose])" if ?near
      by (intro lexes_append lexes_ops lexes_near) (use that ws in \<open>auto simp: nth_mem\<close>)
    have "list_all2 lexes (map tsPhrase (?ws # tt_Synonyms t)) (map phrase_toks (?ws # tt_Synonyms t))"
      using assms by (auto simp: plain_words_def list.rel_map list.rel_refl_strong intro!: lexes_phrase list.rel_refl_strong)
    then have syn: "lexes (''( '' @ join '' | '' (map tsPhrase (?ws # tt_Synonyms t)) @ '' )'')
        ([TOpen] @ join [TOr] (map phrase_toks (?ws # tt_Synonyms t)) @ [TClose])"
      by (intro lexes_append lexes_ops lexes_join)
    have plain: "lexes (tsPhrase ?ws @ (if b then '':*'' else [])) (phrase_toks ?ws @ (if b then [TStar] else []))" for b
      by (intro lexes_append lexes_phrase ws) (simp add: lexes_ops lexes_Nil)
    show ?thesis unfolding str_def body_def using near syn plain lexes_phrase [OF ws] by auto
  qed
  moreover have "tsTerm t = (if \<not> tt_Negate t then str else if 1 < length ?ws \<and> \<not> (?near \<or> ?syn) then ''!('' @ str @ '')'' else ''!'' @ str)"
    by (simp add: tsTerm_def str_def Let_def)
  moreover have "term_toks t = (if \<not> tt_Negate t then body else if 1 < length ?ws \<and> \<not> (?near \<or> ?syn) then [TNot, TOpen] @ body @ [TClose] else [TNot] @ body)"
    by (simp add: term_toks_def body_def Let_def)
  moreover have "lexes (''!('' @ str @ '')'') ([TNot, TOpen] @ body @ [TClose])" "lexes (''!'' @ str) ([TNot] @ body)"
    using calculation(1) by (auto intro!: lexes_append lexes_ops simp del: append.simps)
  ultimately show ?thesis by auto
qed

lemma lexes_query:
  assumes "\<forall>g\<in>set q. \<forall>t\<in>set g. plain_words t" "postgres_TextSearchValue idx q = Some v"
  shows "ts_lex v = Some (query_toks q)"
proof -
  define gs where "gs = filter (\<lambda>ts. ts \<noteq> []) (map (filter (\<lambda>t. tt_Words t \<noteq> [])) q)"
  have plain: "\<forall>g\<in>set gs. \<forall>t\<in>set g. plain_words t" using assms(1) by (auto simp: gs_def)
  let ?str = "\<lambda>ts. join '' & '' (map tsTerm ts)" and ?tok = "\<lambda>ts. join [TAnd] (map term_toks ts)"
  have group: "lexes (?str g) (?tok g)" if "g \<in> set gs" for g
    by (rule lexes_join [OF lexes_ops(1)])
      (use plain that in \<open>auto simp: list.rel_map intro!: list.rel_refl_strong lexes_term\<close>)
  have all: "list_all2 lexes (map ?str gs) (map ?tok gs)"
    by (auto simp: list.rel_map intro!: list.rel_refl_strong group)
  have v: "(case map ?str gs of [] \<Rightarrow> None | [g] \<Rightarrow> Some g | groups \<Rightarrow> Some (''( '' @ join '' ) | ( '' groups @ '' )'')) = Some v"
    using assms(2) unfolding postgres_TextSearchValue_def gs_def [symmetric] Let_def
    by (auto split: list.splits)
  have q: "query_toks q = (case map ?tok gs of [g] \<Rightarrow> g | groups \<Rightarrow> [TOpen] @ join [TClose, TOr, TOpen] groups @ [TClose])"
    by (simp add: query_toks_def gs_def split: list.split)
  have many: "lexes (''( '' @ join '' ) | ( '' (map ?str gs) @ '' )'') ([TOpen] @ join [TClose, TOr, TOpen] (map ?tok gs) @ [TClose])"
    by (intro lexes_append lexes_ops lexes_join all)
  have "lexes v (query_toks q)"
  proof (cases gs)
    case Nil
    with v show ?thesis by simp
  next
    case (Cons g gs')
    show ?thesis
    proof (cases gs')
      case Nil
      with Cons v q group [of g] show ?thesis by simp
    next
      case (Cons g2 gs2)
      with \<open>gs = g # gs'\<close> v q many show ?thesis by simp
    qed
  qed
  from this [unfolded lexes_def, rule_format, of "[]"] show ?thesis by simp
qed

lemma is_word_no_quote:
  assumes "\<not> word_rune env 39" "is_word env w"
  shows "CHR 0x27 \<notin> set w"
proof
  assume q: "CHR 0x27 \<in> set w"
  from assms(2) obtain rs where rs: "w = encode_runes rs" "list_all valid_rune rs" "list_all (word_rune env) rs"
    by (auto simp: is_word_def)
  have "of_char (CHR 0x27) \<in> set rs"
    by (rule encode_runes_ascii_char [OF rs(2)]) (use q rs(1) in simp_all)
  with rs(3) assms(1) show False by (auto simp: list_all_iff)
qed

lemma wf_plain: "\<not> word_rune env 39 \<Longrightarrow> wf_term env t \<Longrightarrow> plain_words t"
  using is_word_no_quote by (fastforce simp: plain_words_def wf_term_def list_all_iff)

section \<open>Properties\<close>

text \<open>A search that Query accepts is within its bounds and well formed: at most 256 characters and
  16 terms, every alternative has a positive term, every word is a non-empty run of letters, digits
  and marks, and a proximity joins two words at most 10 positions apart.\<close>

theorem search_query_bounded:
  assumes "lower_closed env" "NewIndex env addr table spec = Ok ix" "se_index s = Some ix" "search_Query env s = Ok q"
  shows "q \<noteq> [] \<and> list_all (wf_group env) q \<and> sum_list (map length q) \<le> MaxTerms \<and>
    rune_count (se_term s) \<le> MaxTermLength"
  using search_Query_wf [OF assms(1,3) NewIndex_synonyms [OF assms(2)] assms(4)] by simp

definition sample_spec :: fts_spec where
  "sample_spec =
     \<lparr>sp_Name = ''ftx'', sp_Columns = [\<lparr>col_Name = ''name'', col_Weight = CHR ''A''\<rparr>], sp_Language = [],
      sp_Unaccent = False, sp_Strategy = StoredVector, sp_VectorColumn = [], sp_MinTokenSize = 0,
      sp_Synonyms = [], sp_Suggest = False, sp_Concurrently = False\<rparr>"

definition sample_index :: fts_index where
  "sample_index =
     \<lparr>ix_addr = 1,
      ix_def = \<lparr>ti_Name = ''ftx'', ti_Table = ''products'', ti_Columns = [\<lparr>col_Name = ''name'', col_Weight = CHR ''A''\<rparr>],
        ti_Language = ''simple'', ti_Unaccent = False, ti_Strategy = StoredVector, ti_VectorColumn = ''ftx_tsv'',
        ti_MinTokenSize = 3, ti_Concurrently = False, ti_Suggest = False\<rparr>,
      ix_synonyms = (\<lambda>_. [])\<rparr>"

lemma ascii_env_closed: "lower_closed ascii_env" "\<not> word_rune ascii_env 39"
  by (auto simp: lower_closed_def ascii_env_def valid_rune_def)

lemma ToLower_ascii_env:
  assumes "list_all (\<lambda>c. (of_char c :: nat) < 128 \<and> \<not> (65 \<le> (of_char c :: nat) \<and> (of_char c :: nat) \<le> 90)) s"
  shows "ToLower ascii_env s = s"
proof -
  have a: "ascii s" using assms by (auto simp: ascii_def list_all_iff)
  have "map (lower_rune ascii_env) (map of_char s) = map of_char s"
    using assms by (induction s) (auto simp: ascii_env_def)
  with a show ?thesis by (simp add: ToLower_def runes_ascii encode_runes_ascii del: map_map)
qed

lemma sample_index_new: "NewIndex ascii_env 1 ''products'' sample_spec = Ok sample_index"
proof -
  have "ToLower ascii_env ''name'' = ''name''" "ToLower ascii_env ''ftx_tsv'' = ''ftx_tsv''"
    by (simp_all add: ToLower_ascii_env)
  then show ?thesis
    by (simp add: NewIndex_def sample_spec_def sample_index_def tableRe_def nameRe_def columnRe_def is_lower_char_def
        is_letter_char_def is_digit_char_def languages_def DefaultMinTokenSize_def Let_def)
qed

lemma sample_search_query:
  "search_Query ascii_env (search_Mode (Search sample_index ''blue mug'') AllTerms) =
     Ok [[word_term ''blue'', word_term ''mug'']]"
proof -
  have low: "ToLower ascii_env ''blue mug'' = ''blue mug''" by (simp add: ToLower_ascii_env)
  have "rune_fields (word_rune ascii_env) (map of_char ''blue mug'') = [map of_char ''blue'', map of_char ''mug'']"
    by (simp add: ascii_env_def)
  then have "splitWords ascii_env ''blue mug'' = [''blue'', ''mug'']"
    using encode_runes_ascii [of "''blue''"] encode_runes_ascii [of "''mug''"] runes_ascii [of "''blue mug''"]
    by (simp add: splitWords_def low)
  moreover have "rune_count ''blue mug'' = 8" using runes_ascii [of "''blue mug''"] by (simp add: rune_count_def)
  ultimately show ?thesis
    by (simp add: search_Query_def search_Mode_def Search_def parse_def keepPositive_def MaxTermLength_def MaxTerms_def
        expand_query_def expand_term_def word_term_def sample_index_def)
qed

theorem search_query_bounded_witness:
  "[[word_term ''blue'', word_term ''mug'']] \<noteq> [] \<and> list_all (wf_group ascii_env) [[word_term ''blue'', word_term ''mug'']] \<and>
   sum_list (map length [[word_term ''blue'', word_term ''mug'']]) \<le> MaxTerms \<and> rune_count ''blue mug'' \<le> MaxTermLength"
proof -
  let ?s = "search_Mode (Search sample_index ''blue mug'') AllTerms"
  have "se_index ?s = Some sample_index" "se_term ?s = ''blue mug''" by (simp_all add: search_Mode_def Search_def)
  with search_query_bounded [OF ascii_env_closed(1) sample_index_new _ sample_search_query] show ?thesis by metis
qed

text \<open>C28. A request cannot add operators to a PostgreSQL search: the search string that Value renders
  for an index made by NewIndex scans, as to_tsquery reads it, to exactly the tokens of the parsed
  search.\<close>

theorem tsquery_reads_back:
  assumes "lower_closed env" "\<not> word_rune env 39" "NewIndex env addr table spec = Ok ix" "se_index s = Some ix"
    and "search_Value env PostgresDialect s = Ok v"
  shows "\<exists>q. search_Query env s = Ok q \<and> ts_lex v = Some (query_toks q)"
proof -
  from assms(4,5) obtain q where q: "search_Query env s = Ok q" "postgres_TextSearchValue (ix_def ix) q = Some v"
    by (auto simp: search_Value_def PostgresDialect_def postgres_text_def split: sum.splits option.splits)
  have "list_all (wf_group env) q"
    using search_Query_wf(2) [OF assms(1,4) NewIndex_synonyms [OF assms(3)] q(1)] .
  then have "\<forall>g\<in>set q. \<forall>t\<in>set g. plain_words t"
    using wf_plain [OF assms(2)] by (auto simp: list_all_iff wf_group_def)
  from lexes_query [OF this q(2)] q(1) show ?thesis by blast
qed

theorem tsquery_reads_back_witness:
  "\<exists>q. search_Query ascii_env (search_Mode (Search sample_index ''blue mug'') AllTerms) = Ok q \<and>
     ts_lex (quote @ ''blue'' @ quote @ '' & '' @ quote @ ''mug'' @ quote) = Some (query_toks q)"
proof -
  let ?s = "search_Mode (Search sample_index ''blue mug'') AllTerms"
  have i: "se_index ?s = Some sample_index" by (simp add: search_Mode_def Search_def)
  have "search_Value ascii_env PostgresDialect ?s = Ok (quote @ ''blue'' @ quote @ '' & '' @ quote @ ''mug'' @ quote)"
    using sample_search_query i
    by (simp add: search_Value_def PostgresDialect_def postgres_text_def postgres_TextSearchValue_def tsTerm_def
        tsPhrase_def word_term_def)
  from tsquery_reads_back [OF ascii_env_closed sample_index_new i this] show ?thesis .
qed

end
