(* ===== verification/Fts_Tools.thy ===== *)
theory Fts_Tools
  imports Fts
begin

text \<open>
  The rest of \<^verbatim>\<open>sqln/fts\<close>: highlights rendered as HTML (\<^verbatim>\<open>highlight.go\<close>), the registry of
  declared indexes (\<^verbatim>\<open>registry.go\<close>) and the migration files (\<^verbatim>\<open>migration.go\<close>). The hash of
  an index comment, SHA-256 in the source, is the parameter \<open>sha\<close>.
\<close>

section \<open>Highlights (highlight.go)\<close>

record fragment =
  fr_Text :: string
  fr_Match :: bool

definition flush :: "rune list \<Rightarrow> bool \<Rightarrow> fragment list" where
  "flush b m = (if b \<noteq> [] then [\<lparr>fr_Text = encode_runes b, fr_Match = m\<rparr>] else [])"

fun fragments_from :: "rune list \<Rightarrow> bool \<Rightarrow> rune list \<Rightarrow> fragment list" where
  "fragments_from b m [] = flush b m"
| "fragments_from b m (r # rs) =
     (if r = 57344 then flush b m @ fragments_from [] True rs
      else if r = 57345 then flush b m @ fragments_from [] False rs
      else fragments_from (b @ [r]) m rs)"

definition Fragments :: "string \<Rightarrow> fragment list" where
  "Fragments h = fragments_from [] False (runes h)"

definition escape_char :: "char \<Rightarrow> string" where
  "escape_char c =
     (if c = CHR ''&'' then ''&amp;'' else if c = CHR ''<'' then ''&lt;'' else if c = CHR ''>'' then ''&gt;''
      else if c = CHR 0x22 then ''&#34;'' else if c = CHR 0x27 then ''&#39;'' else [c])"

definition EscapeString :: "string \<Rightarrow> string" where
  "EscapeString s = concat (map escape_char s)"

definition fragment_html :: "fragment \<Rightarrow> string" where
  "fragment_html f =
     (if fr_Match f then ''<mark>'' @ EscapeString (fr_Text f) @ ''</mark>'' else EscapeString (fr_Text f))"

definition HTML :: "string \<Rightarrow> string" where
  "HTML h = concat (map fragment_html (Fragments h))"

section \<open>Registry (registry.go)\<close>

text \<open>The registry maps the table and the name of an index, joined by a zero byte, to the index.\<close>

type_synonym registry = "string \<Rightarrow> fts_index option"

definition registry_key :: "fts_index \<Rightarrow> string" where
  "registry_key ix = ti_Table (ix_def ix) @ [CHR 0x00] @ ti_Name (ix_def ix)"

text \<open>\<^verbatim>\<open>reflect.DeepEqual\<close> compares what the pointers hold, not the pointers.\<close>

definition deep_equal :: "fts_index \<Rightarrow> fts_index \<Rightarrow> bool" where
  "deep_equal a b \<longleftrightarrow> ix_def a = ix_def b \<and> ix_synonyms a = ix_synonyms b"

definition register :: "fts_index \<Rightarrow> registry \<Rightarrow> (fts_error, registry) result" where
  "register ix reg =
     (case reg (registry_key ix) of
        Some have \<Rightarrow> if \<not> deep_equal have ix then Err (ErrInvalidIndex DeclaredTwice) else Ok reg
      | None \<Rightarrow> Ok (reg(registry_key ix \<mapsto> ix)))"

definition MustIndex ::
  "text_env \<Rightarrow> nat \<Rightarrow> string \<Rightarrow> fts_spec \<Rightarrow> registry \<Rightarrow> (fts_error, fts_index \<times> registry) result" where
  "MustIndex env addr table spec reg =
     (case NewIndex env addr table spec of
        Inl e \<Rightarrow> Err e
      | Inr ix \<Rightarrow> (case register ix reg of Inl e \<Rightarrow> Err e | Inr reg' \<Rightarrow> Ok (ix, reg')))"

section \<open>Migrations (index.go, migration.go)\<close>

definition commentPrefix :: string where "commentPrefix = ''gofi-fts:v1:''"

definition fullText :: "'a filter_dialect_scheme \<Rightarrow> (fts_error, full_text_dialect) result" where
  "fullText d = (case text_ops d of None \<Rightarrow> Err ErrUnsupported | Some fd \<Rightarrow> Ok fd)"

definition index_Comment ::
  "(string \<Rightarrow> string) \<Rightarrow> fts_index \<Rightarrow> 'a filter_dialect_scheme \<Rightarrow> (fts_error, string) result" where
  "index_Comment sha ix d =
     (case fullText d of
        Inl e \<Rightarrow> Err e
      | Inr fd \<Rightarrow>
          (case TextIndexDDL fd ((ix_def ix)\<lparr>ti_Concurrently := False\<rparr>) [] of
             Inl e \<Rightarrow> Err (ErrDdl e)
           | Inr steps \<Rightarrow> Ok (commentPrefix @ sha (join ('';'' @ newline) (concat (map ts_Up steps))))))"

fun steps_from ::
  "(string \<Rightarrow> string) \<Rightarrow> 'a filter_dialect_scheme \<Rightarrow> full_text_dialect \<Rightarrow> fts_index option list \<Rightarrow>
     (fts_error, text_step list) result" where
  "steps_from sha d fd [] = Ok []"
| "steps_from sha d fd (None # is) = Err (ErrInvalidIndex NilIndex)"
| "steps_from sha d fd (Some ix # is) =
     (case index_Comment sha ix d of
        Inl e \<Rightarrow> Err e
      | Inr comment \<Rightarrow>
          (case TextIndexDDL fd (ix_def ix) comment of
             Inl e \<Rightarrow> Err (ErrInvalidIndex (IndexDdl e))
           | Inr s \<Rightarrow>
               (case steps_from sha d fd is of Inl e \<Rightarrow> Err e | Inr out \<Rightarrow> Ok (s @ out))))"

definition fts_steps ::
  "(string \<Rightarrow> string) \<Rightarrow> 'a filter_dialect_scheme \<Rightarrow> fts_index option list \<Rightarrow> (fts_error, text_step list) result" where
  "fts_steps sha d is = (case fullText d of Inl e \<Rightarrow> Err e | Inr fd \<Rightarrow> steps_from sha d fd is)"

definition Statements ::
  "(string \<Rightarrow> string) \<Rightarrow> 'a filter_dialect_scheme \<Rightarrow> fts_index option list \<Rightarrow>
     (fts_error, string list \<times> string list) result" where
  "Statements sha d is =
     (case fts_steps sha d is of
        Inl e \<Rightarrow> Err e
      | Inr s \<Rightarrow> Ok (concat (map ts_Up s), concat (map ts_Down (rev s))))"

record migration_file =
  mf_Up :: string
  mf_Down :: string

definition joinStatements :: "string list \<Rightarrow> string" where
  "joinStatements s =
     (if s = [] then ''SELECT 1;'' @ newline else join ('';'' @ newline @ newline) s @ '';'' @ newline)"

text \<open>A step opens a group when it is isolated, first, or after an isolated step.\<close>

fun group_steps :: "text_step list list \<Rightarrow> text_step option \<Rightarrow> text_step list \<Rightarrow> text_step list list" where
  "group_steps groups prev [] = groups"
| "group_steps groups prev (st # sts) =
     (let opens = (ts_Isolated st \<or> (case prev of None \<Rightarrow> True | Some p \<Rightarrow> ts_Isolated p));
          groups' = (if opens then groups @ [[st]] else butlast groups @ [last groups @ [st]]) in
      group_steps groups' (Some st) sts)"

definition Migrations ::
  "(string \<Rightarrow> string) \<Rightarrow> 'a filter_dialect_scheme \<Rightarrow> fts_index option list \<Rightarrow> (fts_error, migration_file list) result" where
  "Migrations sha d is =
     (case fts_steps sha d is of
        Inl e \<Rightarrow> Err e
      | Inr s \<Rightarrow>
          Ok (map (\<lambda>g. \<lparr>mf_Up = joinStatements (concat (map ts_Up g)),
                        mf_Down = joinStatements (concat (map ts_Down (rev g)))\<rparr>) (group_steps [] None s)))"

definition Migration ::
  "(string \<Rightarrow> string) \<Rightarrow> 'a filter_dialect_scheme \<Rightarrow> fts_index option list \<Rightarrow>
     (fts_error, string \<times> string) result" where
  "Migration sha d is =
     (case Migrations sha d is of
        Inl e \<Rightarrow> Err e
      | Inr [f] \<Rightarrow> Ok (mf_Up f, mf_Down f)
      | Inr _ \<Rightarrow> Err ErrSeveralFiles)"

section \<open>Highlights hold no markup but mark\<close>

fun strip_marks :: "string \<Rightarrow> string" where
  "strip_marks [] = []"
| "strip_marks (c # s) =
     (if take 6 (c # s) = ''<mark>'' then strip_marks (drop 5 s)
      else if take 7 (c # s) = ''</mark>'' then strip_marks (drop 6 s)
      else c # strip_marks s)"

fun unescape :: "string \<Rightarrow> string" where
  "unescape [] = []"
| "unescape (c # s) =
     (if take 5 (c # s) = ''&amp;'' then CHR ''&'' # unescape (drop 4 s)
      else if take 4 (c # s) = ''&lt;'' then CHR ''<'' # unescape (drop 3 s)
      else if take 4 (c # s) = ''&gt;'' then CHR ''>'' # unescape (drop 3 s)
      else if take 5 (c # s) = ''&#34;'' then CHR 0x22 # unescape (drop 4 s)
      else if take 5 (c # s) = ''&#39;'' then CHR 0x27 # unescape (drop 4 s)
      else c # unescape s)"

lemma escape_char_safe: "c \<in> set (escape_char d) \<Longrightarrow> c \<notin> {CHR ''<'', CHR ''>'', CHR 0x22, CHR 0x27}"
proof (cases "d \<in> {CHR ''&'', CHR ''<'', CHR ''>'', CHR 0x22, CHR 0x27}")
  case True
  then show "c \<in> set (escape_char d) \<Longrightarrow> ?thesis" by (elim insertE emptyE; simp add: escape_char_def) (elim disjE; simp)+
next
  case False
  then show "c \<in> set (escape_char d) \<Longrightarrow> ?thesis" by (simp add: escape_char_def)
qed

lemma escape_safe: "c \<in> set (EscapeString s) \<Longrightarrow> c \<notin> {CHR ''<'', CHR ''>'', CHR 0x22, CHR 0x27}"
proof -
  assume "c \<in> set (EscapeString s)"
  then obtain d where "c \<in> set (escape_char d)" unfolding EscapeString_def by fastforce
  then show ?thesis by (rule escape_char_safe)
qed

lemma unescape_escape: "unescape (EscapeString s @ t) = s @ unescape t"
proof (induction s)
  case (Cons c s)
  have "unescape (escape_char c @ u) = c # unescape u" for u
    by (simp add: escape_char_def)
  with Cons show ?case by (simp add: EscapeString_def)
qed (simp add: EscapeString_def)

lemma strip_plain: "CHR ''<'' \<notin> set s \<Longrightarrow> strip_marks (s @ t) = s @ strip_marks t"
  by (induction s) auto

lemma strip_html: "strip_marks (concat (map fragment_html fs)) = concat (map (\<lambda>f. EscapeString (fr_Text f)) fs)"
proof (induction fs)
  case (Cons f fs)
  have "CHR ''<'' \<notin> set (EscapeString (fr_Text f))" using escape_safe by blast
  with Cons show ?case by (auto simp: fragment_html_def strip_plain)
qed simp

lemma unescape_concat: "unescape (concat (map (\<lambda>f. EscapeString (fr_Text f)) fs)) = concat (map fr_Text fs)"
  by (induction fs) (simp_all add: unescape_escape)

lemma fragments_text:
  "concat (map fr_Text (fragments_from b m rs)) = encode_runes (b @ filter (\<lambda>r. r \<noteq> 57344 \<and> r \<noteq> 57345) rs)"
  by (induction b m rs rule: fragments_from.induct) (auto simp: flush_def)

text \<open>C32. A rendered highlight holds no markup but the mark tags, and loses no text: without the
  mark tags it has no angle bracket and no quote, and unescaped it is the text without the private-use
  markers.\<close>

theorem highlight_html_safe:
  "set (strip_marks (HTML h)) \<inter> {CHR ''<'', CHR ''>'', CHR 0x22, CHR 0x27} = {} \<and>
   unescape (strip_marks (HTML h)) = encode_runes (filter (\<lambda>r. r \<noteq> 57344 \<and> r \<noteq> 57345) (runes h))"
proof -
  have "set (strip_marks (HTML h)) \<inter> {CHR ''<'', CHR ''>'', CHR 0x22, CHR 0x27} = {}"
    unfolding HTML_def strip_html using escape_safe by fastforce
  then show ?thesis
    using fragments_text [of "[]" False "runes h"]
    by (simp add: HTML_def strip_html unescape_concat Fragments_def)
qed

section \<open>Migration files\<close>

definition isolated_alone :: "text_step list \<Rightarrow> bool" where
  "isolated_alone g \<longleftrightarrow> g \<noteq> [] \<and> (list_ex ts_Isolated g \<longrightarrow> length g = 1)"

lemma group_steps_inv:
  assumes "list_all isolated_alone groups"
    and "case prev of None \<Rightarrow> groups = [] | Some p \<Rightarrow> groups \<noteq> [] \<and> last (last groups) = p"
  shows "concat (group_steps groups prev sts) = concat groups @ sts \<and> list_all isolated_alone (group_steps groups prev sts)"
  using assms
proof (induction sts arbitrary: groups prev)
  case (Cons st sts)
  show ?case
  proof (cases "ts_Isolated st \<or> (case prev of None \<Rightarrow> True | Some p \<Rightarrow> ts_Isolated p)")
    case True
    then have "group_steps groups prev (st # sts) = group_steps (groups @ [[st]]) (Some st) sts" by simp
    moreover have "isolated_alone [st]" by (simp add: isolated_alone_def)
    then have "list_all isolated_alone (groups @ [[st]])" using Cons.prems by simp
    ultimately show ?thesis using Cons.IH [of "groups @ [[st]]" "Some st"] by simp
  next
    case False
    then obtain p where p: "prev = Some p" "\<not> ts_Isolated p" "\<not> ts_Isolated st" by (cases prev) auto
    with Cons.prems obtain gs g where g: "groups = gs @ [g]" "last g = p" by (cases groups rule: rev_cases) auto
    with Cons.prems(1) have "isolated_alone g" "list_all isolated_alone gs" by simp_all
    moreover from \<open>isolated_alone g\<close> p g have "\<not> list_ex ts_Isolated g"
      by (auto simp: isolated_alone_def length_Suc_conv)
    ultimately have "list_all isolated_alone (gs @ [g @ [st]])" using p by (auto simp: isolated_alone_def)
    moreover have "group_steps groups prev (st # sts) = group_steps (gs @ [g @ [st]]) (Some st) sts"
      using p g by simp
    ultimately show ?thesis using Cons.IH [of "gs @ [g @ [st]]" "Some st"] g by simp
  qed
qed simp

text \<open>Migration files run every statement once and in order, and a step that cannot run in a
  transaction has a file of its own: the steps grouped into files are the rendered steps in order,
  every group is non-empty, and a group with an isolated step holds nothing else.\<close>

theorem migration_groups_partition:
  "concat (group_steps [] None s) = s \<and>
   list_all (\<lambda>g. g \<noteq> [] \<and> (length g = 1 \<or> list_all (\<lambda>st. ts_Isolated st = False) g)) (group_steps [] None s)"
proof -
  have "isolated_alone g \<Longrightarrow> g \<noteq> [] \<and> (length g = 1 \<or> list_all (\<lambda>st. ts_Isolated st = False) g)" for g
    by (auto simp: isolated_alone_def list_ex_iff list_all_iff)
  then show ?thesis using group_steps_inv [of "[]" None s] by (auto simp: list_all_iff)
qed

end
