(* ===== verification/Dialect_Props.thy ===== *)
theory Dialect_Props
  imports Dialect
begin

text \<open>
  What the two checks of \<^verbatim>\<open>sqln/driver/identifier.go\<close> promise to the callers that
  concatenate their result into a statement.
\<close>

text \<open>A name accepted by \<^verbatim>\<open>IsIdentifier\<close> cannot leave the place where it is written:
  scanning it from unquoted text ends in unquoted text (every quote it opens it closes), the characters
  outside quotes are identifier characters and dots, and it is not empty.\<close>

theorem identifier_stays_in_place:
  assumes "IsIdentifier s"
  shows "s \<noteq> [] \<and> fst (sql_scan None s) = None \<and>
    list_all (\<lambda>c. ident_char c \<or> c = CHR ''.'') (snd (sql_scan None s))"
  using identifier_scan [OF assms] IsIdentifier_not_Nil [OF assms] by simp

theorem identifier_stays_in_place_witness:
  "IsIdentifier ''public.[order].total'' \<and>
   snd (sql_scan None ''public.[order].total'') = ''public..total'' \<and>
   fst (sql_scan None ''public.[order].total'') = None"
proof -
  have i: "IsIdentifier ''public.[order].total''" by code_simp
  show ?thesis using identifier_stays_in_place [OF i] i by simp
qed

text \<open>\<^verbatim>\<open>SortDirection\<close> writes one of the six sort keywords whatever it is given, leaves
  such a keyword as it is, and falls back to \<open>ASC\<close> on everything \<^verbatim>\<open>IsSortDirection\<close>
  refuses.\<close>

theorem sort_direction_is_keyword:
  "SortDirection d \<in> set sort_directions \<and> SortDirection (SortDirection d) = SortDirection d \<and>
   (IsSortDirection d \<or> SortDirection d = ''ASC'')"
  using SortDirection_range [of d] SortDirection_fixed
  by (auto simp: IsSortDirection_def SortDirection_def split: option.splits)

end
