(* ===== verification/Transport.thy ===== *)
theory Transport
  imports Full_Text
begin

text \<open>
  The transport policy of \<^verbatim>\<open>gofi/config/core/transport.go\<close>: which connections the
  environment reports as insecure and which of them a production start refuses. URL and IP parsing
  of the standard library enter as the two functions of \<open>net_env\<close>; everything else is
  written out.
\<close>

section \<open>The environment\<close>

text \<open>The fields of \<^verbatim>\<open>environment.Environment\<close> the policy and the components read.\<close>

record environment =
  AppName :: string
  AppEnvironment :: string
  CacheType :: string
  CacheURI :: string
  CacheUseTLS :: bool
  TLSInsecureSkipVerify :: bool
  BucketProvider :: string
  BucketEndpoint :: string
  BucketS3UseSSL :: bool
  HTTPRequireTLS :: bool
  HTTPTLSCertFile :: string
  GRPCRequireTLS :: bool
  AllowInsecureTransport :: string

text \<open>
  \<open>url_host a\<close> is the host of \<^verbatim>\<open>url.Parse(a)\<close> when it parses;
  \<open>ip_loopback h\<close> says that \<^verbatim>\<open>net.ParseIP(h)\<close> is a loopback address.
\<close>

record net_env =
  url_host :: "string \<Rightarrow> string option"
  ip_loopback :: "string \<Rightarrow> bool"

definition ENV_PROD :: string where "ENV_PROD = ''prod''"
definition ENV_STAGE :: string where "ENV_STAGE = ''stage''"
definition REDIS_CACHE :: string where "REDIS_CACHE = ''redis''"
definition OCI_CACHE :: string where "OCI_CACHE = ''oci''"

definition isGuarded :: "environment \<Rightarrow> bool" where
  "isGuarded env \<longleftrightarrow> AppEnvironment env = ENV_PROD \<or> AppEnvironment env = ENV_STAGE"

section \<open>Addresses\<close>

definition simple_fold :: "rune \<Rightarrow> rune" where
  "simple_fold r = (if r = 8490 then 75 else upper_rune r)"

text \<open>\<^verbatim>\<open>strings.EqualFold\<close> against an ASCII word.\<close>

definition EqualFold :: "string \<Rightarrow> string \<Rightarrow> bool" where
  "EqualFold s w \<longleftrightarrow> map simple_fold (runes s) = map simple_fold (runes w)"

text \<open>The host of \<^verbatim>\<open>net.SplitHostPort\<close>, \<open>None\<close> when it reports an error.\<close>

definition SplitHostPort :: "string \<Rightarrow> string option" where
  "SplitHostPort s =
     (case cut (CHR '':'') (rev s) of
        None \<Rightarrow> None
      | Some (rport, rhost) \<Rightarrow>
          if take 1 s = ''['' then
            (case cut (CHR '']'') s of
               None \<Rightarrow> None
             | Some (a, b) \<Rightarrow>
                 if length a + 1 \<noteq> length rhost \<or> CHR ''['' \<in> set (drop 1 s) \<or> CHR '']'' \<in> set b then None
                 else Some (drop 1 a))
          else if CHR '':'' \<in> set rhost \<or> CHR ''['' \<in> set s \<or> CHR '']'' \<in> set s then None
          else Some (rev rhost))"

definition TrimPrefix :: "string \<Rightarrow> string \<Rightarrow> string" where
  "TrimPrefix s p = (if take (length p) s = p then drop (length p) s else s)"

definition TrimSuffix :: "string \<Rightarrow> string \<Rightarrow> string" where
  "TrimSuffix s p = rev (TrimPrefix (rev s) (rev p))"

definition hostOf :: "net_env \<Rightarrow> string \<Rightarrow> string" where
  "hostOf net uri = (case url_host net uri of Some h \<Rightarrow> if h \<noteq> [] then h else uri | None \<Rightarrow> uri)"

definition IsLoopback :: "net_env \<Rightarrow> string \<Rightarrow> bool" where
  "IsLoopback net addr =
     (let host = hostOf net addr;
          host = (case SplitHostPort host of Some h \<Rightarrow> h | None \<Rightarrow> host);
          host = TrimSuffix (TrimPrefix host ''['') '']''
      in host = [] \<or> EqualFold host ''localhost'' \<or> ip_loopback net host)"

section \<open>Reports\<close>

record insecure_transport =
  Resource :: string
  Setting :: string
  Detail :: string

definition ResourceCache :: string where "ResourceCache = ''cache''"
definition ResourceOTLP :: string where "ResourceOTLP = ''otlp''"
definition ResourceBucket :: string where "ResourceBucket = ''bucket''"
definition ResourceTLS :: string where "ResourceTLS = ''tls''"
definition ResourceHTTP :: string where "ResourceHTTP = ''http''"
definition ResourceGRPC :: string where "ResourceGRPC = ''grpc''"
definition AllowAll :: string where "AllowAll = ''all''"

fun cut_scheme :: "string \<Rightarrow> string option" where
  "cut_scheme [] = None"
| "cut_scheme (c # s) =
     (if take 3 (c # s) = ''://'' then Some [] else map_option ((#) c) (cut_scheme s))"

definition bucketOverHTTP :: "net_env \<Rightarrow> environment \<Rightarrow> bool" where
  "bucketOverHTTP net env =
     (if BucketProvider env \<noteq> ''s3'' \<and> BucketProvider env \<noteq> ''minio'' then False
      else let ep = BucketEndpoint env
        in if ep = [] \<or> IsLoopback net ep then False
           else case cut_scheme ep of
             Some scheme \<Rightarrow> EqualFold scheme ''http''
           | None \<Rightarrow> \<not> BucketS3UseSSL env)"

definition InsecureTransports :: "net_env \<Rightarrow> environment \<Rightarrow> insecure_transport list" where
  "InsecureTransports net env =
     (if TLSInsecureSkipVerify env
      then [\<lparr>Resource = ResourceTLS, Setting = ''TLS_INSECURE_SKIP_VERIFY'',
             Detail = ''certificate verification is disabled''\<rparr>] else []) @
     (if bucketOverHTTP net env
      then [\<lparr>Resource = ResourceBucket, Setting = ''BUCKET_ENDPOINT / BUCKET_S3_USE_SSL'',
             Detail = ''endpoint '' @ hostOf net (BucketEndpoint env) @ '' uses http''\<rparr>] else [])"

definition InsecureCache :: "net_env \<Rightarrow> environment \<Rightarrow> insecure_transport list" where
  "InsecureCache net env =
     (if CacheUseTLS env \<or> IsLoopback net (CacheURI env) then []
      else [\<lparr>Resource = ResourceCache, Setting = ''CACHE_USE_TLS'',
             Detail = ''redis '' @ hostOf net (CacheURI env) @ '' without TLS''\<rparr>])"

definition InsecureHTTP :: "environment \<Rightarrow> bool \<Rightarrow> insecure_transport list" where
  "InsecureHTTP env tlsEnabled =
     (if tlsEnabled then []
      else if HTTPRequireTLS env
      then [\<lparr>Resource = ResourceHTTP, Setting = ''HTTP_TLS_CERT_FILE / HTTP_TLS_KEY_FILE'',
             Detail = ''HTTP server without TLS''\<rparr>]
      else [])"

definition InsecureGRPC :: "environment \<Rightarrow> bool \<Rightarrow> insecure_transport list" where
  "InsecureGRPC env tlsEnabled =
     (if tlsEnabled then []
      else if GRPCRequireTLS env
      then [\<lparr>Resource = ResourceGRPC, Setting = ''GRPC_TLS_CERT_FILE / GRPC_TLS_KEY_FILE'',
             Detail = ''gRPC server without TLS''\<rparr>]
      else [])"

section \<open>The refusal\<close>

definition allowedResources :: "text_env \<Rightarrow> string \<Rightarrow> string list" where
  "allowedResources tenv csv =
     filter (\<lambda>v. v \<noteq> []) (map (\<lambda>p. ToLower tenv (TrimSpace p)) (split_on (CHR '','') csv))"

text \<open>The loop over the reports: the refused and the allowed (logged) ones, each report once.\<close>

fun check_found ::
  "string list \<Rightarrow> insecure_transport list \<Rightarrow> insecure_transport list \<Rightarrow>
   insecure_transport list \<times> insecure_transport list" where
  "check_found allowed seen [] = ([], [])"
| "check_found allowed seen (it # found) =
     (if it \<in> set seen then check_found allowed seen found
      else case check_found allowed (seen @ [it]) found of
        (refused, warned) \<Rightarrow>
          if Resource it \<in> set allowed \<or> AllowAll \<in> set allowed then (refused, it # warned)
          else (it # refused, warned))"

definition CheckTransport ::
  "text_env \<Rightarrow> environment \<Rightarrow> insecure_transport list \<Rightarrow> insecure_transport list \<times> insecure_transport list" where
  "CheckTransport tenv env found =
     (if \<not> isGuarded env then ([], [])
      else check_found (allowedResources tenv (AllowInsecureTransport env)) [] found)"

section \<open>What the policy decides\<close>

lemma check_found_parts:
  "x \<in> set (fst (check_found allowed seen found)) \<longleftrightarrow>
     x \<in> set found \<and> x \<notin> set seen \<and> Resource x \<notin> set allowed \<and> AllowAll \<notin> set allowed"
  "x \<in> set (snd (check_found allowed seen found)) \<longleftrightarrow>
     x \<in> set found \<and> x \<notin> set seen \<and> (Resource x \<in> set allowed \<or> AllowAll \<in> set allowed)"
proof (induction allowed seen found rule: check_found.induct)
  case (2 allowed seen it found)
  { case 1 show ?case using 2 by (cases "x = it") (simp_all add: split_beta) }
  { case 2 show ?case using "2.IH" by (cases "x = it") (simp_all add: split_beta) }
qed simp_all

lemma check_found_distinct:
  "distinct (fst (check_found allowed seen found) @ snd (check_found allowed seen found))"
proof (induction allowed seen found rule: check_found.induct)
  case (2 allowed seen it found)
  moreover have "it \<notin> set (fst (check_found allowed (seen @ [it]) found))"
    "it \<notin> set (snd (check_found allowed (seen @ [it]) found))"
    by (simp_all add: check_found_parts)
  ultimately show ?case by (auto split: prod.splits)
qed simp

lemma CheckTransport_refused:
  "it \<in> set (fst (CheckTransport tenv env found)) \<longleftrightarrow>
     isGuarded env \<and> it \<in> set found \<and>
     Resource it \<notin> set (allowedResources tenv (AllowInsecureTransport env)) \<and>
     AllowAll \<notin> set (allowedResources tenv (AllowInsecureTransport env))"
  by (simp add: CheckTransport_def check_found_parts)

end
