(* ===== verification/Lifecycle.thy ===== *)
theory Lifecycle
  imports Transport "HOL-Library.Multiset"
begin

text \<open>
  The service builder of package \<^verbatim>\<open>gofi\<close>: the runtime handed to the components
  (\<^verbatim>\<open>runtime.go\<close>), \<^verbatim>\<open>With\<close> and \<^verbatim>\<open>Build\<close>
  (\<^verbatim>\<open>builder.go\<close>), the collection of the runners' results and the shutdown protocol
  (\<^verbatim>\<open>service.go\<close>). A component is a record of functions over an arbitrary world
  \<open>'w\<close>, which it reads and changes when it starts, is closed or is checked.
\<close>

type_synonym go_error = string

section \<open>Runtime\<close>

type_synonym 'w closer = "'w \<Rightarrow> go_error option \<times> 'w"

record 'w health_check =
  hc_Name :: string
  hc_Check :: "'w closer"

record ('w, 'v) runtime =
  rt_env :: environment
  rt_closers :: "'w closer list"
  rt_health :: "'w health_check list"
  rt_shared :: "string \<rightharpoonup> 'v"

definition NewRuntime :: "environment \<Rightarrow> ('w, 'v) runtime" where
  "NewRuntime env = \<lparr>rt_env = env, rt_closers = [], rt_health = [], rt_shared = Map.empty\<rparr>"

definition OnClose :: "'w closer \<Rightarrow> ('w, 'v) runtime \<Rightarrow> ('w, 'v) runtime" where
  "OnClose f rt = rt\<lparr>rt_closers := rt_closers rt @ [f]\<rparr>"

definition AddHealthCheck :: "string \<Rightarrow> 'w closer \<Rightarrow> ('w, 'v) runtime \<Rightarrow> ('w, 'v) runtime" where
  "AddHealthCheck name check rt =
     rt\<lparr>rt_health := rt_health rt @ [\<lparr>hc_Name = name, hc_Check = check\<rparr>]\<rparr>"

text \<open>A function of the code that may fail and change the runtime and the world.\<close>

type_synonym ('w, 'v, 'a) rt_op =
  "('w, 'v) runtime \<Rightarrow> 'w \<Rightarrow> (go_error, 'a) result \<times> ('w, 'v) runtime \<times> 'w"

definition Shared :: "string \<Rightarrow> ('w, 'v, 'v) rt_op \<Rightarrow> ('w, 'v, 'v) rt_op" where
  "Shared key opener rt w =
     (case rt_shared rt key of
        Some v \<Rightarrow> (Ok v, rt, w)
      | None \<Rightarrow>
          (case opener rt w of
             (Inl e, rt1, w1) \<Rightarrow> (Err e, rt1, w1)
           | (Inr v, rt1, w1) \<Rightarrow> (Ok v, rt1\<lparr>rt_shared := (rt_shared rt1)(key \<mapsto> v)\<rparr>, w1)))"

fun run_closers :: "'w closer list \<Rightarrow> 'w \<Rightarrow> go_error option list \<times> 'w" where
  "run_closers [] w = ([], w)"
| "run_closers (f # fs) w =
     (let (e, w1) = f w; (es, w2) = run_closers fs w1 in (e # es, w2))"

definition rt_Close :: "('w, 'v) runtime \<Rightarrow> 'w \<Rightarrow> go_error list \<times> ('w, 'v) runtime \<times> 'w" where
  "rt_Close rt w =
     (let (es, w1) = run_closers (rev (rt_closers rt)) w
      in (errors_join es, rt\<lparr>rt_closers := []\<rparr>, w1))"

section \<open>Components\<close>

definition StageObservability :: int where "StageObservability = 100"
definition StageDatabase :: int where "StageDatabase = 200"
definition StageCache :: int where "StageCache = 300"
definition StageSession :: int where "StageSession = 400"
definition StageMessaging :: int where "StageMessaging = 500"
definition StageIAM :: int where "StageIAM = 600"
definition StageServer :: int where "StageServer = 900"

text \<open>
  \<^verbatim>\<open>Component\<close>, with the optional interfaces \<^verbatim>\<open>Runner\<close> and
  \<^verbatim>\<open>TransportChecker\<close> the type assertions of the builder look for.
\<close>

record ('w, 'v) component =
  c_Name :: string
  c_Stage :: int
  c_Start :: "('w, 'v, unit) rt_op"
  c_Runner :: bool
  c_Transports :: "(environment \<Rightarrow> insecure_transport list) option"

datatype gofi_error =
  ErrNilComponent
| ErrAlreadyBuilt
| ErrEnvironment go_error
| ErrTimezone go_error
| ErrLogging go_error
| ErrInsecureTransport insecure_transport
| ErrStart string go_error
| ErrClose go_error
| ErrRun go_error
| ErrStopTimeout

record ('w, 'v) gofiInstance =
  serviceName :: string
  g_env :: "environment option"
  components :: "('w, 'v) component list"
  runners :: "('w, 'v) component list"
  g_rt :: "('w, 'v) runtime option"
  g_errs :: "gofi_error list"
  built :: bool

definition gofi_New :: "string \<Rightarrow> ('w, 'v) gofiInstance" where
  "gofi_New name =
     \<lparr>serviceName = name, g_env = None, components = [], runners = [], g_rt = None, g_errs = [],
      built = False\<rparr>"

fun gofi_With :: "('w, 'v) component option list \<Rightarrow> ('w, 'v) gofiInstance \<Rightarrow> ('w, 'v) gofiInstance" where
  "gofi_With [] g = g"
| "gofi_With (None # cs) g = gofi_With cs (g\<lparr>g_errs := g_errs g @ [ErrNilComponent]\<rparr>)"
| "gofi_With (Some c # cs) g = gofi_With cs (g\<lparr>components := components g @ [c]\<rparr>)"

text \<open>
  What \<^verbatim>\<open>bootstrap\<close> calls outside the package: loading the environment, setting the
  time zone, starting the global logger.
\<close>

record boot_env =
  load_env :: "environment \<times> go_error option"
  set_timezone :: "environment \<Rightarrow> go_error option"
  init_logging :: "environment \<Rightarrow> go_error option"

definition bootstrap ::
  "boot_env \<Rightarrow> ('w, 'v) gofiInstance \<Rightarrow> gofi_error list \<times> environment \<times> ('w, 'v) gofiInstance" where
  "bootstrap boot g =
     (let (env, load_err) = (case g_env g of Some env \<Rightarrow> (env, None) | None \<Rightarrow> load_env boot);
          env = (if serviceName g \<noteq> [] then env\<lparr>AppName := serviceName g\<rparr> else env)
      in (errors_join
            [map_option ErrEnvironment load_err, map_option ErrTimezone (set_timezone boot env),
             map_option ErrLogging (init_logging boot env)],
          env, g\<lparr>g_env := Some env\<rparr>))"

definition transport_reports ::
  "net_env \<Rightarrow> environment \<Rightarrow> ('w, 'v) component list \<Rightarrow> insecure_transport list" where
  "transport_reports net env cs =
     InsecureTransports net env @
     concat (map (\<lambda>c. case c_Transports c of Some f \<Rightarrow> f env | None \<Rightarrow> []) cs)"

definition checkTransport ::
  "text_env \<Rightarrow> net_env \<Rightarrow> environment \<Rightarrow> ('w, 'v) component list \<Rightarrow> gofi_error list" where
  "checkTransport tenv net env cs =
     map ErrInsecureTransport (fst (CheckTransport tenv env (transport_reports net env cs)))"

text \<open>The start order: \<^verbatim>\<open>slices.SortStableFunc\<close> by stage.\<close>

definition start_order :: "('w, 'v) component list \<Rightarrow> ('w, 'v) component list" where
  "start_order cs = sort_key c_Stage cs"

text \<open>The start loop: the failed component, if any, and the runners appended so far.\<close>

fun start_all ::
  "('w, 'v) component list \<Rightarrow> ('w, 'v) runtime \<Rightarrow> 'w \<Rightarrow>
   (string \<times> go_error) option \<times> ('w, 'v) component list \<times> ('w, 'v) runtime \<times> 'w" where
  "start_all [] rt w = (None, [], rt, w)"
| "start_all (c # cs) rt w =
     (case c_Start c rt w of
        (Inl e, rt1, w1) \<Rightarrow> (Some (c_Name c, e), [], rt1, w1)
      | (Inr _, rt1, w1) \<Rightarrow>
          (case start_all cs rt1 w1 of
             (failed, rs, rt2, w2) \<Rightarrow> (failed, (if c_Runner c then c # rs else rs), rt2, w2)))"

definition gofi_Build ::
  "text_env \<Rightarrow> net_env \<Rightarrow> boot_env \<Rightarrow> ('w, 'v) gofiInstance \<Rightarrow> 'w \<Rightarrow>
   (gofi_error list, unit) result \<times> ('w, 'v) gofiInstance \<times> 'w" where
  "gofi_Build tenv net boot g w =
     (if built g then (Err [ErrAlreadyBuilt], g, w)
      else if g_errs g \<noteq> [] then (Err (g_errs g), g, w)
      else
        (let (boot_errs, env, g1) = bootstrap boot g;
             errs = boot_errs @ checkTransport tenv net env (components g)
         in if errs \<noteq> [] then (Err errs, g1, w)
            else
              (case start_all (start_order (components g)) (NewRuntime env) w of
                 (Some (name, e), rs, rt, w1) \<Rightarrow>
                   (let (close_errs, rt1, w2) = rt_Close rt w1
                    in (Err (ErrStart name e # map ErrClose close_errs),
                        g1\<lparr>g_rt := Some rt1, runners := runners g @ rs\<rparr>, w2))
               | (None, rs, rt, w1) \<Rightarrow>
                   (Ok (), g1\<lparr>g_rt := Some rt, runners := runners g @ rs, built := True\<rparr>, w1))))"

section \<open>Collecting the results of the runners\<close>

text \<open>
  \<^verbatim>\<open>run\<close>, given what its channel operations deliver: the result received before the
  signal (if any), the results of the \<^verbatim>\<open>Stop\<close> calls, and the results received before the
  stop timeout.
\<close>

fun collect_results :: "nat \<Rightarrow> go_error option list \<Rightarrow> gofi_error list" where
  "collect_results 0 rs = []"
| "collect_results (Suc pending) [] = [ErrStopTimeout]"
| "collect_results (Suc pending) (r # rs) =
     errors_join [map_option ErrRun r] @ collect_results pending rs"

definition run_runners ::
  "nat \<Rightarrow> go_error option option \<Rightarrow> go_error option list \<Rightarrow> go_error option list \<Rightarrow> gofi_error list" where
  "run_runners n first stops later =
     (case first of
        Some r \<Rightarrow> errors_join [map_option ErrRun r]
      | None \<Rightarrow> []) @
     errors_join (map (map_option ErrRun) stops) @
     collect_results (case first of Some _ \<Rightarrow> n - 1 | None \<Rightarrow> n) later"

text \<open>\<^verbatim>\<open>closeResources\<close>: the owned resources, then the logger.\<close>

definition closeResources ::
  "('w \<Rightarrow> go_error option \<times> 'w) \<Rightarrow> ('w, 'v) gofiInstance \<Rightarrow> 'w \<Rightarrow>
   gofi_error list \<times> ('w, 'v) gofiInstance \<times> 'w" where
  "closeResources stop_logging g w =
     (let (owned, g1, w1) =
        (case g_rt g of
           None \<Rightarrow> ([], g, w)
         | Some rt \<Rightarrow> (let (es, rt1, w1) = rt_Close rt w in (es, g\<lparr>g_rt := Some rt1\<rparr>, w1)));
          (le, w2) = stop_logging w1
      in (map ErrClose (owned @ errors_join [le]), g1, w2))"

end
