(* ===== verification/Components.thy ===== *)
theory Components
  imports Lifecycle
begin

text \<open>
  The contract between the builder and a component, and two components that meet it: the cache
  (\<^verbatim>\<open>gofi/component/cache\<close>) and the session (\<^verbatim>\<open>gofi/component/session\<close>)
  components, over the process-wide Redis client of \<^verbatim>\<open>sqln/cache/cache_redis.go\<close>. The
  Redis client library enters as the record \<open>redis_lib\<close>.
\<close>

section \<open>The process-wide Redis client\<close>

record shared_client =
  sh_client :: nat
  sh_owned :: bool
  sh_closed :: bool
  sh_closeErr :: "go_error option"

record cache_config =
  cf_URI :: string
  cf_TLS :: bool
  cf_Prefix :: string

text \<open>
  \<open>w_current\<close> is the package variable \<^verbatim>\<open>current\<close>; \<open>w_dialled\<close> counts the clients
  created so far, the next one's identity; \<open>w_session\<close> is the client of the installed session
  driver.
\<close>

record cache_world =
  w_current :: "shared_client option"
  w_dialled :: nat
  w_cfg :: cache_config
  w_session :: "nat option"

record redis_lib =
  redis_Ping :: "nat \<Rightarrow> go_error option"
  redis_CloseResult :: "nat \<Rightarrow> go_error option"

definition InstanceRedis :: "cache_world \<Rightarrow> nat \<times> cache_world" where
  "InstanceRedis w =
     (case w_current w of
        Some s \<Rightarrow> (sh_client s, w)
      | None \<Rightarrow>
          (w_dialled w,
           w\<lparr>w_current := Some \<lparr>sh_client = w_dialled w, sh_owned = True, sh_closed = False, sh_closeErr = None\<rparr>,
             w_dialled := Suc (w_dialled w)\<rparr>))"

definition UseClient :: "nat option \<Rightarrow> cache_world \<Rightarrow> cache_world" where
  "UseClient client w =
     w\<lparr>w_current := map_option (\<lambda>c. \<lparr>sh_client = c, sh_owned = False, sh_closed = False, sh_closeErr = None\<rparr>) client\<rparr>"

definition cache_Ping :: "redis_lib \<Rightarrow> cache_world \<Rightarrow> go_error option \<times> cache_world" where
  "cache_Ping lib w = (let (client, w1) = InstanceRedis w in (redis_Ping lib client, w1))"

definition cache_Close :: "redis_lib \<Rightarrow> cache_world \<Rightarrow> go_error option \<times> cache_world" where
  "cache_Close lib w =
     (case w_current w of
        None \<Rightarrow> (None, w)
      | Some s \<Rightarrow>
          if \<not> sh_owned s then (None, w)
          else if sh_closed s then (sh_closeErr s, w)
          else (let e = redis_CloseResult lib (sh_client s)
                in (e, w\<lparr>w_current := Some (s\<lparr>sh_closed := True, sh_closeErr := e\<rparr>)\<rparr>)))"

definition Configure :: "environment \<Rightarrow> cache_world \<Rightarrow> cache_world" where
  "Configure env w =
     w\<lparr>w_cfg := \<lparr>cf_URI = CacheURI env, cf_TLS = CacheUseTLS env, cf_Prefix = AppName env\<rparr>\<rparr>"

section \<open>The cache component\<close>

definition sharedKey :: string where "sharedKey = ''gofi/component/cache.redis''"

definition cache_open :: "redis_lib \<Rightarrow> (cache_world, nat, nat) rt_op" where
  "cache_open lib rt w =
     (case cache_Ping lib (Configure (rt_env rt) w) of
        (Some e, w1) \<Rightarrow> (Err (''redis '' @ CacheURI (rt_env rt) @ '': '' @ e), rt, w1)
      | (None, w1) \<Rightarrow>
          (let (client, w2) = InstanceRedis w1
           in (Ok client,
               AddHealthCheck ''cache'' (\<lambda>w. (redis_Ping lib client, w)) (OnClose (cache_Close lib) rt),
               w2)))"

definition cache_Shared :: "redis_lib \<Rightarrow> (cache_world, nat, nat) rt_op" where
  "cache_Shared lib = Shared sharedKey (cache_open lib)"

definition share_injected :: "redis_lib \<Rightarrow> nat \<Rightarrow> (cache_world, nat, nat) rt_op" where
  "share_injected lib client =
     Shared sharedKey
       (\<lambda>rt w. (Ok client, AddHealthCheck ''cache'' (\<lambda>w. (redis_Ping lib client, w)) rt, w))"

definition discard :: "('w, 'v, 'a) rt_op \<Rightarrow> ('w, 'v, unit) rt_op" where
  "discard f rt w = (case f rt w of (r, rt1, w1) \<Rightarrow> (map_sum id (\<lambda>_. ()) r, rt1, w1))"

text \<open>
  \<open>injected\<close> is \<open>None\<close> for \<^verbatim>\<open>New\<close> and \<open>Some client\<close> for
  \<^verbatim>\<open>FromClient(client)\<close>, whose client may be nil.
\<close>

definition cache_Start :: "redis_lib \<Rightarrow> nat option option \<Rightarrow> (cache_world, nat, unit) rt_op" where
  "cache_Start lib injected rt w =
     (let w1 = Configure (rt_env rt) w
      in case injected of
           Some None \<Rightarrow> (Ok (), rt, w1)
         | Some (Some client) \<Rightarrow> discard (share_injected lib client) rt w1
         | None \<Rightarrow> discard (cache_Shared lib) rt w1)"

definition cache_component :: "redis_lib \<Rightarrow> net_env \<Rightarrow> nat option option \<Rightarrow> (cache_world, nat) component" where
  "cache_component lib net injected =
     \<lparr>c_Name = ''cache'', c_Stage = StageCache, c_Start = cache_Start lib injected, c_Runner = False,
      c_Transports = Some (\<lambda>env. if injected \<noteq> None then [] else InsecureCache net env)\<rparr>"

section \<open>The session component\<close>

definition session_Start :: "redis_lib \<Rightarrow> (cache_world, nat, unit) rt_op" where
  "session_Start lib rt w =
     (if CacheType (rt_env rt) = REDIS_CACHE then
        (case cache_Shared lib rt w of
           (Inl e, rt1, w1) \<Rightarrow> (Err e, rt1, w1)
         | (Inr client, rt1, w1) \<Rightarrow> (Ok (), rt1, w1\<lparr>w_session := Some client\<rparr>))
      else if CacheType (rt_env rt) = OCI_CACHE then
        (Err ''OCI session driver is not implemented'', rt, w)
      else (Err (''unsupported CACHE_TYPE '' @ CacheType (rt_env rt)), rt, w))"

definition session_component :: "redis_lib \<Rightarrow> net_env \<Rightarrow> (cache_world, nat) component" where
  "session_component lib net =
     \<lparr>c_Name = ''session'', c_Stage = StageSession, c_Start = session_Start lib, c_Runner = False,
      c_Transports = Some (\<lambda>env. if CacheType env \<noteq> REDIS_CACHE then [] else InsecureCache net env)\<rparr>"

section \<open>The contract of a start\<close>

text \<open>
  What the builder relies on: a start, whether it succeeds or fails, keeps the environment and only
  adds closers, health checks and shared values, so that the closers registered earlier are still
  there, in their order, when a later start fails.
\<close>

locale start_contract =
  fixes start :: "('w, 'v, 'a) rt_op"
  assumes keeps_env: "start rt w = (r, rt1, w1) \<Longrightarrow> rt_env rt1 = rt_env rt"
    and adds_closers: "start rt w = (r, rt1, w1) \<Longrightarrow> prefix (rt_closers rt) (rt_closers rt1)"
    and adds_health: "start rt w = (r, rt1, w1) \<Longrightarrow> prefix (rt_health rt) (rt_health rt1)"
    and adds_shared: "start rt w = (r, rt1, w1) \<Longrightarrow> rt_shared rt \<subseteq>\<^sub>m rt_shared rt1"
begin

lemma discard_contract: "start_contract (discard start)"
  by unfold_locales
    (auto simp: discard_def split: prod.splits dest: keeps_env adds_closers adds_health adds_shared)

end

lemma start_contractI:
  assumes "\<And>rt w. rt_env (fst (snd (start rt w))) = rt_env rt"
    "\<And>rt w. prefix (rt_closers rt) (rt_closers (fst (snd (start rt w))))"
    "\<And>rt w. prefix (rt_health rt) (rt_health (fst (snd (start rt w))))"
    "\<And>rt w. rt_shared rt \<subseteq>\<^sub>m rt_shared (fst (snd (start rt w)))"
  shows "start_contract start"
proof (unfold_locales, goal_cases)
  case (1 rt w r rt1 w1) then show ?case using assms(1) [of rt w] by simp
next
  case (2 rt w r rt1 w1) then show ?case using assms(2) [of rt w] by simp
next
  case (3 rt w r rt1 w1) then show ?case using assms(3) [of rt w] by simp
next
  case (4 rt w r rt1 w1) then show ?case using assms(4) [of rt w] by simp
qed

lemma Shared_contract:
  assumes c: "start_contract opener"
    and same: "\<And>rt w. rt_shared (fst (snd (opener rt w))) = rt_shared rt"
  shows "start_contract (Shared key opener)"
proof -
  note laws = start_contract.keeps_env [OF c] start_contract.adds_closers [OF c] start_contract.adds_health [OF c]
  show ?thesis
  proof (rule start_contractI, goal_cases)
    case (1 rt w)
    obtain r rt1 w1 where "opener rt w = (r, rt1, w1)" by (cases "opener rt w")
    with laws(1) [OF this] show ?case by (auto simp: Shared_def split: option.split sum.split)
  next
    case (2 rt w)
    obtain r rt1 w1 where "opener rt w = (r, rt1, w1)" by (cases "opener rt w")
    with laws(2) [OF this] show ?case by (auto simp: Shared_def split: option.split sum.split)
  next
    case (3 rt w)
    obtain r rt1 w1 where "opener rt w = (r, rt1, w1)" by (cases "opener rt w")
    with laws(3) [OF this] show ?case by (auto simp: Shared_def split: option.split sum.split)
  next
    case (4 rt w)
    obtain r rt1 w1 where "opener rt w = (r, rt1, w1)" by (cases "opener rt w")
    with same [of rt w] show ?case
      by (auto simp: Shared_def map_le_def split: option.split sum.split)
  qed
qed

lemma cache_open_shared: "rt_shared (fst (snd (cache_open lib rt w))) = rt_shared rt"
  by (simp add: cache_open_def AddHealthCheck_def OnClose_def split: prod.split option.split)

interpretation cache_dial: start_contract "cache_open lib"
  by (rule start_contractI)
    (auto simp: cache_open_def AddHealthCheck_def OnClose_def split: prod.split option.split)

interpretation cache_client: start_contract "cache_Shared lib"
  unfolding cache_Shared_def by (rule Shared_contract) (rule cache_dial.start_contract_axioms cache_open_shared)+

interpretation injected_client: start_contract "share_injected lib client"
  unfolding share_injected_def
  by (rule Shared_contract [OF start_contractI]) (auto simp: AddHealthCheck_def)

lemma start_contract_world:
  assumes "start_contract f" shows "start_contract (\<lambda>rt w. f rt (u rt w))"
proof -
  note laws = start_contract.keeps_env [OF assms] start_contract.adds_closers [OF assms]
    start_contract.adds_health [OF assms] start_contract.adds_shared [OF assms]
  show ?thesis by unfold_locales (auto dest: laws)
qed

interpretation cache_start: start_contract "cache_Start lib injected"
proof (cases injected)
  case None
  have "cache_Start lib None = (\<lambda>rt w. discard (cache_Shared lib) rt (Configure (rt_env rt) w))"
    by (simp add: cache_Start_def fun_eq_iff)
  then show "start_contract (cache_Start lib injected)"
    unfolding None by (simp only: start_contract_world [OF cache_client.discard_contract])
next
  case (Some client)
  show "start_contract (cache_Start lib injected)"
  proof (cases client)
    case None
    with Some show ?thesis by (intro start_contractI) (simp_all add: cache_Start_def)
  next
    case (Some c)
    have "cache_Start lib (Some (Some c)) = (\<lambda>rt w. discard (share_injected lib c) rt (Configure (rt_env rt) w))"
      by (simp add: cache_Start_def fun_eq_iff)
    then show ?thesis
      unfolding \<open>injected = Some client\<close> Some
      by (simp only: start_contract_world [OF injected_client.discard_contract])
  qed
qed

interpretation session_start: start_contract "session_Start lib"
proof (unfold_locales, goal_cases)
  case (1 rt w r rt1 w1) then show ?case
    by (auto simp: session_Start_def split: if_splits prod.splits sum.splits dest: cache_client.keeps_env)
next
  case (2 rt w r rt1 w1) then show ?case
    by (auto simp: session_Start_def split: if_splits prod.splits sum.splits dest: cache_client.adds_closers)
next
  case (3 rt w r rt1 w1) then show ?case
    by (auto simp: session_Start_def split: if_splits prod.splits sum.splits dest: cache_client.adds_health)
next
  case (4 rt w r rt1 w1) then show ?case
    by (auto simp: session_Start_def split: if_splits prod.splits sum.splits dest: cache_client.adds_shared)
qed

text \<open>The two components meet the contract.\<close>

lemma component_contracts [simp]:
  "start_contract (c_Start (cache_component lib net injected))"
  "start_contract (c_Start (session_component lib net))"
  by (simp_all add: cache_component_def session_component_def cache_start.start_contract_axioms
      session_start.start_contract_axioms)

end
