(* ===== verification/Lifecycle_Props.thy ===== *)
theory Lifecycle_Props
  imports Components
begin

text \<open>
  What \<^verbatim>\<open>Build\<close> and the components promise each other: the start order, the release of
  everything registered when a start fails, the refusal of insecure transports before anything
  starts, the sharing of one Redis client, and what a second \<^verbatim>\<open>Build\<close> forgets.
\<close>

section \<open>Starting and closing\<close>

lemma start_all_split:
  "start_all cs rt w = (Some (name, e), rs, rt2, w2) \<Longrightarrow>
   \<exists>pre c post rt1 w1. cs = pre @ c # post \<and> start_all pre rt w = (None, filter c_Runner pre, rt1, w1) \<and>
     rs = filter c_Runner pre \<and> c_Name c = name \<and> c_Start c rt1 w1 = (Inl e, rt2, w2)"
proof (induction cs arbitrary: rt w rs)
  case (Cons c cs)
  show ?case
  proof (cases "c_Start c rt w")
    case (fields r rt1 w1)
    show ?thesis
    proof (cases r)
      case (Inl e')
      with Cons.prems fields show ?thesis by (intro exI [of _ "[]"] exI [of _ c] exI [of _ cs]) auto
    next
      case (Inr u)
      with Cons.prems fields obtain rs' where rs':
        "start_all cs rt1 w1 = (Some (name, e), rs', rt2, w2)" "rs = (if c_Runner c then c # rs' else rs')"
        by (auto split: prod.splits)
      from Cons.IH [OF rs'(1)] obtain pre d post rt' w' where
        "cs = pre @ d # post" "start_all pre rt1 w1 = (None, filter c_Runner pre, rt', w')"
        "rs' = filter c_Runner pre" "c_Name d = name" "c_Start d rt' w' = (Inl e, rt2, w2)"
        by blast
      with fields Inr rs'(2) show ?thesis
        by (intro exI [of _ "c # pre"] exI [of _ d] exI [of _ post] exI [of _ rt'] exI [of _ w']) simp
    qed
  qed
qed simp

text \<open>A list of starts that meet the contract meets it as a whole.\<close>

lemma start_all_contract:
  assumes "\<And>c. c \<in> set cs \<Longrightarrow> start_contract (c_Start c)" "start_all cs rt w = (failed, rs, rt1, w1)"
  shows "rt_env rt1 = rt_env rt" "prefix (rt_closers rt) (rt_closers rt1)"
    "prefix (rt_health rt) (rt_health rt1)" "rt_shared rt \<subseteq>\<^sub>m rt_shared rt1"
proof -
  have "rt_env rt1 = rt_env rt \<and> prefix (rt_closers rt) (rt_closers rt1) \<and>
    prefix (rt_health rt) (rt_health rt1) \<and> rt_shared rt \<subseteq>\<^sub>m rt_shared rt1"
    using assms
  proof (induction cs arbitrary: rt w rs)
    case (Cons c cs)
    obtain r rt2 w2 where s: "c_Start c rt w = (r, rt2, w2)" by (cases "c_Start c rt w")
    have c: "start_contract (c_Start c)" using Cons.prems(1) by simp
    note step = start_contract.keeps_env [OF c s] start_contract.adds_closers [OF c s]
      start_contract.adds_health [OF c s] start_contract.adds_shared [OF c s]
    show ?case
    proof (cases r)
      case (Inl e)
      with Cons.prems(2) s step show ?thesis by auto
    next
      case (Inr u)
      with Cons.prems(2) s obtain rs' where "start_all cs rt2 w2 = (failed, rs', rt1, w1)"
        by (auto split: prod.splits)
      from Cons.IH [OF _ this] Cons.prems(1) step show ?thesis
        by (auto intro: prefix_order.trans map_le_trans)
    qed
  qed simp
  then show "rt_env rt1 = rt_env rt" "prefix (rt_closers rt) (rt_closers rt1)"
    "prefix (rt_health rt) (rt_health rt1)" "rt_shared rt \<subseteq>\<^sub>m rt_shared rt1"
    by auto
qed

lemma start_order_stable: "filter (\<lambda>c. c_Stage c = s) (start_order cs) = filter (\<lambda>c. c_Stage c = s) cs"
  unfolding start_order_def by (rule sort_key_stable)

lemma bootstrap_fields:
  "bootstrap boot g = (errs, env, g1) \<Longrightarrow>
     g1 = g\<lparr>g_env := Some env\<rparr> \<and> (g_env g = None \<longrightarrow> AppEnvironment env = AppEnvironment (fst (load_env boot)))"
  by (auto simp: bootstrap_def Let_def split: prod.splits if_splits)

lemma gofi_Build_failed_start:
  assumes "gofi_Build tenv net boot g w = (Err es, g1, w2)" "es = ErrStart name e # rest"
    "built g = False" "g_errs g = []"
  shows "\<exists>env g0 rs rt w1 ces. bootstrap boot g = ([], env, g0) \<and>
     checkTransport tenv net env (components g) = [] \<and>
     start_all (start_order (components g)) (NewRuntime env) w = (Some (name, e), rs, rt, w1) \<and>
     run_closers (rev (rt_closers rt)) w1 = (ces, w2) \<and> rest = map ErrClose (errors_join ces) \<and>
     g1 = g0\<lparr>g_rt := Some (rt\<lparr>rt_closers := []\<rparr>), runners := runners g @ rs\<rparr>"
proof -
  obtain berrs env g0 where b: "bootstrap boot g = (berrs, env, g0)" by (cases "bootstrap boot g")
  have nb: "ErrStart name e \<notin> set berrs"
    using b by (auto simp: bootstrap_def Let_def split: prod.splits option.splits)
  have nt: "ErrStart name e \<notin> set (checkTransport tenv net env (components g))"
    by (auto simp: checkTransport_def)
  have none: "berrs @ checkTransport tenv net env (components g) = []"
  proof (rule ccontr)
    assume "berrs @ checkTransport tenv net env (components g) \<noteq> []"
    then have "es = berrs @ checkTransport tenv net env (components g)"
      using assms(1,3,4) b by (simp add: gofi_Build_def Let_def)
    then have "ErrStart name e \<in> set berrs \<union> set (checkTransport tenv net env (components g))"
      using assms(2) by (metis list.set_intros(1) set_append)
    with nb nt show False by blast
  qed
  obtain failed rs rt w1 where s: "start_all (start_order (components g)) (NewRuntime env) w = (failed, rs, rt, w1)"
    by (cases "start_all (start_order (components g)) (NewRuntime env) w")
  obtain ces w3 where r: "run_closers (rev (rt_closers rt)) w1 = (ces, w3)"
    by (cases "run_closers (rev (rt_closers rt)) w1")
  show ?thesis
    using assms b none s r
    by (auto simp: gofi_Build_def Let_def rt_Close_def split: option.splits prod.splits)
qed

lemma start_all_append:
  "start_all (a @ b) rt w =
     (case start_all a rt w of
        (Some f, rs, rt1, w1) \<Rightarrow> (Some f, rs, rt1, w1)
      | (None, rs, rt1, w1) \<Rightarrow>
          (case start_all b rt1 w1 of (f, rs', rt2, w2) \<Rightarrow> (f, rs @ rs', rt2, w2)))"
  by (induction a arbitrary: rt w) (auto split: prod.splits sum.splits option.splits)

abbreviation closers_after :: "('w, 'v) component list \<Rightarrow> environment \<Rightarrow> 'w \<Rightarrow> 'w closer list" where
  "closers_after cs env w \<equiv> rt_closers (fst (snd (snd (start_all cs (NewRuntime env) w))))"

lemma closers_after_take:
  assumes "\<And>c. c \<in> set cs \<Longrightarrow> start_contract (c_Start c)" "start_all cs (NewRuntime env) w = (None, rs, rt1, w1)"
  shows "prefix (closers_after (take k cs) env w) (rt_closers rt1)"
proof -
  obtain f rs2 rt2 w2 where t: "start_all (take k cs) (NewRuntime env) w = (f, rs2, rt2, w2)"
    by (cases "start_all (take k cs) (NewRuntime env) w")
  have all: "start_all (take k cs @ drop k cs) (NewRuntime env) w = (None, rs, rt1, w1)"
    using assms(2) by simp
  then obtain rs3 where "start_all (drop k cs) rt2 w2 = (None, rs3, rt1, w1)"
    unfolding start_all_append t by (auto split: option.splits prod.splits)
  then show ?thesis
    using start_all_contract(2) [of "drop k cs" rt2 w2 None rs3 rt1 w1] assms(1) t
    by (auto dest: in_set_dropD)
qed

section \<open>A concrete service\<close>

definition plain_net :: net_env where
  "plain_net = \<lparr>url_host = (\<lambda>_. None), ip_loopback = (\<lambda>h. h = ''127.0.0.1'')\<rparr>"

definition sample_env :: "string \<Rightarrow> string \<Rightarrow> environment" where
  "sample_env kind cache =
     \<lparr>AppName = ''catalog'', AppEnvironment = kind, CacheType = cache, CacheURI = ''redis.internal:6379'',
      CacheUseTLS = False, TLSInsecureSkipVerify = False, BucketProvider = [], BucketEndpoint = [],
      BucketS3UseSSL = False, HTTPRequireTLS = False, HTTPTLSCertFile = [], GRPCRequireTLS = False,
      AllowInsecureTransport = []\<rparr>"

definition sample_boot :: "environment \<Rightarrow> go_error option \<Rightarrow> boot_env" where
  "sample_boot env e = \<lparr>load_env = (env, e), set_timezone = (\<lambda>_. None), init_logging = (\<lambda>_. None)\<rparr>"

definition sample_world :: cache_world where
  "sample_world =
     \<lparr>w_current = None, w_dialled = 0, w_cfg = \<lparr>cf_URI = [], cf_TLS = False, cf_Prefix = []\<rparr>, w_session = None\<rparr>"

definition redis_up :: redis_lib where
  "redis_up = \<lparr>redis_Ping = (\<lambda>_. None), redis_CloseResult = (\<lambda>_. None)\<rparr>"

definition redis_down :: redis_lib where
  "redis_down = \<lparr>redis_Ping = (\<lambda>_. Some ''connection refused''), redis_CloseResult = (\<lambda>_. None)\<rparr>"

definition sample_service :: "redis_lib \<Rightarrow> (cache_world, nat) gofiInstance" where
  "sample_service lib =
     gofi_With [Some (session_component lib plain_net), Some (cache_component lib plain_net None)]
       (gofi_New ''catalog'')"

lemmas sample_defs =
  sample_service_def gofi_New_def sample_env_def sample_boot_def sample_world_def redis_up_def redis_down_def

lemmas start_defs =
  cache_Start_def session_Start_def cache_Shared_def cache_open_def cache_Ping_def InstanceRedis_def
  Configure_def Shared_def discard_def AddHealthCheck_def OnClose_def NewRuntime_def sharedKey_def

lemma sample_reports: "AppEnvironment env = ''dev'' \<Longrightarrow> checkTransport tenv net env cs = []"
  by (simp add: checkTransport_def CheckTransport_def isGuarded_def ENV_PROD_def ENV_STAGE_def)

section \<open>Properties\<close>

text \<open>\<^verbatim>\<open>Build\<close> starts the components in ascending stage and in declaration order
  within a stage: the start order is sorted by stage, holds every declared component as often as it
  was declared, and keeps the declaration order of the components of each stage.\<close>

theorem build_starts_in_stage_order:
  "sorted (map c_Stage (start_order cs)) \<and> mset (start_order cs) = mset cs \<and>
   filter (\<lambda>c. c_Stage c = s) (start_order cs) = filter (\<lambda>c. c_Stage c = s) cs"
  by (simp add: start_order_def sort_key_stable)

text \<open>C20. A failed start releases everything: when \<^verbatim>\<open>Build\<close> fails because a component
  does not start, the components before it in the start order had all started, every closer registered
  by any of them and by the failed one has run exactly once, in reverse order of registration, their
  errors follow the start error, the closers are forgotten and the service is not built.\<close>

theorem failed_build_closes_everything:
  assumes "\<forall>c \<in> set (components g). start_contract (c_Start c)" "g_errs g = []" "\<not> built g"
    and "gofi_Build tenv net boot g w = (Err (ErrStart name e # rest), g1, w2)"
  shows "\<exists>env pre c post rt1 w1 rt2 w1' errs. start_order (components g) = pre @ c # post \<and>
     start_all pre (NewRuntime env) w = (None, filter c_Runner pre, rt1, w1) \<and>
     c_Name c = name \<and> c_Start c rt1 w1 = (Err e, rt2, w1') \<and>
     (\<forall>k. prefix (closers_after (take k pre) env w) (rt_closers rt2)) \<and>
     run_closers (rev (rt_closers rt2)) w1' = (errs, w2) \<and> rest = map ErrClose (errors_join errs) \<and>
     map_option rt_closers (g_rt g1) = Some [] \<and> \<not> built g1"
proof -
  obtain env g0 rs rt w1' ces where b: "bootstrap boot g = ([], env, g0)"
    and s: "start_all (start_order (components g)) (NewRuntime env) w = (Some (name, e), rs, rt, w1')"
    and r: "run_closers (rev (rt_closers rt)) w1' = (ces, w2)" "rest = map ErrClose (errors_join ces)"
    and g1: "g1 = g0\<lparr>g_rt := Some (rt\<lparr>rt_closers := []\<rparr>), runners := runners g @ rs\<rparr>"
    using gofi_Build_failed_start [OF assms(4) refl] assms(2,3) by auto
  from start_all_split [OF s] obtain pre c post rt1 w1 where
    p: "start_order (components g) = pre @ c # post" "start_all pre (NewRuntime env) w = (None, filter c_Runner pre, rt1, w1)"
       "c_Name c = name" "c_Start c rt1 w1 = (Inl e, rt, w1')"
    by blast
  have contracts: "start_contract (c_Start d)" if "d \<in> set pre \<or> d = c" for d
  proof -
    have "d \<in> set (start_order (components g))" using p(1) that by auto
    then show ?thesis using assms(1) by (simp add: start_order_def)
  qed
  have "prefix (closers_after (take k pre) env w) (rt_closers rt)" for k
    using closers_after_take [OF _ p(2)] contracts start_contract.adds_closers [OF contracts [of c] p(4)]
    by (auto intro: prefix_order.trans)
  moreover have "\<not> built g1" using bootstrap_fields [OF b] g1 assms(3) by simp
  ultimately show ?thesis
    by (intro exI [of _ env] exI [of _ pre] exI [of _ c] exI [of _ post] exI [of _ rt1] exI [of _ w1]
        exI [of _ rt] exI [of _ w1'] exI [of _ ces]) (simp add: p r g1)
qed

lemmas build_eval =
  gofi_Build_def bootstrap_def sample_reports sample_defs start_defs start_order_def StageCache_def
  StageSession_def rt_Close_def cache_Close_def cache_component_def session_component_def
  REDIS_CACHE_def OCI_CACHE_def Let_def

lemma sample_failed_build:
  "gofi_Build ascii_env plain_net (sample_boot (sample_env ''dev'' ''oci'') None) (sample_service redis_up) sample_world =
     (r, g1, w2) \<Longrightarrow>
   r = Err [ErrStart ''session'' ''OCI session driver is not implemented''] \<and>
   map_option sh_closed (w_current w2) = Some True"
  by (auto simp: build_eval)

theorem failed_build_closes_everything_witness:
  "\<exists>g1 w2. gofi_Build ascii_env plain_net (sample_boot (sample_env ''dev'' ''oci'') None)
       (sample_service redis_up) sample_world =
     (Err [ErrStart ''session'' ''OCI session driver is not implemented''], g1, w2) \<and>
   map_option sh_closed (w_current w2) = Some True \<and>
   map_option rt_closers (g_rt g1) = Some []"
proof -
  let ?g = "sample_service redis_up"
  obtain r g1 w2 where b: "gofi_Build ascii_env plain_net (sample_boot (sample_env ''dev'' ''oci'') None)
      ?g sample_world = (r, g1, w2)"
    by (metis prod_cases3)
  note r = sample_failed_build [OF b]
  have h: "\<forall>c \<in> set (components ?g). start_contract (c_Start c)" "g_errs ?g = []" "\<not> built ?g"
    by (simp_all add: sample_service_def gofi_New_def)
  show ?thesis using failed_build_closes_everything [OF h b [unfolded r [THEN conjunct1]]] b r by auto
qed




text \<open>The cache and the session components use one Redis client: after the cache component has
  opened the client, starting the session component with \<^verbatim>\<open>CACHE_TYPE=redis\<close> dials nothing and
  registers nothing, so the runtime holds one closer and one readiness check for it, and the session
  driver gets the same client.\<close>

theorem cache_and_session_share_client:
  assumes "cache_Start lib None rt w = (Ok (), rt1, w1)" "rt_shared rt sharedKey = None"
    and "CacheType (rt_env rt) = REDIS_CACHE"
  shows "\<exists>client. rt_shared rt1 sharedKey = Some client \<and>
     rt_closers rt1 = rt_closers rt @ [cache_Close lib] \<and> length (rt_health rt1) = length (rt_health rt) + 1 \<and>
     session_Start lib rt1 w1 = (Ok (), rt1, w1\<lparr>w_session := Some client\<rparr>)"
proof -
  have env: "rt_env rt1 = rt_env rt" using cache_start.keeps_env [OF assms(1)] .
  obtain e w0 where ping: "cache_Ping lib (Configure (rt_env rt) (Configure (rt_env rt) w)) = (e, w0)"
    by (cases "cache_Ping lib (Configure (rt_env rt) (Configure (rt_env rt) w))")
  obtain client w2 where inst: "InstanceRedis w0 = (client, w2)" by (cases "InstanceRedis w0")
  have e: "e = None"
    using assms(1,2) ping inst
    by (cases e) (simp_all add: cache_Start_def cache_Shared_def Shared_def discard_def cache_open_def)
  have rt1: "rt1 = (AddHealthCheck ''cache'' (\<lambda>w. (redis_Ping lib client, w)) (OnClose (cache_Close lib) rt))
      \<lparr>rt_shared := (rt_shared rt)(sharedKey \<mapsto> client)\<rparr>" "w1 = w2"
    using assms(1,2) ping inst e
    by (simp_all add: cache_Start_def cache_Shared_def Shared_def discard_def cache_open_def
        AddHealthCheck_def OnClose_def)
  show ?thesis
    using assms(3) env
    by (simp add: rt1 session_Start_def cache_Shared_def Shared_def AddHealthCheck_def OnClose_def)
qed

theorem cache_and_session_share_client_witness:
  "\<exists>rt1 w1 client. cache_Start redis_up None (NewRuntime (sample_env ''dev'' ''redis'')) sample_world = (Ok (), rt1, w1) \<and>
     rt_shared rt1 sharedKey = Some client \<and> w_dialled w1 = 1 \<and>
     session_Start redis_up rt1 w1 = (Ok (), rt1, w1\<lparr>w_session := Some client\<rparr>)"
proof -
  let ?rt = "NewRuntime (sample_env ''dev'' ''redis'') :: (cache_world, nat) runtime"
  obtain rt1 w1 where c: "cache_Start redis_up None ?rt sample_world = (Ok (), rt1, w1)" "w_dialled w1 = 1"
    by (simp add: start_defs sample_defs)
  have h: "rt_shared ?rt sharedKey = None" "CacheType (rt_env ?rt) = REDIS_CACHE"
    by (simp_all add: NewRuntime_def sample_env_def REDIS_CACHE_def)
  show ?thesis using cache_and_session_share_client [OF c(1) h] c by blast
qed

lemma collect_results_Nil:
  "collect_results n later = [] \<longleftrightarrow> n \<le> length later \<and> list_all (\<lambda>r. r = None) (take n later)"
  by (induction n later rule: collect_results.induct) (auto split: option.splits)

lemma errors_join_map_Nil: "errors_join (map (map_option f) es) = [] \<longleftrightarrow> list_all (\<lambda>r. r = None) es"
  by (induction es) (auto split: option.splits)

text \<open>\<^verbatim>\<open>run\<close> reports a clean stop exactly when nothing failed: the runner that returned
  first (if one did), every \<^verbatim>\<open>Stop\<close> and every other runner returned nil, and all of them
  returned before the stop timeout.\<close>

theorem run_clean_iff_all_clean:
  "run_runners n first stops later = [] \<longleftrightarrow>
     first \<in> {None, Some None} \<and> list_all (\<lambda>r. r = None) stops \<and>
     (let pending = (if first = None then n else n - 1)
      in pending \<le> length later \<and> list_all (\<lambda>r. r = None) (take pending later))"
  by (cases first) (auto simp: Let_def run_runners_def errors_join_map_Nil collect_results_Nil split: option.splits)

text \<open>A second \<^verbatim>\<open>Build\<close> forgets that the environment did not load: the first call reports
  the load error and starts nothing, but leaves the environment set, so no later call on the same builder
  reports it again.\<close>

theorem rebuild_forgets_load_error:
  assumes "\<not> built g" "g_errs g = []" "g_env g = None" "load_env boot = (env, Some e)"
  shows "\<exists>es g1. gofi_Build tenv net boot g w = (Err es, g1, w) \<and> ErrEnvironment e \<in> set es \<and>
     (\<forall>w' es' g2 w2 x. gofi_Build tenv net boot g1 w' = (Err es', g2, w2) \<longrightarrow> ErrEnvironment x \<notin> set es')"
proof -
  obtain berrs env1 g1 where b: "bootstrap boot g = (berrs, env1, g1)" by (cases "bootstrap boot g")
  then have e: "ErrEnvironment e \<in> set berrs" and g1: "g_env g1 = Some env1" "g_errs g1 = []" "\<not> built g1"
    using assms by (auto simp: bootstrap_def Let_def)
  then have "berrs \<noteq> []" by auto
  with assms b e have first: "gofi_Build tenv net boot g w =
      (Err (berrs @ checkTransport tenv net env1 (components g)), g1, w)"
    by (simp add: gofi_Build_def)
  have "ErrEnvironment x \<notin> set es'" if "gofi_Build tenv net boot g1 w' = (Err es', g2, w2)" for w' es' g2 w2 x
  proof -
    obtain berrs' env2 g3 where b': "bootstrap boot g1 = (berrs', env2, g3)" by (cases "bootstrap boot g1")
    then have "ErrEnvironment x \<notin> set berrs'"
      using g1 by (auto simp: bootstrap_def Let_def split: option.splits)
    moreover have "ErrEnvironment x \<notin> set (checkTransport tenv net env2 (components g1))"
      by (auto simp: checkTransport_def)
    ultimately show ?thesis
      using that g1 b' by (auto simp: gofi_Build_def rt_Close_def split: if_splits prod.splits option.splits)
  qed
  with first e show ?thesis by auto
qed

lemma sample_rebuild:
  "gofi_Build ascii_env plain_net (sample_boot (sample_env ''dev'' ''redis'') (Some ''bad PORT''))
     (sample_service redis_up) sample_world = (Err es, g1, w1) \<Longrightarrow>
   fst (gofi_Build ascii_env plain_net (sample_boot (sample_env ''dev'' ''redis'') (Some ''bad PORT'')) g1 w1) = Ok ()"
  by (auto simp: build_eval)

theorem rebuild_forgets_load_error_witness:
  "\<exists>es g1. gofi_Build ascii_env plain_net (sample_boot (sample_env ''dev'' ''redis'') (Some ''bad PORT''))
       (sample_service redis_up) sample_world = (Err es, g1, sample_world) \<and>
     ErrEnvironment ''bad PORT'' \<in> set es \<and>
     fst (gofi_Build ascii_env plain_net (sample_boot (sample_env ''dev'' ''redis'') (Some ''bad PORT'')) g1 sample_world) = Ok ()"
proof -
  let ?g = "sample_service redis_up" and ?b = "sample_boot (sample_env ''dev'' ''redis'') (Some ''bad PORT'')"
  have h: "\<not> built ?g" "g_errs ?g = []" "g_env ?g = None" "load_env ?b = (sample_env ''dev'' ''redis'', Some ''bad PORT'')"
    by (simp_all add: sample_defs)
  show ?thesis using rebuild_forgets_load_error [OF h, of ascii_env plain_net sample_world] sample_rebuild by blast
qed

text \<open>A \<^verbatim>\<open>Build\<close> that fails because Redis does not answer leaves the client open: the ping
  that creates the shared client comes before its closer is registered, so the cache component's start
  returns the error with an owned, unclosed client and no closer for it.\<close>

theorem unreachable_redis_keeps_client:
  assumes "w_current w = None" "rt_shared rt sharedKey = None" "redis_Ping lib (w_dialled w) = Some e"
  shows "\<exists>err w1 client. cache_Start lib None rt w = (Err err, rt, w1) \<and>
     w_current w1 = Some client \<and> sh_client client = w_dialled w \<and> sh_owned client \<and> \<not> sh_closed client"
  using assms
  by (simp add: cache_Start_def cache_Shared_def Shared_def discard_def cache_open_def cache_Ping_def
      InstanceRedis_def Configure_def)

theorem unreachable_redis_keeps_client_witness:
  "\<exists>err w1 client. cache_Start redis_down None (NewRuntime (sample_env ''dev'' ''redis'')) sample_world =
       (Err err, NewRuntime (sample_env ''dev'' ''redis''), w1) \<and>
     w_current w1 = Some client \<and> \<not> sh_closed client"
  using unreachable_redis_keeps_client [of sample_world "NewRuntime (sample_env ''dev'' ''redis'')" redis_down "''connection refused''"]
  by (auto simp: sample_world_def NewRuntime_def redis_down_def)

end
