(* ===== verification/Shutdown.thy ===== *)
theory Shutdown
  imports Go_Prelude
begin

text \<open>
  The shutdown protocol of \<^verbatim>\<open>gofi/service.go\<close> as interleaved threads: one call of
  \<^verbatim>\<open>ListenAndServe\<close> (thread 0) and \<open>n\<close> calls of \<^verbatim>\<open>Shutdown\<close> (threads 1 to n) over the
  fields that \<^verbatim>\<open>lifeMu\<close> guards and the list of closers of the runtime, which no lock guards.
  A step is a critical section of \<^verbatim>\<open>lifeMu\<close>, one access to \<^verbatim>\<open>r.closers\<close>, or the run of one closer.
\<close>

section \<open>State\<close>

datatype 'c pc =
  Ready                  \<comment> \<open>before the critical section\<close>
| Serving                \<comment> \<open>thread 0: the runners run\<close>
| Waiting                \<comment> \<open>Shutdown: stop was called, waiting for done\<close>
| Closing                \<comment> \<open>in closeResources, before reading r.closers\<close>
| Taken "'c list"        \<comment> \<open>r.closers read, not yet cleared\<close>
| Running "'c list"      \<comment> \<open>closers still to run\<close>
| Returned

record 'c life =
  lf_closed :: bool
  lf_stop :: bool
  lf_done :: bool
  lf_closers :: "'c list"
  lf_log :: "'c list"
  lf_pc :: "nat \<Rightarrow> 'c pc"

definition life_init :: "'c list \<Rightarrow> 'c life" where
  "life_init cs =
     \<lparr>lf_closed = False, lf_stop = False, lf_done = False, lf_closers = cs, lf_log = [], lf_pc = (\<lambda>_. Ready)\<rparr>"

abbreviation goto :: "nat \<Rightarrow> 'c pc \<Rightarrow> 'c life \<Rightarrow> 'c life" where
  "goto t p s \<equiv> s\<lparr>lf_pc := (lf_pc s)(t := p)\<rparr>"

section \<open>Steps\<close>

inductive life_step :: "nat \<Rightarrow> 'c life \<Rightarrow> 'c life \<Rightarrow> bool" for n where
  serve_refused: "lf_pc s 0 = Ready \<Longrightarrow> lf_closed s \<Longrightarrow> life_step n s (goto 0 Returned s)"
| serve_start: "lf_pc s 0 = Ready \<Longrightarrow> \<not> lf_closed s \<Longrightarrow> life_step n s (goto 0 Serving (s\<lparr>lf_stop := True\<rparr>))"
| serve_end: "lf_pc s 0 = Serving \<Longrightarrow> life_step n s (goto 0 Closing s)"
| shutdown_idle: "1 \<le> t \<Longrightarrow> t \<le> n \<Longrightarrow> lf_pc s t = Ready \<Longrightarrow> \<not> lf_stop s \<Longrightarrow>
    life_step n s (goto t Closing (s\<lparr>lf_closed := True\<rparr>))"
| shutdown_running: "1 \<le> t \<Longrightarrow> t \<le> n \<Longrightarrow> lf_pc s t = Ready \<Longrightarrow> lf_stop s \<Longrightarrow>
    life_step n s (goto t Waiting (s\<lparr>lf_closed := True\<rparr>))"
| shutdown_done: "lf_pc s t = Waiting \<Longrightarrow> lf_done s \<Longrightarrow> life_step n s (goto t Returned s)"
| shutdown_gives_up: "lf_pc s t = Waiting \<Longrightarrow> life_step n s (goto t Returned s)"
| close_read: "lf_pc s t = Closing \<Longrightarrow> life_step n s (goto t (Taken (lf_closers s)) s)"
| close_clear: "lf_pc s t = Taken cs \<Longrightarrow> life_step n s (goto t (Running (rev cs)) (s\<lparr>lf_closers := []\<rparr>))"
| close_run: "lf_pc s t = Running (c # cs) \<Longrightarrow> life_step n s (goto t (Running cs) (s\<lparr>lf_log := lf_log s @ [c]\<rparr>))"
| close_end: "lf_pc s t = Running [] \<Longrightarrow>
    life_step n s (goto t Returned (s\<lparr>lf_done := (lf_done s \<or> t = 0)\<rparr>))"

inductive life_reach :: "nat \<Rightarrow> 'c list \<Rightarrow> 'c life \<Rightarrow> bool" for n cs where
  init: "life_reach n cs (life_init cs)"
| step: "life_reach n cs s \<Longrightarrow> life_step n s s' \<Longrightarrow> life_reach n cs s'"

section \<open>One owner of the closers\<close>

text \<open>How far the thread that closes has come.\<close>

definition closing_at :: "'c list \<Rightarrow> 'c life \<Rightarrow> 'c pc \<Rightarrow> bool" where
  "closing_at cs s p \<longleftrightarrow>
     (case p of
        Closing \<Rightarrow> lf_log s = [] \<and> lf_closers s = cs
      | Taken xs \<Rightarrow> xs = cs \<and> lf_log s = [] \<and> lf_closers s = cs
      | Running r \<Rightarrow> lf_log s @ r = rev cs \<and> lf_closers s = []
      | Returned \<Rightarrow> lf_log s = rev cs \<and> lf_closers s = []
      | _ \<Rightarrow> False)"

definition idle_at :: "'c pc \<Rightarrow> bool" where
  "idle_at p \<longleftrightarrow> p \<in> {Ready, Waiting, Returned}"

definition nobody_closes :: "'c list \<Rightarrow> 'c life \<Rightarrow> bool" where
  "nobody_closes cs s \<longleftrightarrow> lf_log s = [] \<and> lf_closers s = cs \<and> \<not> lf_done s \<and>
     lf_pc s 0 \<in> {Ready, Serving} \<and> (lf_stop s \<longleftrightarrow> lf_pc s 0 = Serving) \<and>
     idle_at (lf_pc s 1) \<and> (lf_pc s 1 \<noteq> Ready \<longrightarrow> lf_stop s) \<and> (lf_closed s \<longrightarrow> lf_stop s)"

definition server_closes :: "'c list \<Rightarrow> 'c life \<Rightarrow> bool" where
  "server_closes cs s \<longleftrightarrow> lf_stop s \<and> idle_at (lf_pc s 1) \<and> closing_at cs s (lf_pc s 0) \<and>
     (lf_done s \<longleftrightarrow> lf_pc s 0 = Returned)"

definition shutdown_closes :: "'c list \<Rightarrow> 'c life \<Rightarrow> bool" where
  "shutdown_closes cs s \<longleftrightarrow> \<not> lf_stop s \<and> lf_closed s \<and> \<not> lf_done s \<and> lf_pc s 0 \<in> {Ready, Returned} \<and>
     closing_at cs s (lf_pc s 1)"

definition life_inv :: "'c list \<Rightarrow> 'c life \<Rightarrow> bool" where
  "life_inv cs s \<longleftrightarrow> (\<forall>t>1. lf_pc s t = Ready) \<and>
     (nobody_closes cs s \<or> server_closes cs s \<or> shutdown_closes cs s)"

lemmas life_inv_defs =
  life_inv_def nobody_closes_def server_closes_def shutdown_closes_def closing_at_def idle_at_def

lemma thread_cases: "(\<forall>t>1. lf_pc s t = Ready) \<Longrightarrow> lf_pc s t \<noteq> Ready \<Longrightarrow> t = 0 \<or> t = 1"
  by (metis One_nat_def less_one linorder_neqE_nat not_less_eq)

lemma life_inv_step:
  assumes inv: "life_inv cs s" and "life_step n s s'" "n \<le> 1"
  shows "life_inv cs s'"
  using assms(2)
proof cases
  case serve_refused
  then show ?thesis using inv by (auto simp: life_inv_defs split: pc.splits)
next
  case serve_start
  then show ?thesis using inv by (auto simp: life_inv_defs split: pc.splits)
next
  case serve_end
  then show ?thesis using inv by (auto simp: life_inv_defs split: pc.splits)
next
  case (shutdown_idle t)
  with assms(3) have "t = 1" by simp
  with shutdown_idle show ?thesis using inv by (auto simp: life_inv_defs split: pc.splits)
next
  case (shutdown_running t)
  with assms(3) have "t = 1" by simp
  with shutdown_running show ?thesis using inv by (auto simp: life_inv_defs split: pc.splits)
next
  case (shutdown_done t)
  with inv thread_cases [of s t] have "t = 0 \<or> t = 1" by (simp add: life_inv_def)
  with shutdown_done show ?thesis using inv by (auto simp: life_inv_defs split: pc.splits)
next
  case (shutdown_gives_up t)
  with inv thread_cases [of s t] have "t = 0 \<or> t = 1" by (simp add: life_inv_def)
  with shutdown_gives_up show ?thesis using inv by (auto simp: life_inv_defs split: pc.splits)
next
  case (close_read t)
  with inv thread_cases [of s t] have "t = 0 \<or> t = 1" by (simp add: life_inv_def)
  with close_read show ?thesis using inv by (auto simp: life_inv_defs split: pc.splits)
next
  case (close_clear t xs)
  with inv thread_cases [of s t] have "t = 0 \<or> t = 1" by (simp add: life_inv_def)
  with close_clear show ?thesis using inv by (auto simp: life_inv_defs split: pc.splits)
next
  case (close_run t c xs)
  with inv thread_cases [of s t] have "t = 0 \<or> t = 1" by (simp add: life_inv_def)
  with close_run show ?thesis using inv by (auto simp: life_inv_defs split: pc.splits)
next
  case (close_end t)
  with inv thread_cases [of s t] have "t = 0 \<or> t = 1" by (simp add: life_inv_def)
  with close_end show ?thesis using inv by (auto simp: life_inv_defs split: pc.splits)
qed

lemma life_inv_reach:
  assumes "life_reach n cs s" "n \<le> 1"
  shows "life_inv cs s"
  using assms(1)
proof induction
  case init
  then show ?case by (simp add: life_init_def life_inv_defs)
next
  case (step s s')
  then show ?case using life_inv_step [OF step.IH step.hyps(2) assms(2)] by simp
qed

section \<open>Properties\<close>

text \<open>C31. With one \<^verbatim>\<open>Shutdown\<close> call, however it interleaves with \<^verbatim>\<open>ListenAndServe\<close>,
  the closers run at most once each and in reverse order: what has run so far is an initial part of the
  reversed registrations, and all of them have run once \<^verbatim>\<open>ListenAndServe\<close> has closed \<^verbatim>\<open>done\<close> or
  \<^verbatim>\<open>Shutdown\<close> has returned from a service that was not serving.\<close>

theorem closers_run_once:
  assumes "life_reach n cs s" "n \<le> 1"
  shows "prefix (lf_log s) (rev cs) \<and> (lf_done s \<or> lf_pc s 1 = Returned \<and> \<not> lf_stop s \<longrightarrow> lf_log s = rev cs)"
  using life_inv_reach [OF assms] by (auto simp: life_inv_defs prefixI [OF sym] split: pc.splits)

text \<open>Concrete runs of the threads 0, 1 and 2.\<close>

definition life_at :: "bool \<times> bool \<times> bool \<Rightarrow> 'c list \<Rightarrow> 'c list \<Rightarrow> 'c pc \<Rightarrow> 'c pc \<Rightarrow> 'c pc \<Rightarrow> 'c life" where
  "life_at flags cs lg p0 p1 p2 =
     \<lparr>lf_closed = fst flags, lf_stop = fst (snd flags), lf_done = snd (snd flags), lf_closers = cs, lf_log = lg,
      lf_pc = (\<lambda>t. if t = 0 then p0 else if t = 1 then p1 else if t = 2 then p2 else Ready)\<rparr>"

lemma life_reach_step: "life_reach n cs s \<Longrightarrow> life_step n s s' \<Longrightarrow> s' = u \<Longrightarrow> life_reach n cs u"
  by (simp add: life_reach.step)

lemma life_at_init: "life_reach n cs (life_at (False, False, False) cs [] Ready Ready Ready)"
  using init [of n cs] by (simp add: life_at_def life_init_def if_distrib cong: if_cong)

lemmas life_go = life_at_def fun_eq_iff

lemma served_run: "life_reach 1 [a] (life_at (False, True, True) [] [a] Returned Ready Ready)"
proof -
  note s0 = life_at_init [of 1 "[a]"]
  have s1: "life_reach 1 [a] (life_at (False, True, False) [a] [] Serving Ready Ready)"
    by (rule life_reach_step [OF s0 serve_start]) (auto simp: life_go)
  have s2: "life_reach 1 [a] (life_at (False, True, False) [a] [] Closing Ready Ready)"
    by (rule life_reach_step [OF s1 serve_end]) (auto simp: life_go)
  have s3: "life_reach 1 [a] (life_at (False, True, False) [a] [] (Taken [a]) Ready Ready)"
    by (rule life_reach_step [OF s2 close_read [where t = 0]]) (auto simp: life_go)
  have s4: "life_reach 1 [a] (life_at (False, True, False) [] [] (Running [a]) Ready Ready)"
    by (rule life_reach_step [OF s3 close_clear [where t = 0]]) (auto simp: life_go)
  have s5: "life_reach 1 [a] (life_at (False, True, False) [] [a] (Running []) Ready Ready)"
    by (rule life_reach_step [OF s4 close_run [where t = 0]]) (auto simp: life_go)
  show ?thesis
    by (rule life_reach_step [OF s5 close_end [where t = 0]]) (auto simp: life_go)
qed

theorem closers_run_once_witness:
  "life_reach 1 [''redis''] (life_at (False, True, True) [] [''redis''] Returned Ready Ready) \<and>
   lf_log (life_at (False, True, True) [] [''redis''] Returned Ready Ready) = rev [''redis'']"
  using closers_run_once [OF served_run [of "''redis''"]] served_run [of "''redis''"] by (simp add: life_at_def)

text \<open>Two \<^verbatim>\<open>Shutdown\<close> calls that overlap on a service that is not serving can run a closer
  twice: both find no \<^verbatim>\<open>stop\<close> and read the list of closers before either clears it.\<close>

theorem overlapping_shutdowns_close_twice:
  "life_reach 2 [c] (life_at (True, False, False) [] [c, c] Ready Returned Returned)"
proof -
  note s0 = life_at_init [of 2 "[c]"]
  have s1: "life_reach 2 [c] (life_at (True, False, False) [c] [] Ready Closing Ready)"
    by (rule life_reach_step [OF s0 shutdown_idle [where t = 1]]) (auto simp: life_go)
  have s2: "life_reach 2 [c] (life_at (True, False, False) [c] [] Ready Closing Closing)"
    by (rule life_reach_step [OF s1 shutdown_idle [where t = 2]]) (auto simp: life_go)
  have s3: "life_reach 2 [c] (life_at (True, False, False) [c] [] Ready (Taken [c]) Closing)"
    by (rule life_reach_step [OF s2 close_read [where t = 1]]) (auto simp: life_go)
  have s4: "life_reach 2 [c] (life_at (True, False, False) [c] [] Ready (Taken [c]) (Taken [c]))"
    by (rule life_reach_step [OF s3 close_read [where t = 2]]) (auto simp: life_go)
  have s5: "life_reach 2 [c] (life_at (True, False, False) [] [] Ready (Running [c]) (Taken [c]))"
    by (rule life_reach_step [OF s4 close_clear [where t = 1]]) (auto simp: life_go)
  have s6: "life_reach 2 [c] (life_at (True, False, False) [] [] Ready (Running [c]) (Running [c]))"
    by (rule life_reach_step [OF s5 close_clear [where t = 2]]) (auto simp: life_go)
  have s7: "life_reach 2 [c] (life_at (True, False, False) [] [c] Ready (Running []) (Running [c]))"
    by (rule life_reach_step [OF s6 close_run [where t = 1]]) (auto simp: life_go)
  have s8: "life_reach 2 [c] (life_at (True, False, False) [] [c, c] Ready (Running []) (Running []))"
    by (rule life_reach_step [OF s7 close_run [where t = 2]]) (auto simp: life_go)
  have s9: "life_reach 2 [c] (life_at (True, False, False) [] [c, c] Ready Returned (Running []))"
    by (rule life_reach_step [OF s8 close_end [where t = 1]]) (auto simp: life_go)
  show ?thesis
    by (rule life_reach_step [OF s9 close_end [where t = 2]]) (auto simp: life_go)
qed

end
