(* ===== verification/Msq_Worker.thy ===== *)
theory Msq_Worker
  imports Go_Prelude
begin

text \<open>
  The worker utilities of the messaging package (\<^verbatim>\<open>msq/worker\<close>): exponential backoff on 64-bit
  durations (\<^verbatim>\<open>gate.go\<close>), the pause gate, lease renewal periods and the counted handler slots
  (\<^verbatim>\<open>lease.go\<close>). A \<^verbatim>\<open>time.Duration\<close> is a \<^typ>\<open>64 word\<close> read as a signed number of
  nanoseconds.
\<close>

type_synonym duration = "64 word"

definition nanos :: "int \<Rightarrow> duration" where
  "nanos n = word_of_int n"

definition millisecond :: int where "millisecond = 1000000"
definition second :: int where "second = 1000 * millisecond"
definition minute :: int where "minute = 60 * second"

section \<open>Backoff\<close>

record backoff =
  bo_Min :: duration
  bo_Max :: duration
  bo_attempt :: nat

text \<open>The delay before jitter: \<^verbatim>\<open>b.Min << min(b.attempt, 30)\<close>, which wraps, and the cap.\<close>

definition backoff_delay :: "backoff \<Rightarrow> duration" where
  "backoff_delay b =
     (let d = push_bit (min (bo_attempt b) 30) (bo_Min b)
      in if sint d \<le> 0 \<or> sint (bo_Max b) < sint d then bo_Max b else d)"

text \<open>
  \<open>rand_N n\<close> stands for \<^verbatim>\<open>rand.N(n)\<close>, a number from 0 up to but not including n; it panics
  when n is not positive, which is the value \<open>None\<close> here. Go's \<^verbatim>\<open>/\<close> truncates towards zero.
\<close>

definition backoff_Next :: "(int \<Rightarrow> int) \<Rightarrow> backoff \<Rightarrow> (int \<times> backoff) option" where
  "backoff_Next rand_N b =
     (let d = sint (backoff_delay b); half = sgn d * (\<bar>d\<bar> div 2)
      in if half + 1 \<le> 0 then None
         else Some (half + rand_N (half + 1), b\<lparr>bo_attempt := Suc (bo_attempt b)\<rparr>))"

definition backoff_Reset :: "backoff \<Rightarrow> backoff" where
  "backoff_Reset b = b\<lparr>bo_attempt := 0\<rparr>"

definition max_duration :: "duration \<Rightarrow> duration \<Rightarrow> duration" where
  "max_duration a b = (if sint a < sint b then b else a)"

definition RedeliveryDelay :: "(int \<Rightarrow> int) \<Rightarrow> duration \<Rightarrow> duration \<Rightarrow> int \<Rightarrow> int option" where
  "RedeliveryDelay rand_N base maxDelay n =
     map_option fst (backoff_Next rand_N
       \<lparr>bo_Min = base, bo_Max = max_duration maxDelay base, bo_attempt = nat (max (n - 1) 0)\<rparr>)"

section \<open>Gate\<close>

text \<open>
  A gate: the channel that waiters of the current pause block on, if it is paused, and the channels
  closed so far. A waiter that took channel c is released once c is closed.
\<close>

record gate =
  ga_resume :: "nat option"
  ga_next :: nat
  ga_closed :: "nat set"

definition gate_zero :: gate where
  "gate_zero = \<lparr>ga_resume = None, ga_next = 0, ga_closed = {}\<rparr>"

definition gate_Pause :: "gate \<Rightarrow> gate" where
  "gate_Pause g =
     (if ga_resume g = None then g\<lparr>ga_resume := Some (ga_next g), ga_next := Suc (ga_next g)\<rparr> else g)"

definition gate_Resume :: "gate \<Rightarrow> gate" where
  "gate_Resume g =
     (case ga_resume g of
        None \<Rightarrow> g
      | Some c \<Rightarrow> g\<lparr>ga_closed := insert c (ga_closed g), ga_resume := None\<rparr>)"

definition gate_Paused :: "gate \<Rightarrow> bool" where
  "gate_Paused g \<longleftrightarrow> ga_resume g \<noteq> None"

text \<open>What \<^verbatim>\<open>Wait\<close> blocks on: nothing when the gate is open.\<close>

definition gate_Wait :: "gate \<Rightarrow> nat option" where
  "gate_Wait g = ga_resume g"

definition gate_released :: "gate \<Rightarrow> nat option \<Rightarrow> bool" where
  "gate_released g ch \<longleftrightarrow> (case ch of None \<Rightarrow> True | Some c \<Rightarrow> c \<in> ga_closed g)"

section \<open>Leases and slots\<close>

definition minRenewEvery :: int where "minRenewEvery = 100 * millisecond"

definition RenewEvery :: "int \<Rightarrow> int" where
  "RenewEvery lease = max (sgn lease * (\<bar>lease\<bar> div 3)) minRenewEvery"

record slots =
  sl_cap :: nat
  sl_free :: nat

definition NewSlots :: "int \<Rightarrow> slots" where
  "NewSlots n = \<lparr>sl_cap = nat (max n 1), sl_free = nat (max n 1)\<rparr>"

text \<open>\<^verbatim>\<open>Acquire\<close> when a slot is free; with none free it blocks, or returns the context's error.\<close>

fun take_more :: "nat \<Rightarrow> int \<Rightarrow> nat \<Rightarrow> nat \<times> nat" where
  "take_more 0 limit n = (n, 0)"
| "take_more (Suc free) limit n =
     (if int n < limit then take_more free limit (Suc n) else (n, Suc free))"

definition slots_Acquire :: "int \<Rightarrow> slots \<Rightarrow> (nat \<times> slots) option" where
  "slots_Acquire limit s =
     (case sl_free s of
        0 \<Rightarrow> None
      | Suc free \<Rightarrow> (case take_more free limit 1 of (n, rest) \<Rightarrow> Some (n, s\<lparr>sl_free := rest\<rparr>)))"

fun slots_Release :: "nat \<Rightarrow> slots \<Rightarrow> slots" where
  "slots_Release 0 s = s"
| "slots_Release (Suc n) s =
     (if sl_free s < sl_cap s then slots_Release n (s\<lparr>sl_free := Suc (sl_free s)\<rparr>) else s)"

section \<open>Delays\<close>

lemma sint_of_int64: "sint (word_of_int x :: 64 word) = signed_take_bit 63 x"
  by transfer simp

lemma sint_push_bit: "sint (push_bit k (w :: 64 word)) = signed_take_bit 63 (sint w * 2 ^ k)"
proof -
  have "push_bit k w = word_of_int (sint w * 2 ^ k)" by (simp add: push_bit_eq_mult)
  then show ?thesis by (simp only: sint_of_int64)
qed

lemma sint_nanos: "- (2 ^ 63) \<le> n \<Longrightarrow> n < 2 ^ 63 \<Longrightarrow> sint (nanos n) = n"
  unfolding nanos_def sint_of_int64 by (rule signed_take_bit_int_eq_self)

text \<open>What \<^verbatim>\<open>rand.N\<close> documents.\<close>

definition rand_ok :: "(int \<Rightarrow> int) \<Rightarrow> bool" where
  "rand_ok r \<longleftrightarrow> (\<forall>n>0. 0 \<le> r n \<and> r n < n)"

lemma backoff_delay_pos:
  assumes "0 < sint (bo_Min b)" "sint (bo_Min b) \<le> sint (bo_Max b)"
  shows "0 < sint (backoff_delay b)" "sint (backoff_delay b) \<le> sint (bo_Max b)"
  using assms by (auto simp: backoff_delay_def Let_def)

lemma backoff_delay_exact:
  assumes "0 < sint (bo_Min b)" "sint (bo_Min b) \<le> sint (bo_Max b)" "sint (bo_Min b) < 2 ^ 33"
  shows "sint (backoff_delay b) = min (sint (bo_Max b)) (sint (bo_Min b) * 2 ^ min (bo_attempt b) 30)"
proof -
  let ?k = "min (bo_attempt b) 30"
  have "(2::int) ^ ?k \<le> 2 ^ 30" by (rule power_increasing) auto
  then have "sint (bo_Min b) * 2 ^ ?k < 2 ^ 33 * 2 ^ 30"
    using assms(1,3) by (intro mult_less_le_imp_less) auto
  moreover have "0 < sint (bo_Min b) * 2 ^ ?k" using assms(1) by simp
  ultimately have "sint (push_bit ?k (bo_Min b)) = sint (bo_Min b) * 2 ^ ?k"
    unfolding sint_push_bit by (intro signed_take_bit_int_eq_self) auto
  with \<open>0 < sint (bo_Min b) * 2 ^ ?k\<close> show ?thesis
    by (auto simp: backoff_delay_def Let_def)
qed

lemma backoff_Next_eq:
  assumes "0 < sint (bo_Min b)" "sint (bo_Min b) \<le> sint (bo_Max b)" "rand_ok r"
  shows "\<exists>d. backoff_Next r b = Some (d, b\<lparr>bo_attempt := Suc (bo_attempt b)\<rparr>) \<and>
    sint (backoff_delay b) div 2 \<le> d \<and> d \<le> sint (backoff_delay b)"
proof -
  let ?d = "sint (backoff_delay b)"
  have "0 < ?d" using backoff_delay_pos [OF assms(1,2)] by simp
  moreover have "0 \<le> r (?d div 2 + 1)" "r (?d div 2 + 1) < ?d div 2 + 1"
    using assms(3) [unfolded rand_ok_def, rule_format, of "?d div 2 + 1"] \<open>0 < ?d\<close> by simp_all
  ultimately show ?thesis by (simp add: backoff_Next_def Let_def)
qed

text \<open>A backoff delay is bounded: for 0 < Min <= Max, \<^verbatim>\<open>Next\<close> never panics, counts the attempt
  and returns at most Max; when Min is below 2^33 ns (8.5 s) the shift cannot overflow and the delay is
  between half of and all of Min doubled once per attempt (30 times at most), capped at Max.\<close>

theorem backoff_next_bounds:
  assumes "0 < sint (bo_Min b)" "sint (bo_Min b) \<le> sint (bo_Max b)" "rand_ok r"
  shows "\<exists>d. backoff_Next r b = Some (d, b\<lparr>bo_attempt := Suc (bo_attempt b)\<rparr>) \<and>
    0 \<le> d \<and> d \<le> sint (bo_Max b) \<and>
    (sint (bo_Min b) < 2 ^ 33 \<longrightarrow>
      (let full = min (sint (bo_Max b)) (sint (bo_Min b) * 2 ^ min (bo_attempt b) 30)
       in full div 2 \<le> d \<and> d \<le> full))"
proof -
  obtain d where d: "backoff_Next r b = Some (d, b\<lparr>bo_attempt := Suc (bo_attempt b)\<rparr>)"
    "sint (backoff_delay b) div 2 \<le> d" "d \<le> sint (backoff_delay b)"
    using backoff_Next_eq [OF assms] by blast
  moreover have "0 \<le> d" using d(2) backoff_delay_pos(1) [OF assms(1,2)] by (smt (verit) pos_imp_zdiv_nonneg_iff)
  moreover have "d \<le> sint (bo_Max b)" using d(3) backoff_delay_pos(2) [OF assms(1,2)] by simp
  ultimately show ?thesis using backoff_delay_exact [OF assms(1,2)] by (auto simp: Let_def)
qed

theorem backoff_next_bounds_witness:
  "\<exists>d. backoff_Next (\<lambda>n. n - 1) \<lparr>bo_Min = nanos second, bo_Max = nanos (30 * second), bo_attempt = 3\<rparr> =
     Some (d, \<lparr>bo_Min = nanos second, bo_Max = nanos (30 * second), bo_attempt = 4\<rparr>) \<and>
     4 * second \<le> d \<and> d \<le> 8 * second"
proof -
  let ?b = "\<lparr>bo_Min = nanos second, bo_Max = nanos (30 * second), bo_attempt = 3\<rparr>"
  have m: "sint (bo_Min ?b) = 1000000000" "sint (bo_Max ?b) = 30000000000"
    by (simp_all add: sint_nanos second_def millisecond_def)
  have "rand_ok (\<lambda>n. n - 1)" by (simp add: rand_ok_def)
  from backoff_next_bounds [of ?b "\<lambda>n. n - 1", OF _ _ this] show ?thesis
    unfolding m by (auto simp: Let_def second_def millisecond_def)
qed

text \<open>The shift wraps for larger minima: with Min = 2^34 + 1 ns (17.2 s) and Max = 30 s, the 31st delay
  is at most 2^30 ns (1.08 s), less than half of Min.\<close>

theorem backoff_shift_wraps:
  assumes "rand_ok r"
  shows "\<exists>d b. backoff_Next r \<lparr>bo_Min = nanos (2 ^ 34 + 1), bo_Max = nanos (30 * second), bo_attempt = 30\<rparr> = Some (d, b) \<and>
    d \<le> 2 ^ 30 \<and> 2 * d < 2 ^ 34 + 1"
proof -
  let ?b = "\<lparr>bo_Min = nanos (2 ^ 34 + 1), bo_Max = nanos (30 * second), bo_attempt = 30\<rparr>"
  have m: "sint (bo_Min ?b) = 2 ^ 34 + 1" "sint (bo_Max ?b) = 30000000000"
    by (simp_all add: sint_nanos second_def millisecond_def)
  have "sint (push_bit 30 (nanos (2 ^ 34 + 1))) = 2 ^ 30"
    unfolding sint_push_bit by (simp add: sint_nanos signed_take_bit_eq_take_bit_shift take_bit_eq_mod)
  with m have "sint (backoff_delay ?b) = 2 ^ 30" by (simp add: backoff_delay_def Let_def)
  with backoff_Next_eq [of ?b r] m assms show ?thesis by fastforce
qed

theorem backoff_shift_wraps_witness:
  "\<exists>d b. backoff_Next (\<lambda>n. 0) \<lparr>bo_Min = nanos (2 ^ 34 + 1), bo_Max = nanos (30 * second), bo_attempt = 30\<rparr> = Some (d, b) \<and>
    2 * d < 2 ^ 34 + 1"
  using backoff_shift_wraps [of "\<lambda>n. 0"] by (auto simp: rand_ok_def)

section \<open>Slots and gate over a sequence of calls\<close>

lemma take_more_eq:
  "take_more free limit n = (n', rest) \<Longrightarrow> n' + rest = n + free \<and> n \<le> n' \<and> (int n' \<le> limit \<or> n' = n)"
  by (induction free limit n rule: take_more.induct) (auto split: if_splits)

lemma slots_Acquire_Some:
  "slots_Acquire limit s = Some (n, s') \<Longrightarrow>
     1 \<le> n \<and> int n \<le> max limit 1 \<and> sl_cap s' = sl_cap s \<and> n + sl_free s' = sl_free s"
  by (auto simp: slots_Acquire_def split: nat.splits prod.splits dest!: take_more_eq)

lemma slots_Release_eq:
  "sl_free s \<le> sl_cap s \<Longrightarrow> slots_Release n s = s\<lparr>sl_free := min (sl_cap s) (sl_free s + n)\<rparr>"
  by (induction n s rule: slots_Release.induct) auto

datatype slot_call = Acquire int | Release nat

text \<open>
  A poller's calls on fresh slots: it releases only what it holds (otherwise \<open>None\<close>); an
  \<^verbatim>\<open>Acquire\<close> with no free slot takes nothing.
\<close>

fun slot_calls :: "slot_call list \<Rightarrow> nat \<times> slots \<Rightarrow> (nat \<times> slots) option" where
  "slot_calls [] hs = Some hs"
| "slot_calls (Acquire limit # cs) (held, s) =
     (case slots_Acquire limit s of
        None \<Rightarrow> slot_calls cs (held, s)
      | Some (n, s') \<Rightarrow> slot_calls cs (held + n, s'))"
| "slot_calls (Release n # cs) (held, s) =
     (if n \<le> held then slot_calls cs (held - n, slots_Release n s) else None)"

text \<open>No poller holds more messages than it has handlers: after any calls of \<^verbatim>\<open>Acquire\<close> and
  \<^verbatim>\<open>Release\<close> that release what was acquired, the slots held and the free slots add up to the
  capacity, which is at least one.\<close>

theorem slots_bound_messages_in_flight:
  assumes "slot_calls cs (0, NewSlots c) = Some (held, s)"
  shows "held + sl_free s = nat (max c 1) \<and> sl_cap s = nat (max c 1)"
proof -
  have "held + sl_free s = sl_cap s0 \<and> sl_cap s = sl_cap s0"
    if "slot_calls cs (h0, s0) = Some (held, s)" "h0 + sl_free s0 = sl_cap s0" for h0 s0
    using that
  proof (induction cs "(h0, s0)" arbitrary: h0 s0 rule: slot_calls.induct)
    case (2 limit cs h0 s0)
    show ?case
    proof (cases "slots_Acquire limit s0")
      case None
      with 2 show ?thesis by simp
    next
      case (Some r)
      then obtain n s1 where r: "slots_Acquire limit s0 = Some (n, s1)" by (cases r) auto
      with 2(2)[OF r] 2(3,4) slots_Acquire_Some [OF r] show ?thesis by simp
    qed
  next
    case (3 n cs h0 s0)
    then show ?case by (auto simp: slots_Release_eq split: if_splits)
  qed simp
  from this [OF assms] show ?thesis by (simp add: NewSlots_def)
qed

theorem slots_bound_messages_in_flight_witness:
  "\<exists>s. slot_calls [Acquire 2, Acquire 5, Release 1] (0, NewSlots 3) = Some (2, s) \<and> sl_free s = 1"
proof -
  obtain s where s: "slot_calls [Acquire 2, Acquire 5, Release 1] (0, NewSlots 3) = Some (2, s)"
    by (simp add: NewSlots_def slots_Acquire_def eval_nat_numeral)
  from slots_bound_messages_in_flight [OF this] s show ?thesis by simp
qed

text \<open>The gate never closes a channel twice and never forgets a waiter: after any calls of
  \<^verbatim>\<open>Pause\<close> (\<open>True\<close>) and \<^verbatim>\<open>Resume\<close> (\<open>False\<close>), every channel a waiter can hold
  is either closed or the one of the current pause, and the latter is not closed.\<close>

theorem gate_wakes_every_waiter:
  "let g = foldl (\<lambda>g pause. if pause then gate_Pause g else gate_Resume g) gate_zero calls
   in ga_closed g \<union> set_option (gate_Wait g) = {..<ga_next g} \<and> ga_closed g \<inter> set_option (gate_Wait g) = {} \<and>
      (gate_Paused g \<longleftrightarrow> calls \<noteq> [] \<and> last calls)"
proof -
  let ?inv = "\<lambda>g. ga_closed g \<union> set_option (gate_Wait g) = {..<ga_next g} \<and> ga_closed g \<inter> set_option (gate_Wait g) = {}"
  have p: "?inv (gate_Pause g)" if "?inv g" for g
    using that by (auto simp: gate_Pause_def gate_Wait_def)
  have r: "?inv (gate_Resume g)" if "?inv g" for g
    using that by (cases "ga_resume g") (auto simp: gate_Resume_def gate_Wait_def)
  have "?inv (foldl (\<lambda>g pause. if pause then gate_Pause g else gate_Resume g) gate_zero calls)"
  proof (induction calls rule: rev_induct)
    case Nil
    then show ?case by (simp add: gate_zero_def gate_Wait_def)
  next
    case (snoc x xs)
    then show ?case using p [OF snoc.IH] r [OF snoc.IH] by simp
  qed
  moreover have "gate_Paused (foldl (\<lambda>g pause. if pause then gate_Pause g else gate_Resume g) gate_zero calls) \<longleftrightarrow>
      calls \<noteq> [] \<and> last calls"
    by (cases calls rule: rev_cases)
      (auto simp: gate_zero_def gate_Paused_def gate_Pause_def gate_Resume_def split: option.splits)
  ultimately show ?thesis by (simp add: Let_def)
qed

end
