(* ===== verification/Msq_Pipeline.thy ===== *)
theory Msq_Pipeline
  imports Msq_Worker Go_Utf8
begin

text \<open>
  The consumer pipeline and the producer of \<^verbatim>\<open>msq/core\<close> with the types of
  \<^verbatim>\<open>msq/types\<close>: delivery limits, the retry loop around a handler, the settlement of a nacked
  message, dead-letter copies, and the events of a batch send. The handler, the broker's producer and the
  clock are parameters: what the handler does on each attempt, what a send returns, whether a wait ends
  before the context does.
\<close>

type_synonym msg_error = string

section \<open>Types\<close>

datatype msg_result = Ack | Nack | Ignore | Reject

record message =
  m_Id :: string
  m_Topic :: string
  m_Type :: string
  m_Source :: string
  m_Key :: string
  m_Value :: string
  m_Timestamp :: int
  m_Headers :: "string \<rightharpoonup> string"
  m_DeliveryCount :: int

definition WithTopic :: "string \<Rightarrow> message \<Rightarrow> message" where "WithTopic topic m = m\<lparr>m_Topic := topic\<rparr>"
definition WithKey :: "string \<Rightarrow> message \<Rightarrow> message" where "WithKey key m = m\<lparr>m_Key := key\<rparr>"
definition WithHeader :: "string \<Rightarrow> string \<Rightarrow> message \<Rightarrow> message" where
  "WithHeader key val m = m\<lparr>m_Headers := (m_Headers m)(key \<mapsto> val)\<rparr>"

definition DefaultConcurrency :: int where "DefaultConcurrency = 20"
definition DefaultPollInterval :: int where "DefaultPollInterval = 10 * second"
definition DefaultMaxDeliveries :: int where "DefaultMaxDeliveries = 10"
definition DefaultHandlerTimeout :: int where "DefaultHandlerTimeout = 5 * minute"

record consume_config =
  cc_GroupID :: string
  cc_Topic :: string
  cc_RoutingKey :: string
  cc_QueueID :: string
  cc_Concurrency :: int
  cc_PollInterval :: int
  cc_MaxRetries :: int
  cc_RetryBackoff :: duration
  cc_DeadLetterTopic :: string
  cc_HandlerTimeout :: int
  cc_InitialOffset :: string
  cc_VisibilityTimeout :: int
  cc_MaxDeliveries :: int

definition DefaultConsumeConfig :: "string \<Rightarrow> consume_config" where
  "DefaultConsumeConfig topic =
     \<lparr>cc_GroupID = [], cc_Topic = topic, cc_RoutingKey = [], cc_QueueID = [], cc_Concurrency = DefaultConcurrency, cc_PollInterval = DefaultPollInterval,
      cc_MaxRetries = 0, cc_RetryBackoff = 0, cc_DeadLetterTopic = [], cc_HandlerTimeout = 0, cc_InitialOffset = [],
      cc_VisibilityTimeout = 0, cc_MaxDeliveries = 0\<rparr>"

definition DeliveryLimit :: "consume_config \<Rightarrow> int" where
  "DeliveryLimit c =
     (if cc_MaxDeliveries c < 0 then 0
      else if cc_MaxDeliveries c = 0 \<and> cc_DeadLetterTopic c = [] then 0
      else if cc_MaxDeliveries c = 0 then DefaultMaxDeliveries
      else cc_MaxDeliveries c)"

definition DeliveryLimitReached :: "consume_config \<Rightarrow> int \<Rightarrow> bool" where
  "DeliveryLimitReached c count = (let limit = DeliveryLimit c in limit > 0 \<and> count \<ge> limit)"

definition EffectiveHandlerTimeout :: "consume_config \<Rightarrow> int" where
  "EffectiveHandlerTimeout c =
     (if cc_HandlerTimeout c < 0 then 0
      else if cc_HandlerTimeout c = 0 then DefaultHandlerTimeout
      else cc_HandlerTimeout c)"

record consume_defaults =
  cd_MaxDeliveries :: int
  cd_HandlerTimeout :: int

definition apply_defaults :: "consume_defaults \<Rightarrow> consume_config \<Rightarrow> consume_config" where
  "apply_defaults d cfg =
     (let cfg = (if cc_MaxDeliveries cfg = 0 then cfg\<lparr>cc_MaxDeliveries := cd_MaxDeliveries d\<rparr> else cfg)
      in if cc_HandlerTimeout cfg = 0 then cfg\<lparr>cc_HandlerTimeout := cd_HandlerTimeout d\<rparr> else cfg)"

datatype event_type =
  EventMessageSent | EventMessageReceived | EventMessageAcked | EventMessageNacked
| EventMessageDeadLettered | EventConsumerStarted | EventConsumerStopped | EventProducerError
| EventConsumerError | EventMessageRejected | EventConsumerRestarting

record broker_event =
  ev_Type :: event_type
  ev_Topic :: string
  ev_MessageID :: string
  ev_Error :: "msg_error option"

section \<open>One attempt and the retry loop\<close>

text \<open>What a handler does on an attempt: it returns, or it panics.\<close>

datatype outcome = Returns msg_result "msg_error option" | Panics string

fun run_handler :: "outcome \<Rightarrow> msg_result \<times> msg_error option" where
  "run_handler (Returns r e) = (r, e)"
| "run_handler (Panics p) = (Nack, Some (''msq: handler panic: '' @ p))"

definition defaultRetryBackoff :: duration where "defaultRetryBackoff = nanos second"
definition maxRetryBackoff :: duration where "maxRetryBackoff = nanos (30 * second)"

definition retry_backoff :: "consume_config \<Rightarrow> backoff" where
  "retry_backoff cfg =
     (let mn = (if sint (cc_RetryBackoff cfg) \<le> 0 then defaultRetryBackoff else cc_RetryBackoff cfg)
      in \<lparr>bo_Min = mn, bo_Max = max_duration maxRetryBackoff mn, bo_attempt = 0\<rparr>)"

text \<open>
  The loop: \<open>handler k\<close> is the outcome of attempt k, \<open>slept k d\<close> says that the wait of d after
  attempt k ended before the context; \<open>None\<close> would be a panic of the backoff.
\<close>

function retry_from ::
  "(int \<Rightarrow> int) \<Rightarrow> consume_config \<Rightarrow> (nat \<Rightarrow> outcome) \<Rightarrow> (nat \<Rightarrow> int \<Rightarrow> bool) \<Rightarrow> nat \<Rightarrow> backoff \<Rightarrow>
   (msg_result \<times> nat \<times> msg_error option) option" where
  "retry_from rand_N cfg handler slept attempt b =
     (let a = Suc attempt; (r, e) = run_handler (handler a)
      in if r \<noteq> Nack \<or> int a > cc_MaxRetries cfg then Some (r, a, e)
         else
           (case backoff_Next rand_N b of
              None \<Rightarrow> None
            | Some (d, b') \<Rightarrow>
                if slept a d then retry_from rand_N cfg handler slept a b' else Some (r, a, e)))"
  by pat_completeness auto

termination
  by (relation "measure (\<lambda>(_, cfg, _, _, attempt, _). nat (cc_MaxRetries cfg) - attempt)") auto

declare retry_from.simps [simp del]

definition msq_retry ::
  "(int \<Rightarrow> int) \<Rightarrow> consume_config \<Rightarrow> (nat \<Rightarrow> outcome) \<Rightarrow> (nat \<Rightarrow> int \<Rightarrow> bool) \<Rightarrow>
   (msg_result \<times> nat \<times> msg_error option) option" where
  "msq_retry rand_N cfg handler slept = retry_from rand_N cfg handler slept 0 (retry_backoff cfg)"

section \<open>Dead letters\<close>

definition HeaderDLQOriginalTopic :: string where "HeaderDLQOriginalTopic = ''x-gofi-dlq-original-topic''"
definition HeaderDLQError :: string where "HeaderDLQError = ''x-gofi-dlq-error''"
definition HeaderDLQAttempts :: string where "HeaderDLQAttempts = ''x-gofi-dlq-attempts''"
definition HeaderDLQDeliveries :: string where "HeaderDLQDeliveries = ''x-gofi-dlq-deliveries''"

definition maxDLQErrorLen :: nat where "maxDLQErrorLen = 512"

definition errorText :: "msg_error option \<Rightarrow> string" where
  "errorText e = (case e of None \<Rightarrow> ''nack'' | Some t \<Rightarrow> t)"

definition RuneStart :: "char \<Rightarrow> bool" where
  "RuneStart c \<longleftrightarrow> \<not> is_cont (of_char c)"

fun cut_back :: "string \<Rightarrow> nat \<Rightarrow> nat" where
  "cut_back s 0 = 0"
| "cut_back s (Suc n) = (if RuneStart (s ! Suc n) then Suc n else cut_back s n)"

definition truncate_utf8 :: "string \<Rightarrow> nat \<Rightarrow> string" where
  "truncate_utf8 s n = (if length s \<le> n then s else take (cut_back s n) s)"

definition dead_letter :: "consume_config \<Rightarrow> message \<Rightarrow> msg_error option \<Rightarrow> nat \<Rightarrow> message" where
  "dead_letter cfg msg cause attempts =
     (let h = m_Headers msg;
          h = h(HeaderDLQOriginalTopic \<mapsto> (if m_Topic msg \<noteq> [] then m_Topic msg else cc_Topic cfg));
          h = h(HeaderDLQError \<mapsto> truncate_utf8 (errorText cause) maxDLQErrorLen);
          h = h(HeaderDLQAttempts \<mapsto> itoa (int attempts));
          h = (if m_DeliveryCount msg > 0 then h(HeaderDLQDeliveries \<mapsto> itoa (m_DeliveryCount msg)) else h)
      in msg\<lparr>m_Topic := cc_DeadLetterTopic cfg, m_DeliveryCount := 0, m_Headers := h\<rparr>)"

section \<open>Handle\<close>

definition pipeline_event :: "event_type \<Rightarrow> consume_config \<Rightarrow> message \<Rightarrow> msg_error option \<Rightarrow> broker_event" where
  "pipeline_event t cfg msg e =
     \<lparr>ev_Type = t, ev_Topic = cc_Topic cfg, ev_MessageID = m_Id msg, ev_Error = e\<rparr>"

text \<open>\<open>dlq\<close> is the dead-letter producer: what sending a message to it returns.\<close>

definition settleNack ::
  "consume_config \<Rightarrow> (message \<Rightarrow> msg_error option) option \<Rightarrow> message \<Rightarrow> msg_error option \<Rightarrow> nat \<Rightarrow>
   msg_result \<times> broker_event list \<times> message list" where
  "settleNack cfg dlq msg e attempts =
     (case dlq of
        Some send \<Rightarrow>
          (let dead = dead_letter cfg msg e attempts
           in case send dead of
                Some _ \<Rightarrow> (Nack, [], [dead])
              | None \<Rightarrow> (Ack, [pipeline_event EventMessageDeadLettered cfg msg e], [dead]))
      | None \<Rightarrow>
          if DeliveryLimitReached cfg (m_DeliveryCount msg) then (Reject, [], []) else (Nack, [], []))"

record handled =
  h_result :: msg_result
  h_err :: "msg_error option"
  h_events :: "broker_event list"
  h_dead :: "message list"

text \<open>\<open>live\<close> says that the context has not ended after the retries.\<close>

definition pipeline_Handle ::
  "(int \<Rightarrow> int) \<Rightarrow> consume_config \<Rightarrow> (message \<Rightarrow> msg_error option) option \<Rightarrow> (nat \<Rightarrow> outcome) \<Rightarrow>
   (nat \<Rightarrow> int \<Rightarrow> bool) \<Rightarrow> bool \<Rightarrow> message \<Rightarrow> handled option" where
  "pipeline_Handle rand_N cfg dlq handler slept live msg =
     (case msq_retry rand_N cfg handler slept of
        None \<Rightarrow> None
      | Some (r, attempts, e) \<Rightarrow>
          (let (result, settled, dead) =
             (if r = Nack \<and> live then settleNack cfg dlq msg e attempts else (r, [], []))
           in Some \<lparr>h_result = result, h_err = e,
                h_events = pipeline_event EventMessageReceived cfg msg None # settled @
                  [if result = Nack then pipeline_event EventMessageNacked cfg msg e
                   else if result = Reject then pipeline_event EventMessageRejected cfg msg e
                   else pipeline_event EventMessageAcked cfg msg None],
                h_dead = dead\<rparr>))"

section \<open>Producer\<close>

text \<open>What a provider's send returns: nil, an error that is a \<^verbatim>\<open>BatchSendError\<close>, another error.\<close>

datatype send_error = PartialSend "nat list" msg_error | SendFailed msg_error

definition FailedIndex :: "nat list \<Rightarrow> nat \<Rightarrow> bool" where
  "FailedIndex failed i \<longleftrightarrow> i \<in> set failed"

fun send_text :: "send_error \<Rightarrow> msg_error" where
  "send_text (PartialSend failed e) =
     ''batch send: '' @ itoa (int (length failed)) @ '' message(s) failed: '' @ e"
| "send_text (SendFailed e) = e"

text \<open>\<open>inject\<close> adds the trace context to the headers of the copy that is sent.\<close>

definition producer_copy :: "((string \<rightharpoonup> string) \<Rightarrow> string \<rightharpoonup> string) \<Rightarrow> message \<Rightarrow> message" where
  "producer_copy inject m = m\<lparr>m_Headers := inject (m_Headers m)\<rparr>"

definition send_event :: "send_error option \<Rightarrow> nat \<Rightarrow> message \<Rightarrow> broker_event" where
  "send_event e i m =
     (case e of
        None \<Rightarrow> \<lparr>ev_Type = EventMessageSent, ev_Topic = m_Topic m, ev_MessageID = m_Id m, ev_Error = None\<rparr>
      | Some err \<Rightarrow>
          if (case err of PartialSend failed _ \<Rightarrow> \<not> FailedIndex failed i | _ \<Rightarrow> False)
          then \<lparr>ev_Type = EventMessageSent, ev_Topic = m_Topic m, ev_MessageID = m_Id m, ev_Error = None\<rparr>
          else \<lparr>ev_Type = EventProducerError, ev_Topic = m_Topic m, ev_MessageID = m_Id m,
                ev_Error = Some (send_text err)\<rparr>)"

text \<open>The loop over the events; a nil message is dereferenced, which panics (\<open>None\<close>).\<close>

fun send_events :: "send_error option \<Rightarrow> nat \<Rightarrow> message option list \<Rightarrow> broker_event list \<times> unit option" where
  "send_events e i [] = ([], Some ())"
| "send_events e i (None # ms) = ([], None)"
| "send_events e i (Some m # ms) = (case send_events e (Suc i) ms of (evs, r) \<Rightarrow> (send_event e i m # evs, r))"

text \<open>
  The result of a send: what the provider was given (\<open>None\<close> when it was not called), the events
  emitted, and the returned error, or \<open>None\<close> after a panic.
\<close>

record sent =
  s_given :: "message option list option"
  s_events :: "broker_event list"
  s_return :: "send_error option option"

definition producer_send ::
  "((string \<rightharpoonup> string) \<Rightarrow> string \<rightharpoonup> string) \<Rightarrow> (message option list \<Rightarrow> send_error option) \<Rightarrow> message option list \<Rightarrow> sent" where
  "producer_send inject deliver msgs =
     (if length msgs = 1 \<and> msgs ! 0 = None then \<lparr>s_given = None, s_events = [], s_return = None\<rparr>
      else
        (let out = map (map_option (producer_copy inject)) msgs; e = deliver out
         in case send_events e 0 msgs of
              (evs, r) \<Rightarrow> \<lparr>s_given = Some out, s_events = evs, s_return = map_option (\<lambda>_. e) r\<rparr>))"

text \<open>The common topic of a batch; \<open>None\<close> when a nil message is dereferenced.\<close>

fun rest_topic :: "string \<Rightarrow> message option list \<Rightarrow> string option" where
  "rest_topic t [] = Some t"
| "rest_topic t (None # ms) = None"
| "rest_topic t (Some m # ms) = (if m_Topic m \<noteq> t then Some [] else rest_topic t ms)"

fun batch_topic :: "message option list \<Rightarrow> string option" where
  "batch_topic [] = Some []"
| "batch_topic (None # ms) = None"
| "batch_topic (Some m # ms) = rest_topic (m_Topic m) ms"

definition SendMessagesBatch ::
  "((string \<rightharpoonup> string) \<Rightarrow> string \<rightharpoonup> string) \<Rightarrow> (message option list \<Rightarrow> send_error option) \<Rightarrow> message option list \<Rightarrow> sent" where
  "SendMessagesBatch inject deliver msgs =
     (case batch_topic msgs of
        None \<Rightarrow> \<lparr>s_given = None, s_events = [], s_return = None\<rparr>
      | Some _ \<Rightarrow> producer_send inject deliver msgs)"

definition SendMessage ::
  "((string \<rightharpoonup> string) \<Rightarrow> string \<rightharpoonup> string) \<Rightarrow> (message \<Rightarrow> send_error option) \<Rightarrow> message \<Rightarrow> sent" where
  "SendMessage inject deliver msg =
     producer_send inject (\<lambda>out. case out of [Some m] \<Rightarrow> deliver m | _ \<Rightarrow> None) [Some msg]"

section \<open>Consumers of the service\<close>

text \<open>
  \<^verbatim>\<open>NewConsumer\<close>: the effective configuration and whether it owns a dead-letter producer. The
  broker's factories are parameters: \<open>Inl\<close> an error, \<open>Inr False\<close> a nil result.
\<close>

datatype consumer_error = BrokerError msg_error | NilConsumer | NilProducer | DeadLetterProducer consumer_error

definition service_NewProducer :: "(msg_error, bool) result \<Rightarrow> (consumer_error, unit) result" where
  "service_NewProducer r =
     (case r of Inl e \<Rightarrow> Err (BrokerError e) | Inr ok \<Rightarrow> if ok then Ok () else Err NilProducer)"

definition service_NewConsumer ::
  "consume_defaults \<Rightarrow> (consume_config \<Rightarrow> (msg_error, bool) result) \<Rightarrow> (msg_error, bool) result \<Rightarrow> consume_config \<Rightarrow>
   (consumer_error, consume_config \<times> bool) result" where
  "service_NewConsumer defaults new_consumer new_producer cfg0 =
     (let cfg = apply_defaults defaults cfg0
      in case new_consumer cfg of
           Inl e \<Rightarrow> Err (BrokerError e)
         | Inr ok \<Rightarrow>
             if \<not> ok then Err NilConsumer
             else if cc_DeadLetterTopic cfg = [] then Ok (cfg, False)
             else case service_NewProducer new_producer of
                    Inl e \<Rightarrow> Err (DeadLetterProducer e)
                  | Inr _ \<Rightarrow> Ok (cfg, True))"

end
