(* ===== verification/Msq_Pipeline_Props.thy ===== *)
theory Msq_Pipeline_Props
  imports Msq_Pipeline
begin

text \<open>
  Properties of the messaging pipeline: bounded retries, no silent loss of a message, dead-letter copies
  within the header bound, one event per message of a batch.
\<close>

section \<open>Retries\<close>

lemma retry_backoff_ok: "0 < sint (bo_Min (retry_backoff cfg)) \<and> sint (bo_Min (retry_backoff cfg)) \<le> sint (bo_Max (retry_backoff cfg))"
  by (auto simp: retry_backoff_def Let_def max_duration_def defaultRetryBackoff_def maxRetryBackoff_def sint_nanos
      second_def millisecond_def)

definition attempts_ok :: "consume_config \<Rightarrow> (nat \<Rightarrow> outcome) \<Rightarrow> nat \<Rightarrow> msg_result \<times> nat \<times> msg_error option \<Rightarrow> bool" where
  "attempts_ok cfg handler from res =
     (case res of (r, a, e) \<Rightarrow>
        from < a \<and> (a \<le> Suc from \<or> int a \<le> cc_MaxRetries cfg + 1) \<and> run_handler (handler a) = (r, e) \<and>
        (\<forall>k. from < k \<and> k < a \<longrightarrow> fst (run_handler (handler k)) = Nack))"

lemma retry_from_ok:
  assumes "0 < sint (bo_Min b)" "sint (bo_Min b) \<le> sint (bo_Max b)" "rand_ok rand_N"
  shows "\<exists>res. retry_from rand_N cfg handler slept from b = Some res \<and> attempts_ok cfg handler from res \<and>
     ((\<forall>k d. slept k d) \<longrightarrow> fst res = Nack \<longrightarrow> int (fst (snd res)) > cc_MaxRetries cfg)"
  using assms
proof (induction rand_N cfg handler slept "from" b rule: retry_from.induct)
  case (1 rand_N cfg handler slept "from" b)
  obtain r e where run: "run_handler (handler (Suc from)) = (r, e)" by (cases "run_handler (handler (Suc from))")
  show ?case
  proof (cases "r \<noteq> Nack \<or> int (Suc from) > cc_MaxRetries cfg")
    case True
    with run show ?thesis
      by (intro exI [of _ "(r, Suc from, e)"]) (auto simp: retry_from.simps Let_def attempts_ok_def)
  next
    case False
    obtain d b' where n: "backoff_Next rand_N b = Some (d, b')" "b' = b\<lparr>bo_attempt := Suc (bo_attempt b)\<rparr>"
      using backoff_Next_eq [OF 1(2-4)] by blast
    show ?thesis
    proof (cases "slept (Suc from) d")
      case s: True
      have "\<exists>res. retry_from rand_N cfg handler slept (Suc from) b' = Some res \<and> attempts_ok cfg handler (Suc from) res \<and>
        ((\<forall>k d. slept k d) \<longrightarrow> fst res = Nack \<longrightarrow> int (fst (snd res)) > cc_MaxRetries cfg)"
        using False s n 1(2-4) by (intro 1(1) [OF refl refl run [symmetric] _ n(1) refl s]) auto
      then obtain res where res: "retry_from rand_N cfg handler slept (Suc from) b' = Some res"
        "attempts_ok cfg handler (Suc from) res"
        "(\<forall>k d. slept k d) \<longrightarrow> fst res = Nack \<longrightarrow> int (fst (snd res)) > cc_MaxRetries cfg" by blast
      have "attempts_ok cfg handler from res"
        unfolding attempts_ok_def split_beta
      proof (intro conjI allI impI)
        fix k assume "from < k \<and> k < fst (snd res)"
        then show "fst (run_handler (handler k)) = Nack"
          using res(2) False run by (cases "k = Suc from") (auto simp: attempts_ok_def split_beta)
      qed (use res(2) False in \<open>auto simp: attempts_ok_def split_beta\<close>)
      with res False n s run show ?thesis by (intro exI [of _ res]) (simp add: retry_from.simps [of _ _ _ _ "from"])
    next
      case s: False
      with False n run show ?thesis
        by (intro exI [of _ "(r, Suc from, e)"]) (auto simp: retry_from.simps [of _ _ _ _ "from"] attempts_ok_def)
    qed
  qed
qed

section \<open>Truncation\<close>

lemma encode_valid_starts:
  assumes "valid_rune r"
  shows "\<exists>b bs. encode_valid r = b # bs \<and> \<not> is_cont b \<and> list_all is_cont bs"
  using assms by (auto simp: encode_valid_def is_cont_def valid_rune_def)

lemma encode_rune_starts:
  assumes "valid_rune r"
  shows "\<exists>c cs. encode_rune r = c # cs \<and> RuneStart c \<and> list_all (\<lambda>c. \<not> RuneStart c) cs"
proof -
  obtain b bs where e: "encode_valid r = b # bs" "\<not> is_cont b" "list_all is_cont bs"
    using encode_valid_starts [OF assms] by blast
  have "\<forall>x \<in> set (b # bs). x < 256" using encode_valid_bytes [OF assms] e(1) by auto
  with e assms show ?thesis
    by (auto simp: encode_rune_def RuneStart_def list_all_iff)
qed

text \<open>A position of an encoded string whose byte starts a rune is a rune boundary.\<close>

lemma take_at_rune_start:
  assumes "list_all valid_rune rs" "n < length (encode_runes rs)" "RuneStart (encode_runes rs ! n)"
  shows "\<exists>k. take n (encode_runes rs) = encode_runes (take k rs)"
  using assms
proof (induction rs arbitrary: n)
  case (Cons r rs)
  obtain c cs where e: "encode_rune r = c # cs" "RuneStart c" "list_all (\<lambda>c. \<not> RuneStart c) cs"
    using encode_rune_starts [of r] Cons.prems(1) by auto
  consider "n = 0" | "0 < n" "n < length (encode_rune r)" | "length (encode_rune r) \<le> n" by linarith
  then show ?case
  proof cases
    case 1
    then show ?thesis by (intro exI [of _ 0]) simp
  next
    case 2
    then have "\<not> RuneStart (encode_rune r ! n)" using e by (auto simp: list_all_length nth_Cons')
    with 2 Cons.prems(3) show ?thesis by (simp add: nth_append)
  next
    case 3
    let ?m = "n - length (encode_rune r)"
    have "\<exists>k. take ?m (encode_runes rs) = encode_runes (take k rs)"
      using 3 Cons.prems by (intro Cons.IH) (auto simp: nth_append)
    then obtain k where "take ?m (encode_runes rs) = encode_runes (take k rs)" by blast
    with 3 show ?thesis by (intro exI [of _ "Suc k"]) simp
  qed
qed simp

lemma cut_back_start: "cut_back s n \<le> n \<and> (cut_back s n = 0 \<or> RuneStart (s ! cut_back s n))"
  by (induction n) auto

lemma truncate_utf8_prefix: "prefix (truncate_utf8 s n) s \<and> length (truncate_utf8 s n) \<le> n"
  using cut_back_start [of s n] by (auto simp: truncate_utf8_def take_is_prefix)

lemma truncate_utf8_valid:
  assumes "valid_string s" shows "valid_string (truncate_utf8 s n)"
proof (cases "length s \<le> n")
  case False
  have s: "s = encode_runes (runes s)" using assms by (simp add: valid_string_def)
  let ?c = "cut_back s n"
  have "\<exists>k. take ?c s = encode_runes (take k (runes s))"
  proof (cases "?c = 0")
    case True
    then show ?thesis by (intro exI [of _ 0]) simp
  next
    case nz: False
    with cut_back_start [of s n] False have "?c < length s" "RuneStart (s ! ?c)" by auto
    with take_at_rune_start [OF runes_valid, of ?c s] s show ?thesis by metis
  qed
  then obtain k where "take ?c s = encode_runes (take k (runes s))" by blast
  moreover have "list_all valid_rune (take k (runes s))"
    using runes_valid [of s] by (auto simp: list_all_iff dest: in_set_takeD)
  ultimately show ?thesis using False by (simp add: truncate_utf8_def)
qed (use assms in \<open>simp add: truncate_utf8_def\<close>)

section \<open>Properties\<close>

lemma msq_retry_ok:
  assumes "rand_ok rand_N"
  shows "\<exists>r a e. msq_retry rand_N cfg handler slept = Some (r, a, e) \<and> attempts_ok cfg handler 0 (r, a, e) \<and>
     ((\<forall>k d. slept k d) \<longrightarrow> r = Nack \<longrightarrow> int a > cc_MaxRetries cfg)"
  using retry_from_ok [of "retry_backoff cfg" rand_N cfg handler slept 0] retry_backoff_ok [of cfg] assms
  by (auto simp: msq_retry_def)

text \<open>C35. The retry loop ends and is bounded: it returns the outcome of its last attempt, at most
  MaxRetries + 1 (or one) attempts were made, every earlier attempt was nacked or panicked, and a nack is
  returned only after the last retry unless a wait was cut short.\<close>

theorem retry_is_bounded:
  assumes "rand_ok rand_N"
  shows "\<exists>r a e. msq_retry rand_N cfg handler slept = Some (r, a, e) \<and>
     1 \<le> a \<and> int a \<le> max 1 (cc_MaxRetries cfg + 1) \<and> run_handler (handler a) = (r, e) \<and>
     (\<forall>k. 1 \<le> k \<and> k < a \<longrightarrow> fst (run_handler (handler k)) = Nack) \<and>
     ((\<forall>k d. slept k d) \<longrightarrow> r = Nack \<longrightarrow> int a > cc_MaxRetries cfg)"
proof -
  obtain r a e where res: "msq_retry rand_N cfg handler slept = Some (r, a, e)" "attempts_ok cfg handler 0 (r, a, e)"
    "(\<forall>k d. slept k d) \<longrightarrow> r = Nack \<longrightarrow> int a > cc_MaxRetries cfg"
    using msq_retry_ok [OF assms] by blast
  then show ?thesis
    by (intro exI [of _ r] exI [of _ a] exI [of _ e]) (auto simp: attempts_ok_def Suc_le_eq)
qed

definition flaky :: "nat \<Rightarrow> outcome" where
  "flaky k = (if k = 1 then Panics ''boom'' else if k = 2 then Returns Nack None else Returns Ack None)"

lemma first_ack: "run_handler (flaky a) = (r, e) \<Longrightarrow> fst (run_handler (flaky 1)) = Nack \<and> fst (run_handler (flaky 2)) = Nack"
  by (simp add: flaky_def)

theorem retry_is_bounded_witness:
  "\<exists>a e. msq_retry (\<lambda>n. 0) ((DefaultConsumeConfig ''orders'')\<lparr>cc_MaxRetries := 5\<rparr>) flaky (\<lambda>_ _. True) = Some (Ack, a, e) \<and> a \<le> 6"
proof -
  let ?cfg = "(DefaultConsumeConfig ''orders'')\<lparr>cc_MaxRetries := 5\<rparr>"
  have "rand_ok (\<lambda>n. 0)" by (simp add: rand_ok_def)
  from retry_is_bounded [OF this, of ?cfg flaky "\<lambda>_ _. True"]
  obtain r a e where r: "msq_retry (\<lambda>n. 0) ?cfg flaky (\<lambda>_ _. True) = Some (r, a, e)" "int a \<le> max 1 6"
    "run_handler (flaky a) = (r, e)" "1 \<le> a" "r = Nack \<longrightarrow> int a > 5"
    by auto
  then have "r = Ack" by (auto simp: flaky_def split: if_splits)
  with r show ?thesis by auto
qed

text \<open>C21. No message is lost silently: what \<^verbatim>\<open>Handle\<close> answers the broker is the handler's last
  answer, except that a nack becomes Ack only when the dead-letter producer accepted a copy with the same
  payload, and Reject only without a dead-letter topic and when the delivery limit is reached.\<close>

theorem handle_loses_no_message:
  assumes "rand_ok rand_N"
  shows "\<exists>h r a e. pipeline_Handle rand_N cfg dlq handler slept live msg = Some h \<and>
     msq_retry rand_N cfg handler slept = Some (r, a, e) \<and> h_err h = e \<and>
     (h_result h \<noteq> r \<longrightarrow> r = Nack \<and> live \<and>
       (h_result h = Ack \<and>
          (\<exists>send dead. dlq = Some send \<and> h_dead h = [dead] \<and> send dead = None \<and>
             m_Value dead = m_Value msg \<and> m_Key dead = m_Key msg \<and> m_Topic dead = cc_DeadLetterTopic cfg) \<or>
        h_result h = Reject \<and> dlq = None \<and> h_dead h = [] \<and> DeliveryLimitReached cfg (m_DeliveryCount msg)))"
proof -
  obtain r a e where res: "msq_retry rand_N cfg handler slept = Some (r, a, e)"
    using msq_retry_ok [OF assms] by blast
  have dead: "m_Value (dead_letter cfg msg e a) = m_Value msg" "m_Key (dead_letter cfg msg e a) = m_Key msg"
    "m_Topic (dead_letter cfg msg e a) = cc_DeadLetterTopic cfg"
    by (simp_all add: dead_letter_def Let_def)
  show ?thesis
  proof (cases "r = Nack \<and> live")
    case False
    with res show ?thesis by (auto simp: pipeline_Handle_def)
  next
    case True
    with res dead show ?thesis
      by (cases dlq) (auto simp: pipeline_Handle_def settleNack_def Let_def split: option.split)
  qed
qed

definition sample_message :: message where
  "sample_message =
     \<lparr>m_Id = ''7'', m_Topic = ''orders'', m_Type = [], m_Source = [], m_Key = ''k'', m_Value = ''{}'',
      m_Timestamp = 0, m_Headers = Map.empty, m_DeliveryCount = 1\<rparr>"

lemma always_nack_handled:
  assumes "rand_ok rand_N" "dlq = Some send" "\<And>m. send m = None"
  shows "\<exists>h. pipeline_Handle rand_N cfg dlq (\<lambda>_. Returns Nack None) slept True msg = Some h \<and> h_result h = Ack \<and>
    map ev_Type (h_events h) = [EventMessageReceived, EventMessageDeadLettered, EventMessageAcked]"
proof -
  obtain r a e where res: "msq_retry rand_N cfg (\<lambda>_. Returns Nack None) slept = Some (r, a, e)"
    "attempts_ok cfg (\<lambda>_. Returns Nack None) 0 (r, a, e)"
    using msq_retry_ok [OF assms(1)] by blast
  then have "r = Nack" by (auto simp: attempts_ok_def)
  with res(1) assms(2,3) show ?thesis
    by (simp add: pipeline_Handle_def settleNack_def pipeline_event_def Let_def)
qed

theorem handle_loses_no_message_witness:
  "\<exists>h. pipeline_Handle (\<lambda>n. 0) ((DefaultConsumeConfig ''orders'')\<lparr>cc_DeadLetterTopic := ''dead''\<rparr>) (Some (\<lambda>_. None))
       (\<lambda>_. Returns Nack None) (\<lambda>_ _. True) True sample_message = Some h \<and> h_result h = Ack \<and>
     map m_Topic (h_dead h) = [''dead'']"
proof -
  let ?cfg = "(DefaultConsumeConfig ''orders'')\<lparr>cc_DeadLetterTopic := ''dead''\<rparr>"
  have r: "rand_ok (\<lambda>n. 0)" by (simp add: rand_ok_def)
  obtain h where h: "pipeline_Handle (\<lambda>n. 0) ?cfg (Some (\<lambda>_. None)) (\<lambda>_. Returns Nack None) (\<lambda>_ _. True) True sample_message = Some h"
    "h_result h = Ack"
    using always_nack_handled [where send = "\<lambda>_. None", OF r refl refl] by blast
  from handle_loses_no_message [OF r, of ?cfg "Some (\<lambda>_. None)" "\<lambda>_. Returns Nack None" "\<lambda>_ _. True" True sample_message] h
  obtain r a e where "msq_retry (\<lambda>n. 0) ?cfg (\<lambda>_. Returns Nack None) (\<lambda>_ _. True) = Some (r, a, e)"
    "h_result h \<noteq> r \<longrightarrow> (\<exists>dead. h_dead h = [dead] \<and> m_Topic dead = ''dead'')"
    by auto
  moreover have "r = Nack"
    using msq_retry_ok [OF r, of ?cfg "\<lambda>_. Returns Nack None" "\<lambda>_ _. True"] calculation(1) by (auto simp: attempts_ok_def)
  ultimately show ?thesis using h by auto
qed

text \<open>With a dead-letter topic the delivery limit is never consulted: a message that is still nacked
  after its in-process retries is dead-lettered and acknowledged on its first delivery, whatever
  MaxDeliveries and the delivery count are.\<close>

theorem dead_letter_ignores_delivery_limit:
  assumes "msq_retry rand_N cfg handler slept = Some (Nack, a, e)" "send (dead_letter cfg msg e a) = None"
  shows "\<exists>h. pipeline_Handle rand_N cfg (Some send) handler slept True msg = Some h \<and> h_result h = Ack \<and>
     h_dead h = [dead_letter cfg msg e a] \<and>
     map ev_Type (h_events h) = [EventMessageReceived, EventMessageDeadLettered, EventMessageAcked]"
  using assms by (simp add: pipeline_Handle_def settleNack_def pipeline_event_def Let_def)

theorem dead_letter_ignores_delivery_limit_witness:
  "\<exists>a e h. DeliveryLimit ((DefaultConsumeConfig ''orders'')\<lparr>cc_DeadLetterTopic := ''dead'', cc_MaxDeliveries := 5\<rparr>) = 5 \<and>
     m_DeliveryCount sample_message = 1 \<and>
     pipeline_Handle (\<lambda>n. 0) ((DefaultConsumeConfig ''orders'')\<lparr>cc_DeadLetterTopic := ''dead'', cc_MaxDeliveries := 5\<rparr>)
       (Some (\<lambda>_. None)) (\<lambda>_. Returns Nack None) (\<lambda>_ _. True) True sample_message = Some h \<and> h_result h = Ack"
proof -
  let ?cfg = "(DefaultConsumeConfig ''orders'')\<lparr>cc_DeadLetterTopic := ''dead'', cc_MaxDeliveries := 5\<rparr>"
  have "rand_ok (\<lambda>n. 0)" by (simp add: rand_ok_def)
  then obtain a e where "msq_retry (\<lambda>n. 0) ?cfg (\<lambda>_. Returns Nack None) (\<lambda>_ _. True) = Some (Nack, a, e)"
    using msq_retry_ok [of "\<lambda>n. 0" ?cfg "\<lambda>_. Returns Nack None" "\<lambda>_ _. True"] by (auto simp: attempts_ok_def)
  from dead_letter_ignores_delivery_limit [OF this, of "\<lambda>_. None" sample_message]
  show ?thesis by (auto simp: DeliveryLimit_def sample_message_def)
qed

text \<open>The error header of a dead letter is bounded and readable: the copied text is an initial part of
  the error of at most 512 bytes, and it is valid UTF-8 when the error is.\<close>

theorem dead_letter_error_header:
  "\<exists>t. m_Headers (dead_letter cfg msg e a) HeaderDLQError = Some t \<and> prefix t (errorText e) \<and> length t \<le> 512 \<and>
     (\<not> valid_string (errorText e) \<or> valid_string t)"
  using truncate_utf8_prefix [of "errorText e" 512] truncate_utf8_valid [of "errorText e" 512]
  by (auto simp: dead_letter_def Let_def HeaderDLQError_def HeaderDLQAttempts_def HeaderDLQDeliveries_def
      HeaderDLQOriginalTopic_def maxDLQErrorLen_def)

theorem dead_letter_error_header_witness:
  "\<exists>t. m_Headers (dead_letter (DefaultConsumeConfig ''orders'') sample_message (Some ''timeout'') 3) HeaderDLQError = Some t \<and>
     prefix t ''timeout''"
  using dead_letter_error_header [of "DefaultConsumeConfig ''orders''" sample_message "Some ''timeout''" 3]
  by (auto simp: errorText_def)

section \<open>Batches\<close>

lemma send_events_all:
  "send_events e i (map Some ms) = (map (\<lambda>(j, m). send_event e j m) (enumerate i ms), Some ())"
  by (induction ms arbitrary: i) auto

lemma send_events_nil: "None \<in> set msgs \<Longrightarrow> snd (send_events e i msgs) = None"
  by (induction e i msgs rule: send_events.induct) (auto split: prod.splits)

lemma rest_topic_Some: "rest_topic t (map Some ms) \<noteq> None"
  by (induction ms) auto

lemma batch_topic_Some: "batch_topic (map Some ms) \<noteq> None"
  by (cases ms) (auto simp: rest_topic_Some)

definition undelivered :: "send_error option \<Rightarrow> nat \<Rightarrow> bool" where
  "undelivered e i =
     (case e of None \<Rightarrow> False | Some (PartialSend failed _) \<Rightarrow> FailedIndex failed i | Some (SendFailed _) \<Rightarrow> True)"

lemma send_event_fields:
  "ev_MessageID (send_event e i m) = m_Id m"
  "ev_Type (send_event e i m) = EventProducerError \<longleftrightarrow> undelivered e i"
  by (simp_all add: send_event_def undelivered_def split: option.split send_error.split)

lemma map_enumerate:
  "map (\<lambda>(i, x). f i) (enumerate n xs) = map f [n..<n + length xs]"
  "map (\<lambda>(i, x). g x) (enumerate n xs) = map g xs"
  by (induction xs arbitrary: n) (simp_all add: upt_conv_Cons del: upt_Suc)

text \<open>A batch reports every message once: the provider is given the batch in order with only the
  headers extended, the provider's error is returned, and there is one event per message, an error event
  exactly for the messages that were not delivered.\<close>

theorem batch_reports_every_message:
  "(let s = SendMessagesBatch inject deliver (map Some ms);
        e = deliver (map (Some \<circ> producer_copy inject) ms)
    in s_given s = Some (map (Some \<circ> producer_copy inject) ms) \<and> s_return s = Some e \<and>
       map ev_MessageID (s_events s) = map m_Id ms \<and>
       map (\<lambda>ev. ev_Type ev = EventProducerError) (s_events s) = map (undelivered e) [0..<length ms])"
proof -
  let ?e = "deliver (map (Some \<circ> producer_copy inject) ms)"
  have s: "SendMessagesBatch inject deliver (map Some ms) =
      \<lparr>s_given = Some (map (Some \<circ> producer_copy inject) ms),
       s_events = map (\<lambda>(j, m). send_event ?e j m) (enumerate 0 ms), s_return = Some ?e\<rparr>"
    using batch_topic_Some [of ms]
    by (cases ms) (auto simp: SendMessagesBatch_def producer_send_def send_events_all Let_def comp_def)
  show ?thesis
    unfolding s Let_def
    by (simp add: split_beta' comp_def send_event_fields
        map_enumerate [where n = 0, unfolded split_beta'])
qed

text \<open>A nil message panics the batch, possibly after it was delivered: the send never returns, and
  when two earlier messages differ in topic the provider has already been given the batch.\<close>

theorem nil_message_panics_after_delivery:
  assumes "m_Topic a \<noteq> m_Topic b" "None \<in> set rest"
  shows "s_return (SendMessagesBatch inject deliver (Some a # Some b # rest)) = None \<and>
    s_given (SendMessagesBatch inject deliver (Some a # Some b # rest)) =
      Some (map (map_option (producer_copy inject)) (Some a # Some b # rest))"
  using assms send_events_nil [of "Some a # Some b # rest" _ 0]
  by (simp add: SendMessagesBatch_def producer_send_def Let_def split_beta del: send_events.simps)

theorem nil_message_panics_after_delivery_witness:
  "s_return (SendMessagesBatch id (\<lambda>_. None) [Some sample_message, Some (WithTopic ''audit'' sample_message), None]) = None \<and>
   s_given (SendMessagesBatch id (\<lambda>_. None) [Some sample_message, Some (WithTopic ''audit'' sample_message), None]) \<noteq> None"
  using nil_message_panics_after_delivery [of sample_message "WithTopic ''audit'' sample_message" "[None]" id "\<lambda>_. None"]
  by (simp add: WithTopic_def sample_message_def)

end
