(* ===== verification/Msq_Manager.thy ===== *)
theory Msq_Manager
  imports Msq_Pipeline
begin

text \<open>
  The consumer manager of \<^verbatim>\<open>msq/core/manager.go\<close>: registering and starting consumers, the
  supervision of one consumer as a machine driven by what its waits, creations and runs return, and the
  outage bookkeeping that the health check reads. Time is a number of nanoseconds since an epoch.
\<close>

section \<open>Outages\<close>

record consumer_state =
  st_topic :: string
  st_running :: bool
  st_downSince :: "int option"
  st_err :: "msg_error option"

definition new_state :: "string \<Rightarrow> consumer_state" where
  "new_state topic = \<lparr>st_topic = topic, st_running = False, st_downSince = None, st_err = None\<rparr>"

definition state_up :: "consumer_state \<Rightarrow> consumer_state" where
  "state_up s = s\<lparr>st_running := True\<rparr>"

definition state_down :: "int \<Rightarrow> msg_error \<Rightarrow> bool \<Rightarrow> consumer_state \<Rightarrow> consumer_state" where
  "state_down now e newOutage s =
     (let s = s\<lparr>st_running := False, st_err := Some e\<rparr>
      in if newOutage \<or> st_downSince s = None then s\<lparr>st_downSince := Some now\<rparr> else s)"

definition state_stop :: "consumer_state \<Rightarrow> consumer_state" where
  "state_stop s = s\<lparr>st_running := False, st_downSince := None\<rparr>"

datatype manager_error =
  ErrManagerClosed
| ErrTopicRequired
| ErrConsumerFailed string msg_error
| ErrConsumerDown string int "msg_error option"

definition state_health :: "int \<Rightarrow> int \<Rightarrow> consumer_state \<Rightarrow> manager_error option" where
  "state_health now grace s =
     (if st_running s then None
      else case st_downSince s of
        None \<Rightarrow> None
      | Some since \<Rightarrow>
          if now - since \<ge> grace then Some (ErrConsumerDown (st_topic s) (now - since) (st_err s)) else None)"

section \<open>Manager\<close>

definition DefaultHealthGrace :: int where "DefaultHealthGrace = 30 * second"

record manager =
  mg_entries :: "consume_config list"
  mg_started :: nat
  mg_states :: "consumer_state list"
  mg_closed :: bool
  mg_grace :: int

definition newConsumerManager :: manager where
  "newConsumerManager =
     \<lparr>mg_entries = [], mg_started = 0, mg_states = [], mg_closed = False, mg_grace = DefaultHealthGrace\<rparr>"

definition SetHealthGrace :: "int \<Rightarrow> manager \<Rightarrow> manager" where
  "SetHealthGrace d m = m\<lparr>mg_grace := max d 0\<rparr>"

definition RegisterHandler :: "consume_config \<Rightarrow> manager \<Rightarrow> manager" where
  "RegisterHandler cfg m = m\<lparr>mg_entries := mg_entries m @ [cfg]\<rparr>"

text \<open>
  One pending entry of \<^verbatim>\<open>start\<close>: \<open>create\<close> is what \<^verbatim>\<open>newConsumer\<close> returns for a
  configuration; the entry whose supervisor is launched is returned.
\<close>

definition start_entry ::
  "(consume_config \<Rightarrow> msg_error option) \<Rightarrow> int \<Rightarrow> consume_config \<Rightarrow> manager \<Rightarrow>
   manager_error list \<times> consume_config list \<times> manager" where
  "start_entry create now e m =
     (if cc_Topic e = [] then ([ErrTopicRequired], [], m)
      else
        (let (errs, st) =
           (case create e of
              None \<Rightarrow> ([], new_state (cc_Topic e))
            | Some err \<Rightarrow> ([ErrConsumerFailed (cc_Topic e) err], state_down now err False (new_state (cc_Topic e))))
         in if mg_closed m then (errs @ [ErrManagerClosed], [], m)
            else (errs, [e], m\<lparr>mg_states := mg_states m @ [st]\<rparr>)))"

fun start_entries ::
  "(consume_config \<Rightarrow> msg_error option) \<Rightarrow> int \<Rightarrow> consume_config list \<Rightarrow> manager \<Rightarrow>
   manager_error list \<times> consume_config list \<times> manager" where
  "start_entries create now [] m = ([], [], m)"
| "start_entries create now (e # es) m =
     (let (errs1, sp1, m1) = start_entry create now e m; (errs2, sp2, m2) = start_entries create now es m1
      in (errs1 @ errs2, sp1 @ sp2, m2))"

definition manager_start ::
  "(consume_config \<Rightarrow> msg_error option) \<Rightarrow> int \<Rightarrow> manager \<Rightarrow> manager_error list \<times> consume_config list \<times> manager" where
  "manager_start create now m =
     (if mg_closed m then ([ErrManagerClosed], [], m)
      else start_entries create now (drop (mg_started m) (mg_entries m))
             (m\<lparr>mg_started := length (mg_entries m)\<rparr>))"

definition with_concurrency :: "int \<Rightarrow> consume_config \<Rightarrow> consume_config" where
  "with_concurrency n cfg = (if cc_Concurrency cfg \<le> 0 then cfg\<lparr>cc_Concurrency := n\<rparr> else cfg)"

definition manager_Dispatcher ::
  "(consume_config \<Rightarrow> msg_error option) \<Rightarrow> int \<Rightarrow> int \<Rightarrow> manager \<Rightarrow> manager_error list \<times> consume_config list \<times> manager" where
  "manager_Dispatcher create now concurrency m =
     manager_start create now
       (m\<lparr>mg_entries := take (mg_started m) (mg_entries m) @
            map (with_concurrency concurrency) (drop (mg_started m) (mg_entries m))\<rparr>)"

definition manager_Healthy :: "int \<Rightarrow> manager \<Rightarrow> manager_error list" where
  "manager_Healthy now m =
     (if mg_closed m then [ErrManagerClosed]
      else errors_join (map (state_health now (mg_grace m)) (mg_states m)))"

definition manager_Close :: "manager \<Rightarrow> manager" where
  "manager_Close m = m\<lparr>mg_closed := True\<rparr>"

section \<open>Supervision of one consumer\<close>

definition restartBackoffMin :: duration where "restartBackoffMin = nanos second"
definition restartBackoffMax :: duration where "restartBackoffMax = nanos (30 * second)"

definition errConsumerExited :: msg_error where
  "errConsumerExited = ''msq: consumer stopped before shutdown''"

text \<open>\<open>Absent\<close>: no consumer (c == nil); \<open>Consuming began\<close>: in \<^verbatim>\<open>Consume\<close>; \<open>Exited\<close>: the supervisor returned.\<close>

datatype sup_phase = Absent | Consuming int | Exited

record supervisor =
  sv_phase :: sup_phase
  sv_backoff :: backoff
  sv_state :: consumer_state
  sv_waits :: "int list"

text \<open>What the supervisor waits for next: the backoff sleep and the creation, or the end of a run.\<close>

datatype sup_event =
  SleepCut
| CreateFailed msg_error int
| CreateOk int
| ConsumeEnds "msg_error option" int bool

definition supervise_init :: "bool \<Rightarrow> int \<Rightarrow> consumer_state \<Rightarrow> supervisor" where
  "supervise_init created now st =
     (let b = \<lparr>bo_Min = restartBackoffMin, bo_Max = restartBackoffMax, bo_attempt = 0\<rparr>
      in if created then \<lparr>sv_phase = Consuming now, sv_backoff = b, sv_state = state_up st, sv_waits = []\<rparr>
         else \<lparr>sv_phase = Absent, sv_backoff = b, sv_state = st, sv_waits = []\<rparr>)"

definition supervise_step :: "(int \<Rightarrow> int) \<Rightarrow> int \<Rightarrow> sup_event \<Rightarrow> supervisor \<Rightarrow> supervisor option" where
  "supervise_step rand_N grace ev s =
     (case (sv_phase s, ev) of
        (Absent, ConsumeEnds _ _ _) \<Rightarrow> None
      | (Absent, _) \<Rightarrow>
          (case backoff_Next rand_N (sv_backoff s) of
             None \<Rightarrow> None
           | Some (d, b) \<Rightarrow>
               (let s1 = s\<lparr>sv_backoff := b, sv_waits := sv_waits s @ [d]\<rparr>
                in case ev of
                     SleepCut \<Rightarrow> Some (s1\<lparr>sv_phase := Exited, sv_state := state_stop (sv_state s1)\<rparr>)
                   | CreateFailed e now \<Rightarrow> Some (s1\<lparr>sv_state := state_down now e False (sv_state s1)\<rparr>)
                   | CreateOk now \<Rightarrow> Some (s1\<lparr>sv_phase := Consuming now, sv_state := state_up (sv_state s1)\<rparr>)
                   | ConsumeEnds _ _ _ \<Rightarrow> None))
      | (Consuming began, ConsumeEnds e now ctx_ended) \<Rightarrow>
          if ctx_ended then Some (s\<lparr>sv_phase := Exited, sv_state := state_stop (sv_state s)\<rparr>)
          else
            (let ranLong = (now - began \<ge> grace);
                 err = (case e of Some x \<Rightarrow> x | None \<Rightarrow> errConsumerExited)
             in Some (s\<lparr>sv_phase := Absent,
                        sv_backoff := (if ranLong then backoff_Reset (sv_backoff s) else sv_backoff s),
                        sv_state := state_down now err ranLong (sv_state s)\<rparr>))
      | _ \<Rightarrow> None)"

fun supervise_run :: "(int \<Rightarrow> int) \<Rightarrow> int \<Rightarrow> sup_event list \<Rightarrow> supervisor \<Rightarrow> supervisor option" where
  "supervise_run rand_N grace [] s = Some s"
| "supervise_run rand_N grace (ev # evs) s =
     (case supervise_step rand_N grace ev s of None \<Rightarrow> None | Some s' \<Rightarrow> supervise_run rand_N grace evs s')"

end
