(* ===== verification/Msq_Manager_Props.thy ===== *)
theory Msq_Manager_Props
  imports Msq_Manager
begin

text \<open>Properties of the consumer manager: every registered consumer is launched once, a supervisor only
  ends with its context, and a crash loop is reported as one outage.\<close>

section \<open>Starting\<close>

datatype manager_call = CRegister consume_config | CStart | CDispatch int | CClose

fun manager_calls ::
  "(consume_config \<Rightarrow> msg_error option) \<Rightarrow> int \<Rightarrow> manager_call list \<Rightarrow> manager \<Rightarrow> consume_config list \<times> manager" where
  "manager_calls create now [] m = ([], m)"
| "manager_calls create now (CRegister cfg # cs) m = manager_calls create now cs (RegisterHandler cfg m)"
| "manager_calls create now (CClose # cs) m = manager_calls create now cs (manager_Close m)"
| "manager_calls create now (CStart # cs) m =
     (case manager_start create now m of (_, sp, m1) \<Rightarrow>
        (case manager_calls create now cs m1 of (sp', m2) \<Rightarrow> (sp @ sp', m2)))"
| "manager_calls create now (CDispatch n # cs) m =
     (case manager_Dispatcher create now n m of (_, sp, m1) \<Rightarrow>
        (case manager_calls create now cs m1 of (sp', m2) \<Rightarrow> (sp @ sp', m2)))"

abbreviation has_topic :: "consume_config \<Rightarrow> bool" where
  "has_topic e \<equiv> cc_Topic e \<noteq> []"

lemma start_entries_eq:
  "\<not> mg_closed m \<Longrightarrow> start_entries create now es m = (errs, sp, m1) \<Longrightarrow>
     sp = filter has_topic es \<and> mg_entries m1 = mg_entries m \<and> mg_started m1 = mg_started m \<and>
     \<not> mg_closed m1 \<and> map st_topic (mg_states m1) = map st_topic (mg_states m) @ map cc_Topic sp"
proof (induction es arbitrary: m errs sp m1)
  case (Cons e es)
  obtain errs1 sp1 m2 where e: "start_entry create now e m = (errs1, sp1, m2)" by (cases "start_entry create now e m")
  obtain errs2 sp2 m3 where es: "start_entries create now es m2 = (errs2, sp2, m3)" by (cases "start_entries create now es m2")
  have "sp1 = filter has_topic [e] \<and> mg_entries m2 = mg_entries m \<and> mg_started m2 = mg_started m \<and>
      \<not> mg_closed m2 \<and> map st_topic (mg_states m2) = map st_topic (mg_states m) @ map cc_Topic sp1"
    using e Cons.prems(1)
    by (cases "create e") (auto simp: start_entry_def Let_def new_state_def state_down_def split: if_splits)
  with Cons.IH [OF _ es] Cons.prems(2) e es show ?case by auto
qed auto

definition launched :: "manager \<Rightarrow> consume_config list" where
  "launched m = filter has_topic (take (mg_started m) (mg_entries m))"

definition manager_inv :: "manager \<Rightarrow> bool" where
  "manager_inv m \<longleftrightarrow> mg_started m \<le> length (mg_entries m) \<and> map st_topic (mg_states m) = map cc_Topic (launched m)"

lemma manager_start_inv:
  assumes "manager_start create now m = (errs, sp, m1)" "manager_inv m"
  shows "launched m1 = launched m @ sp \<and> manager_inv m1"
proof (cases "mg_closed m")
  case False
  let ?m = "m\<lparr>mg_started := length (mg_entries m)\<rparr>"
  have s: "start_entries create now (drop (mg_started m) (mg_entries m)) ?m = (errs, sp, m1)"
    using assms(1) False by (simp add: manager_start_def)
  have split: "filter has_topic (mg_entries m) = launched m @ filter has_topic (drop (mg_started m) (mg_entries m))"
    unfolding launched_def by (metis append_take_drop_id filter_append)
  show ?thesis
    using start_entries_eq [OF _ s] False assms(2) split by (simp add: launched_def manager_inv_def)
qed (use assms in \<open>simp add: manager_start_def\<close>)

lemma Dispatcher_prepares:
  assumes "manager_inv m"
  shows "manager_inv (m\<lparr>mg_entries := take (mg_started m) (mg_entries m) @
            map (with_concurrency n) (drop (mg_started m) (mg_entries m))\<rparr>)" (is "manager_inv ?m")
    and "launched (m\<lparr>mg_entries := take (mg_started m) (mg_entries m) @
            map (with_concurrency n) (drop (mg_started m) (mg_entries m))\<rparr>) = launched m"
  using assms by (simp_all add: manager_inv_def launched_def)

lemma manager_calls_launched:
  "manager_calls create now calls m = (sp, m1) \<Longrightarrow> manager_inv m \<Longrightarrow>
     launched m1 = launched m @ sp \<and> manager_inv m1"
proof (induction create now calls m arbitrary: sp rule: manager_calls.induct)
  case (2 create now cfg cs m)
  have "manager_inv (RegisterHandler cfg m)" "launched (RegisterHandler cfg m) = launched m"
    using 2(3) by (simp_all add: RegisterHandler_def manager_inv_def launched_def)
  with 2(1) [of sp] 2(2) show ?case by simp
next
  case (3 create now cs m)
  have "manager_inv (manager_Close m)" "launched (manager_Close m) = launched m"
    using 3(3) by (simp_all add: manager_Close_def manager_inv_def launched_def)
  with 3(1) [of sp] 3(2) show ?case by simp
next
  case (4 create now cs m)
  then show ?case by (auto split: prod.splits dest!: manager_start_inv)
next
  case (5 create now n cs m)
  then show ?case
    using Dispatcher_prepares [OF 5(3), of n]
    by (auto simp: manager_Dispatcher_def split: prod.splits dest!: manager_start_inv)
qed simp

text \<open>Starting twice does not duplicate a consumer: over any calls of \<^verbatim>\<open>Register\<close>,
  \<^verbatim>\<open>Start\<close>, \<^verbatim>\<open>Dispatcher\<close> and \<^verbatim>\<open>Close\<close>, the supervisors launched are, in order and
  once each, the entries started so far that name a topic, and the health states are theirs.\<close>

theorem consumers_launched_once:
  "(case manager_calls create now calls newConsumerManager of
      (sp, m) \<Rightarrow> sp = filter (\<lambda>e. cc_Topic e \<noteq> []) (take (mg_started m) (mg_entries m)) \<and>
        mg_started m \<le> length (mg_entries m) \<and> map st_topic (mg_states m) = map cc_Topic sp)"
proof -
  obtain sp m where c: "manager_calls create now calls newConsumerManager = (sp, m)"
    by (cases "manager_calls create now calls newConsumerManager")
  have "manager_inv newConsumerManager" "launched newConsumerManager = []"
    by (simp_all add: manager_inv_def launched_def newConsumerManager_def)
  with manager_calls_launched [OF c] c show ?thesis by (simp add: manager_inv_def launched_def)
qed

section \<open>Supervising\<close>

definition sup_backoff_ok :: "supervisor \<Rightarrow> bool" where
  "sup_backoff_ok s \<longleftrightarrow> bo_Min (sv_backoff s) = restartBackoffMin \<and> bo_Max (sv_backoff s) = restartBackoffMax"

lemma restart_backoff:
  assumes "rand_ok rand_N" "sup_backoff_ok s"
  shows "\<exists>d. backoff_Next rand_N (sv_backoff s) =
      Some (d, (sv_backoff s)\<lparr>bo_attempt := Suc (bo_attempt (sv_backoff s))\<rparr>) \<and>
    second div 2 \<le> d \<and> d \<le> 30 * second"
proof -
  have m: "sint (bo_Min (sv_backoff s)) = second" "sint (bo_Max (sv_backoff s)) = 30 * second"
    using assms(2) by (simp_all add: sup_backoff_ok_def restartBackoffMin_def restartBackoffMax_def sint_nanos
        second_def millisecond_def)
  have exact: "sint (backoff_delay (sv_backoff s)) = min (30 * second) (second * 2 ^ min (bo_attempt (sv_backoff s)) 30)"
    using backoff_delay_exact [of "sv_backoff s"] m by (simp add: second_def millisecond_def)
  have "second \<le> sint (backoff_delay (sv_backoff s))" "sint (backoff_delay (sv_backoff s)) \<le> 30 * second"
    unfolding exact by (simp_all add: second_def millisecond_def)
  moreover obtain d where "backoff_Next rand_N (sv_backoff s) =
      Some (d, (sv_backoff s)\<lparr>bo_attempt := Suc (bo_attempt (sv_backoff s))\<rparr>)"
    "sint (backoff_delay (sv_backoff s)) div 2 \<le> d" "d \<le> sint (backoff_delay (sv_backoff s))"
    using backoff_Next_eq [of "sv_backoff s" rand_N] m assms(1) by (auto simp: second_def millisecond_def)
  ultimately show ?thesis by (intro exI [of _ d]) (auto dest: zdiv_mono1 [of _ _ 2])
qed

definition sup_inv :: "supervisor \<Rightarrow> bool" where
  "sup_inv s \<longleftrightarrow> sup_backoff_ok s \<and> list_all (\<lambda>d. second div 2 \<le> d \<and> d \<le> 30 * second) (sv_waits s) \<and>
     (case sv_phase s of
        Absent \<Rightarrow> \<not> st_running (sv_state s) \<and> st_downSince (sv_state s) \<noteq> None
      | Consuming _ \<Rightarrow> st_running (sv_state s)
      | Exited \<Rightarrow> \<not> st_running (sv_state s) \<and> st_downSince (sv_state s) = None)"

definition ends_context :: "sup_event \<Rightarrow> bool" where
  "ends_context ev \<longleftrightarrow> ev = SleepCut \<or> (\<exists>e now. ev = ConsumeEnds e now True)"

lemma supervise_step_inv:
  assumes "supervise_step rand_N grace ev s = Some s'" "sup_inv s" "rand_ok rand_N"
  shows "sup_inv s' \<and> (sv_phase s' = Exited \<longleftrightarrow> ends_context ev)"
proof -
  have b: "sup_backoff_ok s" using assms(2) by (simp add: sup_inv_def)
  obtain d where d: "backoff_Next rand_N (sv_backoff s) =
      Some (d, (sv_backoff s)\<lparr>bo_attempt := Suc (bo_attempt (sv_backoff s))\<rparr>)" "second div 2 \<le> d" "d \<le> 30 * second"
    using restart_backoff [OF assms(3) b] by blast
  show ?thesis
  proof (cases "sv_phase s")
    case Absent
    with assms(1,2) d b show ?thesis
      by (cases ev) (auto simp: supervise_step_def sup_inv_def sup_backoff_ok_def ends_context_def state_stop_def
          state_down_def state_up_def Let_def)
  next
    case (Consuming began)
    with assms(1,2) b show ?thesis
      by (cases ev) (auto simp: supervise_step_def sup_inv_def sup_backoff_ok_def ends_context_def state_stop_def
          state_down_def backoff_Reset_def Let_def split: if_splits option.splits)
  next
    case Exited
    with assms(1) show ?thesis by (cases ev) (simp_all add: supervise_step_def)
  qed
qed

lemma supervise_run_inv:
  "supervise_run rand_N grace evs s = Some s' \<Longrightarrow> sup_inv s \<Longrightarrow> rand_ok rand_N \<Longrightarrow> sv_phase s \<noteq> Exited \<Longrightarrow>
     sup_inv s' \<and> (sv_phase s' = Exited \<longleftrightarrow> evs \<noteq> [] \<and> ends_context (last evs)) \<and>
     list_all (\<lambda>ev. \<not> ends_context ev) (butlast evs)"
proof (induction evs arbitrary: s)
  case (Cons ev evs)
  then obtain s1 where s1: "supervise_step rand_N grace ev s = Some s1" "supervise_run rand_N grace evs s1 = Some s'"
    by (auto split: option.splits)
  note inv = supervise_step_inv [OF s1(1) Cons.prems(2,3)]
  show ?case
  proof (cases "sv_phase s1 = Exited")
    case True
    have "evs = []"
    proof (cases evs)
      case (Cons x xs)
      with s1(2) True show ?thesis by (cases x) (auto simp: supervise_step_def)
    qed
    with inv s1(2) True show ?thesis by simp
  next
    case False
    from Cons.IH [OF s1(2) _ Cons.prems(3) False] inv False show ?thesis by (cases evs) auto
  qed
qed simp

text \<open>The state a supervisor starts with: running, or down since the failed creation.\<close>

definition sup_start :: "string \<Rightarrow> msg_error option \<Rightarrow> int \<Rightarrow> supervisor" where
  "sup_start topic failed now =
     (case failed of
        None \<Rightarrow> supervise_init True now (new_state topic)
      | Some e \<Rightarrow> supervise_init False now (state_down now e False (new_state topic)))"

lemma sup_start_inv: "sup_inv (sup_start topic failed now) \<and> sv_phase (sup_start topic failed now) \<noteq> Exited"
  by (simp add: sup_start_def supervise_init_def sup_inv_def sup_backoff_ok_def new_state_def state_down_def
      state_up_def Let_def split: option.split)

text \<open>C34. A supervisor ends only with its context: after any events it has returned exactly when the last
  event was the end of the context during a wait or a run. Until then the consumer is marked running while
  it consumes and down otherwise, and every restart waits between half a second and thirty seconds.\<close>

theorem supervisor_ends_with_context:
  assumes "supervise_run rand_N grace evs (sup_start topic failed now) = Some s" "rand_ok rand_N"
  shows "(sv_phase s = Exited \<longleftrightarrow> evs \<noteq> [] \<and> ends_context (last evs)) \<and>
     (st_running (sv_state s) \<longleftrightarrow> (\<exists>began. sv_phase s = Consuming began)) \<and>
     (sv_phase s = Absent \<longrightarrow> st_downSince (sv_state s) \<noteq> None) \<and>
     list_all (\<lambda>d. second div 2 \<le> d \<and> d \<le> 30 * second) (sv_waits s)"
  using supervise_run_inv [OF assms(1) _ assms(2)] sup_start_inv [of topic failed now]
  by (auto simp: sup_inv_def split: sup_phase.splits)

lemma sample_supervision:
  "\<exists>s. supervise_run (\<lambda>n. 0) DefaultHealthGrace [ConsumeEnds (Some ''eof'') 5 False, CreateOk 9, ConsumeEnds None 20 True]
     (sup_start ''orders'' None 0) = Some s \<and> sv_phase s = Exited \<and> sv_waits s = [second div 2]"
proof -
  have "backoff_delay \<lparr>bo_Min = restartBackoffMin, bo_Max = restartBackoffMax, bo_attempt = 0\<rparr> = nanos second"
    by (simp add: backoff_delay_def restartBackoffMin_def restartBackoffMax_def sint_nanos second_def millisecond_def)
  then have "backoff_Next (\<lambda>n. 0) \<lparr>bo_Min = restartBackoffMin, bo_Max = restartBackoffMax, bo_attempt = 0\<rparr> =
      Some (second div 2, \<lparr>bo_Min = restartBackoffMin, bo_Max = restartBackoffMax, bo_attempt = 1\<rparr>)"
    by (simp add: backoff_Next_def sint_nanos second_def millisecond_def Let_def)
  then show ?thesis
    by (simp add: sup_start_def supervise_init_def supervise_step_def DefaultHealthGrace_def second_def
        millisecond_def Let_def)
qed

theorem supervisor_ends_with_context_witness:
  "\<exists>s. supervise_run (\<lambda>n. 0) DefaultHealthGrace [ConsumeEnds (Some ''eof'') 5 False, CreateOk 9, ConsumeEnds None 20 True]
     (sup_start ''orders'' None 0) = Some s \<and> sv_phase s = Exited \<and> \<not> st_running (sv_state s)"
proof -
  obtain s where s: "supervise_run (\<lambda>n. 0) DefaultHealthGrace
      [ConsumeEnds (Some ''eof'') 5 False, CreateOk 9, ConsumeEnds None 20 True] (sup_start ''orders'' None 0) = Some s"
    using sample_supervision by blast
  have "rand_ok (\<lambda>n. 0)" by (simp add: rand_ok_def)
  from supervisor_ends_with_context [OF s this] s show ?thesis by (auto simp: ends_context_def)
qed

text \<open>Runs that all ended before the health grace.\<close>

fun quick_runs :: "int \<Rightarrow> int \<Rightarrow> sup_event list \<Rightarrow> bool" where
  "quick_runs grace began [] = True"
| "quick_runs grace began (CreateOk now # evs) = quick_runs grace now evs"
| "quick_runs grace began (ConsumeEnds e now ended # evs) = (now - began < grace \<and> quick_runs grace began evs)"
| "quick_runs grace began (ev # evs) = quick_runs grace began evs"

lemma step_Exited: "sv_phase s = Exited \<Longrightarrow> supervise_step r g ev s = None"
  by (cases ev) (simp_all add: supervise_step_def)

lemma run_Exited: "sv_phase s = Exited \<Longrightarrow> supervise_run r g evs s = Some s' \<Longrightarrow> s' = s"
  by (cases evs) (simp_all add: step_Exited)

lemma step_CreateOk:
  "supervise_step r g (CreateOk now) s = Some s1 \<Longrightarrow> sv_phase s1 = Consuming now \<and> sv_state s1 = state_up (sv_state s)"
  by (cases "sv_phase s"; cases "backoff_Next r (sv_backoff s)") (auto simp: supervise_step_def Let_def)

lemma step_CreateFailed:
  "supervise_step r g (CreateFailed e now) s = Some s1 \<Longrightarrow>
     sv_phase s1 = Absent \<and> sv_state s1 = state_down now e False (sv_state s)"
  by (cases "sv_phase s"; cases "backoff_Next r (sv_backoff s)") (auto simp: supervise_step_def Let_def)

lemma step_SleepCut: "supervise_step r g SleepCut s = Some s1 \<Longrightarrow> sv_phase s1 = Exited"
  by (cases "sv_phase s"; cases "backoff_Next r (sv_backoff s)") (auto simp: supervise_step_def Let_def)

lemma step_ConsumeEnds:
  "supervise_step r g (ConsumeEnds e now ended) s = Some s1 \<Longrightarrow>
     \<exists>began err. sv_phase s = Consuming began \<and>
       (if ended then sv_phase s1 = Exited
        else sv_phase s1 = Absent \<and> sv_state s1 = state_down now err (now - began \<ge> g) (sv_state s))"
  by (cases "sv_phase s") (auto simp: supervise_step_def Let_def split: if_splits)

lemma run_Cons:
  "supervise_run r g (ev # evs) s = Some s' \<longleftrightarrow> (\<exists>s1. supervise_step r g ev s = Some s1 \<and> supervise_run r g evs s1 = Some s')"
  by (simp split: option.split)

definition began_at :: "int \<Rightarrow> supervisor \<Rightarrow> bool" where
  "began_at began s \<longleftrightarrow> (case sv_phase s of Consuming b \<Rightarrow> b = began | _ \<Rightarrow> True)"

lemma supervise_keeps_outage:
  assumes "supervise_run rand_N grace evs s = Some s'" "quick_runs grace began evs" "began_at began s"
    "st_downSince (sv_state s) = Some t0" "sv_phase s' \<noteq> Exited"
  shows "st_downSince (sv_state s') = Some t0 \<and> st_topic (sv_state s') = st_topic (sv_state s)"
  using assms
proof (induction evs arbitrary: s began)
  case (Cons ev evs)
  obtain s1 where s1: "supervise_step rand_N grace ev s = Some s1" "supervise_run rand_N grace evs s1 = Some s'"
    using Cons.prems(1) unfolding run_Cons by blast
  have live: "sv_phase s1 \<noteq> Exited" using run_Exited s1(2) Cons.prems(5) by metis
  show ?case
  proof (cases ev)
    case SleepCut
    with s1 live step_SleepCut show ?thesis by metis
  next
    case (CreateFailed e now)
    with step_CreateFailed s1(1) have "sv_phase s1 = Absent" "sv_state s1 = state_down now e False (sv_state s)" by metis+
    with Cons.IH [OF s1(2), of began] Cons.prems CreateFailed show ?thesis by (simp add: began_at_def state_down_def Let_def)
  next
    case (CreateOk now)
    with step_CreateOk s1(1) have "sv_phase s1 = Consuming now" "sv_state s1 = state_up (sv_state s)" by metis+
    with Cons.IH [OF s1(2), of now] Cons.prems CreateOk show ?thesis by (simp add: began_at_def state_up_def)
  next
    case (ConsumeEnds e now ended)
    obtain b err where b: "sv_phase s = Consuming b" "if ended then sv_phase s1 = Exited
        else sv_phase s1 = Absent \<and> sv_state s1 = state_down now err (now - b \<ge> grace) (sv_state s)"
      using step_ConsumeEnds s1(1) ConsumeEnds by blast
    have "b = began" using Cons.prems(3) b(1) by (simp add: began_at_def)
    then have "sv_phase s1 = Absent" "sv_state s1 = state_down now err False (sv_state s)"
      using b(2) live Cons.prems(2) ConsumeEnds by (simp_all split: if_splits)
    with Cons.IH [OF s1(2), of began] Cons.prems ConsumeEnds show ?thesis
      by (simp add: began_at_def state_down_def Let_def)
  qed
qed simp

text \<open>A crash loop is one outage: when the creation failed at time t0 and no run since lasted the
  health grace, the health check reports the consumer as down since t0 whenever it is not running and the
  grace has passed, however often it was restarted in between.\<close>

theorem crash_loop_is_reported:
  assumes "supervise_run rand_N grace evs (sup_start topic (Some e) t0) = Some s" "quick_runs grace t0 evs"
    and "sv_phase s = Absent" "t0 + grace \<le> now" "rand_ok rand_N"
  shows "\<exists>err. state_health now grace (sv_state s) = Some (ErrConsumerDown topic (now - t0) err)"
proof -
  have "st_downSince (sv_state (sup_start topic (Some e) t0)) = Some t0" "st_topic (sv_state (sup_start topic (Some e) t0)) = topic"
    "sv_phase (sup_start topic (Some e) t0) = Absent"
    by (simp_all add: sup_start_def supervise_init_def state_down_def new_state_def Let_def)
  with supervise_keeps_outage [OF assms(1,2)] assms(3) began_at_def [of t0]
  have "st_downSince (sv_state s) = Some t0" "st_topic (sv_state s) = topic" by simp_all
  moreover have "\<not> st_running (sv_state s)"
    using supervise_run_inv [OF assms(1) _ assms(5)] sup_start_inv [of topic "Some e" t0] assms(3) by (simp add: sup_inv_def)
  ultimately show ?thesis using assms(4) by (simp add: state_health_def)
qed

lemma sample_crash_loop:
  "\<exists>s. supervise_run (\<lambda>n. 0) 100 [CreateOk 10, ConsumeEnds None 20 False] (sup_start ''orders'' (Some ''refused'') 0) = Some s \<and>
     sv_phase s = Absent"
proof -
  have "rand_ok (\<lambda>n. 0)" by (simp add: rand_ok_def)
  from restart_backoff [OF this, of "sup_start ''orders'' (Some ''refused'') 0"] sup_start_inv [of "''orders''" "Some ''refused''" 0]
  obtain d b where "backoff_Next (\<lambda>n. 0) (sv_backoff (sup_start ''orders'' (Some ''refused'') 0)) = Some (d, b)"
    by (auto simp: sup_inv_def)
  then show ?thesis by (simp add: sup_start_def supervise_init_def supervise_step_def Let_def)
qed

theorem crash_loop_is_reported_witness:
  "\<exists>s err. supervise_run (\<lambda>n. 0) 100 [CreateOk 10, ConsumeEnds None 20 False] (sup_start ''orders'' (Some ''refused'') 0) = Some s \<and>
     state_health 150 100 (sv_state s) = Some (ErrConsumerDown ''orders'' 150 err)"
proof -
  obtain s where s: "supervise_run (\<lambda>n. 0) 100 [CreateOk 10, ConsumeEnds None 20 False] (sup_start ''orders'' (Some ''refused'') 0) = Some s"
    "sv_phase s = Absent"
    using sample_crash_loop by blast
  from crash_loop_is_reported [OF s(1) _ s(2), of 150] s(1) show ?thesis by (auto simp: rand_ok_def)
qed

end
