(* ===== verification/Iam_Ticket.thy ===== *)
theory Iam_Ticket
  imports Go_Utf8 "HOL-Library.AList"
begin

text \<open>
  Tenant tickets and refresh tokens of \<^verbatim>\<open>iam/core\<close> (\<^verbatim>\<open>ticket.go\<close>,
  \<^verbatim>\<open>session.go\<close>) and the in-memory ticket store of \<^verbatim>\<open>iam/provider/memory\<close>. The unpadded
  URL-safe base64 of the standard library is written out; the keyed hash is a parameter. Time is a number
  of nanoseconds since the Unix epoch.
\<close>

type_synonym time = int

definition nanosecond_s :: int where "nanosecond_s = 1000000000"

definition Unix :: "time \<Rightarrow> int" where
  "Unix t = t div nanosecond_s"

section \<open>Base64\<close>

definition b64_char :: "nat \<Rightarrow> char" where
  "b64_char n =
     (if n < 26 then char_of (65 + n) else if n < 52 then char_of (71 + n)
      else if n < 62 then char_of (n - 4) else if n = 62 then CHR ''-'' else CHR ''_'')"

definition b64_value :: "char \<Rightarrow> nat option" where
  "b64_value c =
     (let n = of_char c :: nat
      in if 65 \<le> n \<and> n \<le> 90 then Some (n - 65) else if 97 \<le> n \<and> n \<le> 122 then Some (n - 71)
         else if 48 \<le> n \<and> n \<le> 57 then Some (n + 4) else if c = CHR ''-'' then Some 62
         else if c = CHR ''_'' then Some 63 else None)"

fun b64_sextets :: "nat list \<Rightarrow> nat list" where
  "b64_sextets [] = []"
| "b64_sextets [a] = [a div 4, a mod 4 * 16]"
| "b64_sextets [a, b] = [a div 4, a mod 4 * 16 + b div 16, b mod 16 * 4]"
| "b64_sextets (a # b # c # r) =
     [a div 4, a mod 4 * 16 + b div 16, b mod 16 * 4 + c div 64, c mod 64] @ b64_sextets r"

fun b64_bytes :: "nat list \<Rightarrow> nat list option" where
  "b64_bytes [] = Some []"
| "b64_bytes [a] = None"
| "b64_bytes [a, b] = Some [a * 4 + b div 16]"
| "b64_bytes [a, b, c] = Some [a * 4 + b div 16, b mod 16 * 16 + c div 4]"
| "b64_bytes (a # b # c # d # r) =
     map_option (\<lambda>bs. [a * 4 + b div 16, b mod 16 * 16 + c div 4, c mod 4 * 64 + d] @ bs) (b64_bytes r)"

definition b64_encode :: "string \<Rightarrow> string" where
  "b64_encode s = map b64_char (b64_sextets (map of_char s))"

text \<open>\<^verbatim>\<open>DecodeString\<close> skips carriage returns and newlines.\<close>

definition b64_decode :: "string \<Rightarrow> string option" where
  "b64_decode s =
     (let vs = map b64_value (filter (\<lambda>c. c \<noteq> CHR 0x0A \<and> c \<noteq> CHR 0x0D) s)
      in if None \<in> set vs then None else map_option (map char_of) (b64_bytes (map the vs)))"

section \<open>Numbers\<close>

text \<open>\<^verbatim>\<open>strconv.ParseInt(s, 10, 64)\<close>.\<close>

definition ParseInt :: "string \<Rightarrow> int option" where
  "ParseInt s =
     (let (neg, ds) =
        (case s of
           [] \<Rightarrow> (False, [])
         | c # r \<Rightarrow> if c = CHR ''-'' then (True, r) else if c = CHR ''+'' then (False, r) else (False, s))
      in if ds = [] \<or> \<not> list_all is_digit_char ds then None
         else (let n = (if neg then - int (digits_value ds) else int (digits_value ds))
               in if - (2 ^ 63) \<le> n \<and> n < 2 ^ 63 then Some n else None))"

section \<open>Tickets\<close>

definition tenantTicketTTL :: int where "tenantTicketTTL = 300 * nanosecond_s"

record ticket_claims =
  tc_jti :: string
  tc_exp :: int

definition ticket_payload :: "int \<Rightarrow> string \<Rightarrow> string \<Rightarrow> string \<Rightarrow> string" where
  "ticket_payload exp jti provider userID =
     b64_encode (itoa exp @ ''|'' @ jti @ ''|'' @ provider @ ''|'' @ userID)"

definition ticketMAC :: "(string \<Rightarrow> string) \<Rightarrow> string \<Rightarrow> string" where
  "ticketMAC mac payload = b64_encode (mac (''gofi/iam tenant-ticket/v3:'' @ payload))"

text \<open>\<open>mac\<close> is HMAC-SHA256 under the ticket key; \<open>jti\<close> is the random text of this ticket.\<close>

definition signTenantTicket :: "(string \<Rightarrow> string) \<Rightarrow> string \<Rightarrow> string \<Rightarrow> string \<Rightarrow> time \<Rightarrow> string" where
  "signTenantTicket mac jti provider userID now =
     (let payload = ticket_payload (Unix (now + tenantTicketTTL)) jti provider userID
      in payload @ ''.'' @ ticketMAC mac payload)"

definition verifyTenantTicket ::
  "(string \<Rightarrow> string) \<Rightarrow> string \<Rightarrow> string \<Rightarrow> string \<Rightarrow> time \<Rightarrow> ticket_claims option" where
  "verifyTenantTicket mac ticket provider userID now =
     (case cut (CHR ''.'') ticket of
        None \<Rightarrow> None
      | Some (payload, m) \<Rightarrow>
          if m \<noteq> ticketMAC mac payload then None
          else
            (case b64_decode payload of
               None \<Rightarrow> None
             | Some raw \<Rightarrow>
                 (case split_n 4 (CHR ''|'') raw of
                    [exp, jti, p, u] \<Rightarrow>
                      if jti = [] then None
                      else
                        (case ParseInt exp of
                           None \<Rightarrow> None
                         | Some e \<Rightarrow>
                             if p \<noteq> provider \<or> u \<noteq> userID \<or> Unix now > e then None
                             else Some \<lparr>tc_jti = jti, tc_exp = e\<rparr>)
                  | _ \<Rightarrow> None)))"

section \<open>The in-memory ticket store\<close>

type_synonym ticket_store = "(string \<times> time) list"

definition sweepAt :: nat where "sweepAt = 10000"

text \<open>The map \<^verbatim>\<open>seen\<close> as an association list; a sweep drops the expired entries.\<close>

definition ticket_sweep :: "time \<Rightarrow> ticket_store \<Rightarrow> ticket_store" where
  "ticket_sweep now seen = (if sweepAt \<le> length seen then filter (\<lambda>(k, exp). now < exp) seen else seen)"

definition ticket_Consume :: "time \<Rightarrow> string \<Rightarrow> int \<Rightarrow> ticket_store \<Rightarrow> bool \<times> ticket_store" where
  "ticket_Consume now jti ttl seen =
     (let seen = ticket_sweep now seen
      in case map_of seen jti of
           Some exp \<Rightarrow> if now < exp then (False, seen) else (True, AList.update jti (now + ttl) seen)
         | None \<Rightarrow> (True, AList.update jti (now + ttl) seen))"

section \<open>Refresh tokens\<close>

definition buildRefreshToken :: "string \<Rightarrow> string \<Rightarrow> string" where
  "buildRefreshToken sessionID secret = sessionID @ ''.'' @ secret"

definition parseRefreshToken :: "string \<Rightarrow> string option" where
  "parseRefreshToken token =
     (case cut (CHR ''.'') token of
        None \<Rightarrow> None
      | Some (sid, _) \<Rightarrow> if sid = [] then None else Some sid)"

definition lastFour :: "string \<Rightarrow> string" where
  "lastFour s = (if length s \<le> 4 then s else drop (length s - 4) s)"

section \<open>Base64 round trip\<close>

lemma b64_value_char: "n < 64 \<Longrightarrow> b64_value (b64_char n) = Some n"
  by (auto simp: b64_value_def b64_char_def Let_def char_of_eq_iff)

lemma b64_char_plain: "n < 64 \<Longrightarrow> b64_char n \<notin> {CHR ''.'', CHR 0x0A, CHR 0x0D}"
  by (auto simp: b64_char_def char_of_eq_iff take_bit_eq_mod)

lemma b64_sextets_small: "list_all (\<lambda>b. b < 256) bs \<Longrightarrow> list_all (\<lambda>v. v < 64) (b64_sextets bs)"
  by (induction bs rule: b64_sextets.induct) auto

lemma sextet_arith:
  fixes a b c :: nat
  assumes "b < 256" "c < 256"
  shows "a div 4 * 4 + (a mod 4 * 16 + b div 16) div 16 = a"
    "(a mod 4 * 16 + b div 16) mod 16 * 16 + (b mod 16 * 4 + c div 64) div 4 = b"
    "(b mod 16 * 4 + c div 64) mod 4 * 64 + c mod 64 = c"
proof -
  have "b div 16 < 16" "c div 64 < 4" using assms by (simp_all add: less_mult_imp_div_less)
  then have "(a mod 4 * 16 + b div 16) div 16 = a mod 4" "(a mod 4 * 16 + b div 16) mod 16 = b div 16"
    "(b mod 16 * 4 + c div 64) div 4 = b mod 16" "(b mod 16 * 4 + c div 64) mod 4 = c div 64"
    by (simp_all add: div_less mod_less)
  then show "a div 4 * 4 + (a mod 4 * 16 + b div 16) div 16 = a"
    "(a mod 4 * 16 + b div 16) mod 16 * 16 + (b mod 16 * 4 + c div 64) div 4 = b"
    "(b mod 16 * 4 + c div 64) mod 4 * 64 + c mod 64 = c"
    by (simp_all only: div_mult_mod_eq)
qed

lemma b64_bytes_sextets: "list_all (\<lambda>b. b < 256) bs \<Longrightarrow> b64_bytes (b64_sextets bs) = Some bs"
proof (induction bs rule: b64_sextets.induct)
  case (4 a b c r)
  then have "a < 256" "b < 256" "c < 256" by simp_all
  moreover have "b64_bytes (b64_sextets r) = Some r" using 4 by simp
  ultimately show ?case
    by (simp only: b64_sextets.simps b64_bytes.simps append.simps sextet_arith option.map)
qed auto

lemma b64_round_trip: "b64_decode (b64_encode s) = Some s"
proof -
  let ?vs = "b64_sextets (map of_char s :: nat list)"
  have bytes: "list_all (\<lambda>b. b < 256) (map of_char s :: nat list)" by (induction s) auto
  have small: "v \<in> set ?vs \<Longrightarrow> v < 64" for v using b64_sextets_small [OF bytes] by (simp add: list_all_iff)
  have f: "filter (\<lambda>c. c \<noteq> CHR 0x0A \<and> c \<noteq> CHR 0x0D) (map b64_char ?vs) = map b64_char ?vs"
    using b64_char_plain small by (auto simp: filter_id_conv)
  have v: "map b64_value (map b64_char ?vs) = map Some ?vs"
    using b64_value_char small by simp
  show ?thesis
    unfolding b64_decode_def b64_encode_def f v Let_def
    by (simp add: b64_bytes_sextets [OF bytes] comp_def)
qed

lemma b64_encode_no_dot: "CHR ''.'' \<notin> set (b64_encode s)"
proof -
  have "list_all (\<lambda>v. v < 64) (b64_sextets (map of_char s :: nat list))"
    by (rule b64_sextets_small) (induction s, auto)
  then have "b64_char v \<noteq> CHR ''.''" if "v \<in> set (b64_sextets (map of_char s))" for v
    using b64_char_plain [of v] that by (simp add: list_all_iff)
  then show ?thesis unfolding b64_encode_def set_map by (metis imageE)
qed

section \<open>Numbers\<close>

lemma itoa_nat_head: "\<exists>c r. itoa_nat n = c # r \<and> is_digit_char c"
  by (metis itoa_nat_digits itoa_nat_not_Nil list.set_intros(1) neq_Nil_conv)

lemma ParseInt_itoa: "- (2 ^ 63) \<le> n \<Longrightarrow> n < 2 ^ 63 \<Longrightarrow> ParseInt (itoa n) = Some n"
proof -
  assume r: "- (2 ^ 63) \<le> n" "n < 2 ^ 63"
  have digits: "list_all is_digit_char (itoa_nat k)" for k using itoa_nat_digits by (auto simp: list_all_iff)
  obtain c t where c: "itoa_nat (nat n) = c # t" "is_digit_char c" using itoa_nat_head by blast
  then have "c \<noteq> CHR ''-''" "c \<noteq> CHR ''+''" by (auto simp: is_digit_char_def)
  moreover have "digits_value (c # t) = nat n" using digits_value_itoa_nat [of "nat n"] c(1) by simp
  ultimately show ?thesis
    using r c digits [of "nat n"] digits [of "nat (- n)"] by (auto simp: ParseInt_def itoa_def)
qed

lemma itoa_no_bar: "CHR ''|'' \<notin> set (itoa n)"
proof
  assume "CHR ''|'' \<in> set (itoa n)"
  then have "is_digit_char (CHR ''|'')" using itoa_nat_digits by (auto simp: itoa_def split: if_splits)
  then show False by (simp add: is_digit_char_def)
qed

section \<open>Tickets\<close>

lemma split_ticket:
  assumes "CHR ''|'' \<notin> set e" "CHR ''|'' \<notin> set jti" "CHR ''|'' \<notin> set p"
  shows "split_n 4 (CHR ''|'') (e @ ''|'' @ jti @ ''|'' @ p @ ''|'' @ u) = [e, jti, p, u]"
  using assms by (simp add: numeral_eq_Suc)

text \<open>What a verified ticket says.\<close>

lemma verifyTenantTicket_Some:
  assumes "verifyTenantTicket mac ticket provider userID now = Some c"
  obtains payload raw exp where "cut (CHR ''.'') ticket = Some (payload, ticketMAC mac payload)"
    "b64_decode payload = Some raw" "split_n 4 (CHR ''|'') raw = [exp, tc_jti c, provider, userID]"
    "tc_jti c \<noteq> []" "ParseInt exp = Some (tc_exp c)" "Unix now \<le> tc_exp c"
  using assms unfolding verifyTenantTicket_def
  by (auto split: option.splits list.splits if_splits)

lemma verify_signed:
  assumes "CHR ''|'' \<notin> set jti" "CHR ''|'' \<notin> set provider" "- (2 ^ 63) \<le> exp" "exp < 2 ^ 63"
  shows "verifyTenantTicket mac (ticket_payload exp jti provider userID @ ''.'' @ ticketMAC mac (ticket_payload exp jti provider userID)) p u now =
     (if jti = [] \<or> p \<noteq> provider \<or> u \<noteq> userID \<or> Unix now > exp then None else Some \<lparr>tc_jti = jti, tc_exp = exp\<rparr>)"
proof -
  let ?pl = "ticket_payload exp jti provider userID"
  have "cut (CHR ''.'') (?pl @ ''.'' @ ticketMAC mac ?pl) = Some (?pl, ticketMAC mac ?pl)"
    by (simp add: ticket_payload_def b64_encode_no_dot)
  moreover have "b64_decode ?pl = Some (itoa exp @ ''|'' @ jti @ ''|'' @ provider @ ''|'' @ userID)"
    by (simp only: ticket_payload_def b64_round_trip)
  moreover note split_ticket [OF itoa_no_bar assms(1,2), of exp userID]
  ultimately show ?thesis
    using ParseInt_itoa [OF assms(3,4)] by (simp add: verifyTenantTicket_def)
qed

lemma Unix_mono: "a \<le> b \<Longrightarrow> Unix a \<le> Unix b"
  by (simp add: Unix_def nanosecond_s_def zdiv_mono1)

lemma ticket_deadline:
  "Unix (now + tenantTicketTTL) = Unix now + 300"
  by (simp add: Unix_def tenantTicketTTL_def nanosecond_s_def)

text \<open>A ticket proves one login for five minutes: the ticket signed for a provider and a user verifies
  exactly for that provider and user while at most 300 seconds have passed, and gives back its identifier
  and deadline.\<close>

theorem ticket_round_trip:
  assumes "jti \<noteq> []" "CHR ''|'' \<notin> set jti" "CHR ''|'' \<notin> set provider"
    and "- (2 ^ 63) \<le> Unix now" "Unix now < 2 ^ 63 - 300"
  shows "verifyTenantTicket mac (signTenantTicket mac jti provider userID now) p u now' =
     (if p = provider \<and> u = userID \<and> Unix now' \<le> Unix now + 300
      then Some \<lparr>tc_jti = jti, tc_exp = Unix now + 300\<rparr> else None)"
  using verify_signed [OF assms(2,3), of "Unix now + 300" mac userID p u now'] assms(1,4,5)
  by (auto simp: signTenantTicket_def ticket_deadline Let_def)

theorem ticket_round_trip_witness:
  "verifyTenantTicket (\<lambda>m. m) (signTenantTicket (\<lambda>m. m) ''J1'' ''local'' ''u|1'' 0) ''local'' ''u|1'' (7 * nanosecond_s) =
     Some \<lparr>tc_jti = ''J1'', tc_exp = 300\<rparr> \<and>
   verifyTenantTicket (\<lambda>m. m) (signTenantTicket (\<lambda>m. m) ''J1'' ''local'' ''u|1'' 0) ''google'' ''u|1'' (7 * nanosecond_s) = None"
  using ticket_round_trip [of "''J1''" "''local''" 0 "\<lambda>m. m" "''u|1''" _ _ "7 * nanosecond_s"]
  by (simp add: Unix_def nanosecond_s_def)

section \<open>Single use\<close>

text \<open>An entry of the store keeps a jti consumed until its expiry.\<close>

definition consumed_until :: "ticket_store \<Rightarrow> string \<Rightarrow> time \<Rightarrow> bool" where
  "consumed_until seen jti exp \<longleftrightarrow> (\<exists>e. map_of seen jti = Some e \<and> exp \<le> e)"

lemma map_of_sweep: "distinct (map fst seen) \<Longrightarrow> map_of seen k = Some e \<Longrightarrow> now < e \<Longrightarrow> map_of (ticket_sweep now seen) k = Some e"
  by (auto simp: ticket_sweep_def map_of_filter_in dest!: map_of_SomeD intro!: map_of_is_SomeI distinct_map_filter)

lemma distinct_sweep: "distinct (map fst seen) \<Longrightarrow> distinct (map fst (ticket_sweep now seen))"
  by (simp add: ticket_sweep_def distinct_map_filter)

lemma Consume_distinct: "distinct (map fst seen) \<Longrightarrow> distinct (map fst (snd (ticket_Consume now jti ttl seen)))"
  by (auto simp: ticket_Consume_def Let_def distinct_sweep distinct_update split: option.split)

lemma Consume_keeps:
  assumes "distinct (map fst seen)" "consumed_until seen jti exp" "now < exp"
  shows "consumed_until (snd (ticket_Consume now k ttl seen)) jti exp"
    "k = jti \<Longrightarrow> \<not> fst (ticket_Consume now k ttl seen)"
proof -
  obtain e where e: "map_of seen jti = Some e" "exp \<le> e" using assms(2) by (auto simp: consumed_until_def)
  then have m: "map_of (ticket_sweep now seen) jti = Some e" using map_of_sweep assms(1,3) by auto
  show "consumed_until (snd (ticket_Consume now k ttl seen)) jti exp"
    using m e assms(3)
    by (cases "k = jti") (auto simp: consumed_until_def ticket_Consume_def Let_def update_conv' split: option.split)
  show "k = jti \<Longrightarrow> \<not> fst (ticket_Consume now k ttl seen)"
    using m e assms(3) by (auto simp: ticket_Consume_def Let_def)
qed

end
