(* ===== verification/Iam_Store.thy ===== *)
theory Iam_Store
  imports Iam_Ticket Full_Text
begin

text \<open>
  The data and the ports of the identity package (\<^verbatim>\<open>iam/types\<close>, \<^verbatim>\<open>iam/port\<close>) and their
  in-memory implementations (\<^verbatim>\<open>iam/provider/memory\<close>): the session store and the login throttler.
  A port is a record of operations on a store state \<open>'s\<close>; an operation that a store implements
  optionally is an option field. The port's \<^verbatim>\<open>ListByUser\<close> only reads; it stands apart below.
\<close>

section \<open>Errors and data\<close>

datatype iam_error =
  ErrInvalidCredentials | ErrAccountInactive | ErrTooManyAttempts
| ErrTokenInvalid | ErrSessionRevoked | ErrSessionNotFound | ErrSessionExpired
| ErrTenantAccessDenied | ErrInvalidTenantTicket | ErrInvalidIDPState
| ErrProviderNotFound | ErrLoginPortsRequired
| Foreign string
| Wrapped string iam_error
| Both iam_error iam_error

text \<open>\<^verbatim>\<open>errors.Is\<close>.\<close>

fun errors_is :: "iam_error \<Rightarrow> iam_error \<Rightarrow> bool" where
  "errors_is (Wrapped t e) x \<longleftrightarrow> Wrapped t e = x \<or> errors_is e x"
| "errors_is (Both a b) x \<longleftrightarrow> Both a b = x \<or> errors_is a x \<or> errors_is b x"
| "errors_is e x \<longleftrightarrow> e = x"

record session =
  s_ID :: string
  s_UserID :: string
  s_TenantID :: string
  s_Module :: string
  s_AccessToken :: string
  s_RefreshToken :: string
  s_RefreshTokenHash :: string
  s_RefreshTokenLastFour :: string
  s_AuthProvider :: string
  s_AuthTime :: "time option"
  s_ExpiresAt :: time
  s_CreatedAt :: time
  s_LastUsedAt :: time
  s_Revoked :: bool
  s_RevokedAt :: "time option"
  s_RevokedBy :: string
  s_IPAddress :: string
  s_UserAgent :: string
  s_DeviceID :: string
  s_ClaimsExtra :: "string \<rightharpoonup> string"
  s_SessionExtra :: "string \<rightharpoonup> string"

section \<open>The session port\<close>

record 's session_port =
  sp_Save :: "session \<Rightarrow> 's \<Rightarrow> iam_error option \<times> 's"
  sp_Get :: "time \<Rightarrow> string \<Rightarrow> 's \<Rightarrow> (iam_error, session option) result \<times> 's"
  sp_Revoke :: "time \<Rightarrow> string \<Rightarrow> 's \<Rightarrow> iam_error option \<times> 's"
  sp_RevokeAllForUser :: "time \<Rightarrow> string \<Rightarrow> 's \<Rightarrow> iam_error option \<times> 's"
  sp_RevokeIfActive :: "(time \<Rightarrow> string \<Rightarrow> 's \<Rightarrow> (iam_error, bool) result \<times> 's) option"
  sp_RevokedBefore :: "(string \<Rightarrow> 's \<Rightarrow> (iam_error, time option) result) option"

section \<open>The throttler and ticket ports\<close>

record login_attempt =
  at_Email :: string
  at_IPAddress :: string

record 't throttle_port =
  tp_Allow :: "time \<Rightarrow> login_attempt \<Rightarrow> 't \<Rightarrow> iam_error option \<times> 't"
  tp_Failure :: "time \<Rightarrow> login_attempt \<Rightarrow> 't \<Rightarrow> iam_error option \<times> 't"
  tp_Success :: "login_attempt \<Rightarrow> 't \<Rightarrow> iam_error option \<times> 't"

record 'k ticket_port =
  kp_Consume :: "time \<Rightarrow> string \<Rightarrow> int \<Rightarrow> 'k \<Rightarrow> (iam_error, bool) result \<times> 'k"

section \<open>Sessions in memory\<close>

record mem_sessions =
  ms_sessions :: "string \<rightharpoonup> session"
  ms_revokedBefore :: "string \<rightharpoonup> time"
  ms_withTTL :: bool

definition NewProvider :: mem_sessions where
  "NewProvider = \<lparr>ms_sessions = Map.empty, ms_revokedBefore = Map.empty, ms_withTTL = True\<rparr>"

definition NewTestProvider :: mem_sessions where
  "NewTestProvider = \<lparr>ms_sessions = Map.empty, ms_revokedBefore = Map.empty, ms_withTTL = False\<rparr>"

definition mem_Save :: "session \<Rightarrow> mem_sessions \<Rightarrow> iam_error option \<times> mem_sessions" where
  "mem_Save s p =
     (None, p\<lparr>ms_sessions := (ms_sessions p)(s_ID s \<mapsto> s\<lparr>s_RefreshToken := [], s_AccessToken := []\<rparr>)\<rparr>)"

definition mem_Get :: "time \<Rightarrow> string \<Rightarrow> mem_sessions \<Rightarrow> (iam_error, session option) result \<times> mem_sessions" where
  "mem_Get now sid p =
     (case ms_sessions p sid of
        None \<Rightarrow> (Err ErrSessionNotFound, p)
      | Some s \<Rightarrow>
          if ms_withTTL p \<and> s_ExpiresAt s < now \<and> \<not> s_Revoked s
          then (Err ErrSessionNotFound, p\<lparr>ms_sessions := (ms_sessions p)(sid := None)\<rparr>)
          else (Ok (Some s), p))"

definition revoke_session :: "time \<Rightarrow> string \<Rightarrow> session \<Rightarrow> session" where
  "revoke_session now who s = s\<lparr>s_Revoked := True, s_RevokedAt := Some now, s_RevokedBy := who\<rparr>"

definition mem_Revoke :: "time \<Rightarrow> string \<Rightarrow> mem_sessions \<Rightarrow> iam_error option \<times> mem_sessions" where
  "mem_Revoke now sid p =
     (case ms_sessions p sid of
        None \<Rightarrow> (Some ErrSessionNotFound, p)
      | Some s \<Rightarrow> (None, p\<lparr>ms_sessions := (ms_sessions p)(sid \<mapsto> revoke_session now ''user'' s)\<rparr>))"

definition mem_RevokeIfActive :: "time \<Rightarrow> string \<Rightarrow> mem_sessions \<Rightarrow> (iam_error, bool) result \<times> mem_sessions" where
  "mem_RevokeIfActive now sid p =
     (case ms_sessions p sid of
        None \<Rightarrow> (Err ErrSessionNotFound, p)
      | Some s \<Rightarrow>
          if s_Revoked s then (Ok False, p)
          else (Ok True, p\<lparr>ms_sessions := (ms_sessions p)(sid \<mapsto> revoke_session now ''user'' s)\<rparr>))"

definition mem_RevokeAllForUser :: "time \<Rightarrow> string \<Rightarrow> mem_sessions \<Rightarrow> iam_error option \<times> mem_sessions" where
  "mem_RevokeAllForUser now userID p =
     (None, p\<lparr>ms_revokedBefore := (ms_revokedBefore p)(userID \<mapsto> now),
        ms_sessions := (\<lambda>sid. map_option (\<lambda>s. if s_UserID s = userID \<and> \<not> s_Revoked s then revoke_session now ''system'' s else s)
          (ms_sessions p sid))\<rparr>)"

definition mem_RevokedBefore :: "string \<Rightarrow> mem_sessions \<Rightarrow> (iam_error, time option) result" where
  "mem_RevokedBefore userID p = Ok (ms_revokedBefore p userID)"

text \<open>\<^verbatim>\<open>ListByUser\<close>: the order of the result follows Go's map iteration, so it is a set here.\<close>

definition mem_ListByUser :: "time \<Rightarrow> string \<Rightarrow> mem_sessions \<Rightarrow> session set" where
  "mem_ListByUser now userID p =
     {s \<in> ran (ms_sessions p). s_UserID s = userID \<and> \<not> s_Revoked s \<and> (\<not> ms_withTTL p \<or> now \<le> s_ExpiresAt s)}"

definition mem_gc :: "time \<Rightarrow> mem_sessions \<Rightarrow> mem_sessions" where
  "mem_gc now p =
     p\<lparr>ms_sessions := (\<lambda>sid. case ms_sessions p sid of
        None \<Rightarrow> None
      | Some s \<Rightarrow> if s_ExpiresAt s + 300 * nanosecond_s < now then None else Some s)\<rparr>"

definition mem_port :: "mem_sessions session_port" where
  "mem_port =
     \<lparr>sp_Save = mem_Save, sp_Get = mem_Get, sp_Revoke = mem_Revoke, sp_RevokeAllForUser = mem_RevokeAllForUser,
      sp_RevokeIfActive = Some mem_RevokeIfActive, sp_RevokedBefore = Some mem_RevokedBefore\<rparr>"

section \<open>The login throttler\<close>

record throttle_config =
  th_MaxAttempts :: int
  th_IPMaxAttempts :: int
  th_Window :: int
  th_Lockout :: int

definition withDefaults :: "throttle_config \<Rightarrow> throttle_config" where
  "withDefaults c =
     (let mx = (if th_MaxAttempts c \<le> 0 then 5 else th_MaxAttempts c)
      in \<lparr>th_MaxAttempts = mx,
          th_IPMaxAttempts = (if th_IPMaxAttempts c \<le> 0 then 4 * mx else th_IPMaxAttempts c),
          th_Window = (if th_Window c \<le> 0 then 900 * nanosecond_s else th_Window c),
          th_Lockout = (if th_Lockout c \<le> 0 then 900 * nanosecond_s else th_Lockout c)\<rparr>)"

record throttler =
  tr_cfg :: throttle_config
  tr_failures :: "(string \<times> time list) list"
  tr_locked :: "(string \<times> time) list"

definition NewLoginThrottler :: "throttle_config \<Rightarrow> throttler" where
  "NewLoginThrottler cfg = \<lparr>tr_cfg = withDefaults cfg, tr_failures = [], tr_locked = []\<rparr>"

definition throttle_keys :: "throttle_config \<Rightarrow> login_attempt \<Rightarrow> (string \<times> int) list" where
  "throttle_keys cfg a =
     (''e:'' @ at_Email a, th_MaxAttempts cfg) #
     (if at_IPAddress a \<noteq> [] then [(''i:'' @ at_IPAddress a, th_IPMaxAttempts cfg)] else [])"

definition throttle_Allow :: "time \<Rightarrow> login_attempt \<Rightarrow> throttler \<Rightarrow> iam_error option" where
  "throttle_Allow now a t =
     (if list_ex (\<lambda>(k, _). case map_of (tr_locked t) k of None \<Rightarrow> False | Some till \<Rightarrow> now < till)
           (throttle_keys (tr_cfg t) a)
      then Some ErrTooManyAttempts else None)"

definition throttle_recent :: "throttler \<Rightarrow> string \<Rightarrow> time \<Rightarrow> time list" where
  "throttle_recent t k now =
     filter (\<lambda>at. now - th_Window (tr_cfg t) < at) (case map_of (tr_failures t) k of None \<Rightarrow> [] | Some ts \<Rightarrow> ts)"

definition throttle_sweep :: "time \<Rightarrow> throttler \<Rightarrow> throttler" where
  "throttle_sweep now t =
     (if length (tr_failures t) + length (tr_locked t) < sweepAt then t
      else t\<lparr>tr_locked := filter (\<lambda>(k, till). now < till) (tr_locked t),
             tr_failures := filter (\<lambda>(k, _). throttle_recent t k now \<noteq> []) (tr_failures t)\<rparr>)"

definition throttle_count :: "time \<Rightarrow> string \<times> int \<Rightarrow> throttler \<Rightarrow> throttler" where
  "throttle_count now kl t =
     (let (k, limit) = kl; recent = throttle_recent t k now @ [now]
      in if limit \<le> int (length recent)
         then t\<lparr>tr_locked := AList.update k (now + th_Lockout (tr_cfg t)) (tr_locked t),
                tr_failures := AList.delete k (tr_failures t)\<rparr>
         else t\<lparr>tr_failures := AList.update k recent (tr_failures t)\<rparr>)"

definition throttle_Failure :: "time \<Rightarrow> login_attempt \<Rightarrow> throttler \<Rightarrow> throttler" where
  "throttle_Failure now a t =
     (let t = throttle_sweep now t in foldl (\<lambda>t kl. throttle_count now kl t) t (throttle_keys (tr_cfg t) a))"

definition throttle_Success :: "login_attempt \<Rightarrow> throttler \<Rightarrow> throttler" where
  "throttle_Success a t = t\<lparr>tr_failures := AList.delete (''e:'' @ at_Email a) (tr_failures t)\<rparr>"

section \<open>The in-memory ports\<close>

definition mem_throttle :: "throttler throttle_port" where
  "mem_throttle =
     \<lparr>tp_Allow = (\<lambda>now a t. (throttle_Allow now a t, t)),
      tp_Failure = (\<lambda>now a t. (None, throttle_Failure now a t)),
      tp_Success = (\<lambda>a t. (None, throttle_Success a t))\<rparr>"

definition mem_tickets :: "ticket_store ticket_port" where
  "mem_tickets =
     \<lparr>kp_Consume = (\<lambda>now jti ttl seen. case ticket_Consume now jti ttl seen of (first, seen) \<Rightarrow> (Ok first, seen))\<rparr>"

end
