(* ===== verification/Iam_Issuer.thy ===== *)
theory Iam_Issuer
  imports Iam_Store
begin

text \<open>
  Opening sessions in \<^verbatim>\<open>iam/core\<close>: the ports and events (\<^verbatim>\<open>iam/port\<close>, \<^verbatim>\<open>iam/types\<close>),
  \<^verbatim>\<open>issuer.go\<close> (tenant selection, session issue, user cut-off), the ticket checks of
  \<^verbatim>\<open>ticket.go\<close> and the lifetimes of \<^verbatim>\<open>auth.go\<close>.

  Ports are records of functions; an optional port or capability is an option. The session, throttler and
  ticket stores are the state a call threads. Random values (session id, refresh secret, ticket id) are
  arguments, and \<open>clock i\<close> is the i-th reading of the clock a call makes. Event timestamps are not
  modelled.
\<close>

section \<open>Ports and configuration\<close>

record external_identity =
  ei_Provider :: string
  ei_ExternalID :: string
  ei_Email :: string
  ei_EmailVerified :: bool
  ei_LinkedAt :: time

record user =
  u_ID :: string
  u_Email :: string
  u_PasswordHash :: string
  u_Active :: bool
  u_EmailVerified :: bool
  u_ExternalIdentities :: "external_identity list"

record user_port =
  FindByID :: "string \<Rightarrow> (iam_error, user option) result"
  FindByEmail :: "string \<Rightarrow> (iam_error, user option) result"
  ValidatePassword :: "string \<Rightarrow> string \<Rightarrow> iam_error option"
  FindOrCreateByExternalIdentity :: "external_identity \<Rightarrow> (iam_error, user option) result"

record tenant =
  tn_ID :: string
  tn_Name :: string
  tn_Modules :: "string list"
  tn_Active :: bool

record tenant_access =
  ta_Tenant :: tenant
  ta_Modules :: "string list"
  ta_Roles :: "string list"

record tenant_port =
  ListUserTenants :: "string \<Rightarrow> (iam_error, tenant_access list) result"
  AssertAccess :: "string \<Rightarrow> string \<Rightarrow> string \<Rightarrow> iam_error option"

record claims =
  cl_UserID :: string
  cl_TenantID :: string
  cl_Module :: string
  cl_Roles :: "string list"
  cl_SessionID :: string
  cl_AuthProvider :: string
  cl_Issuer :: string
  cl_IssuedAt :: time
  cl_ExpiresAt :: time
  cl_Extra :: "(string \<rightharpoonup> string) option"

record token_port =
  IssueAccessToken :: "claims \<Rightarrow> (iam_error, string) result"
  IssueRefreshToken :: "claims \<Rightarrow> (iam_error, string) result"
  ParseToken :: "string \<Rightarrow> (iam_error, claims) result"

text \<open>\<open>ac_ticketKey\<close> is the keyed hash under the configured key; \<open>None\<close> when the key is empty.\<close>

record auth_config =
  ac_accessTokenTTL :: int
  ac_refreshTokenTTL :: int
  ac_sessionMaxLifetime :: int
  ac_issuer :: string
  ac_ticketKey :: "(string \<Rightarrow> string) option"
  ac_skipTicket :: bool
  ac_dummyPasswordHash :: string

section \<open>Events\<close>

datatype iam_event_type =
  EventLogin | EventLoginFailed | EventLoginThrottled | EventIDPLogin | EventIDPLoginFailed | EventNewUser
| EventTenantSelected | EventLogout | EventLogoutAll | EventTokenRefreshed | EventTokenRefreshFailed
| EventAccessDenied | EventTenantAccessDenied | EventTokenValidated | EventTokenInvalid
| EventSessionRevoked | EventSuspiciousActivity

datatype event_extra = NoExtra | ThrottlerError iam_error | Reason string

record iam_event =
  ie_Type :: iam_event_type
  ie_UserID :: string
  ie_TenantID :: string
  ie_Module :: string
  ie_SessionID :: string
  ie_Provider :: string
  ie_IPAddress :: string
  ie_UserAgent :: string
  ie_DeviceID :: string
  ie_Error :: "iam_error option"
  ie_Extra :: event_extra

definition event :: "iam_event_type \<Rightarrow> iam_event" where
  "event t =
     \<lparr>ie_Type = t, ie_UserID = [], ie_TenantID = [], ie_Module = [], ie_SessionID = [], ie_Provider = [],
      ie_IPAddress = [], ie_UserAgent = [], ie_DeviceID = [], ie_Error = None, ie_Extra = NoExtra\<rparr>"

section \<open>State\<close>

record ('s, 't, 'k) iam_state =
  is_sessions :: 's
  is_throttle :: 't
  is_tickets :: 'k
  is_events :: "iam_event list"

definition emit :: "iam_event \<Rightarrow> ('s, 't, 'k) iam_state \<Rightarrow> ('s, 't, 'k) iam_state" where
  "emit e st = st\<lparr>is_events := is_events st @ [e]\<rparr>"

record ('s, 'k) session_issuer =
  si_tenant :: "tenant_port option"
  si_token :: token_port
  si_session :: "'s session_port"
  si_cfg :: auth_config
  si_tickets :: "'k ticket_port option"
  si_hash :: "string \<Rightarrow> string"

record ('s, 't, 'k) local_auth =
  la_issuer :: "('s, 'k) session_issuer"
  la_user :: "user_port option"
  la_throttle :: "'t throttle_port option"

section \<open>Lifetimes\<close>

definition sessionExpiry :: "auth_config \<Rightarrow> time \<Rightarrow> time \<Rightarrow> time" where
  "sessionExpiry c now authTime =
     (let maxLife = (if ac_sessionMaxLifetime c \<le> 0 then ac_refreshTokenTTL c else ac_sessionMaxLifetime c);
          exp = now + ac_refreshTokenTTL c;
          limit = authTime + maxLife
      in if limit < exp then limit else exp)"

definition sessionAuthTime :: "session \<Rightarrow> time" where
  "sessionAuthTime s = (case s_AuthTime s of None \<Rightarrow> s_CreatedAt s | Some t \<Rightarrow> t)"

text \<open>Go's zero time, 1 January of year 1, on this scale.\<close>

definition zero_time :: time where "zero_time = - 62135596800 * nanosecond_s"

definition time_value :: "time option \<Rightarrow> time" where
  "time_value t = (case t of None \<Rightarrow> zero_time | Some t \<Rightarrow> t)"

section \<open>Tickets\<close>

definition issueTenantTicket :: "auth_config \<Rightarrow> string \<Rightarrow> string \<Rightarrow> string \<Rightarrow> time \<Rightarrow> string" where
  "issueTenantTicket c jti provider userID now =
     (case ac_ticketKey c of None \<Rightarrow> [] | Some mac \<Rightarrow> signTenantTicket mac jti provider userID now)"

definition no_ticket :: ticket_claims where "no_ticket = \<lparr>tc_jti = [], tc_exp = 0\<rparr>"

definition checkTenantTicket ::
  "auth_config \<Rightarrow> string \<Rightarrow> string \<Rightarrow> string \<Rightarrow> time \<Rightarrow> (iam_error, ticket_claims) result" where
  "checkTenantTicket c ticket provider userID now =
     (if ac_skipTicket c then Ok no_ticket
      else
        (case ac_ticketKey c of
           None \<Rightarrow> Err ErrInvalidTenantTicket
         | Some mac \<Rightarrow>
             if ticket = [] then Err ErrInvalidTenantTicket
             else (case verifyTenantTicket mac ticket provider userID now of
                     None \<Rightarrow> Err ErrInvalidTenantTicket
                   | Some t \<Rightarrow> Ok t)))"

text \<open>\<open>at\<close> is the reading of \<^verbatim>\<open>time.Until\<close>, \<open>now\<close> the store's.\<close>

definition consumeTicket ::
  "('s, 'k) session_issuer \<Rightarrow> ticket_claims \<Rightarrow> time \<Rightarrow> time \<Rightarrow> ('s, 't, 'k) iam_state \<Rightarrow>
   iam_error option \<times> ('s, 't, 'k) iam_state" where
  "consumeTicket i t at now st =
     (case si_tickets i of
        None \<Rightarrow> (None, st)
      | Some k \<Rightarrow>
          if tc_jti t = [] then (None, st)
          else
            (case kp_Consume k now (tc_jti t) (tc_exp t * nanosecond_s - at + 60 * nanosecond_s) (is_tickets st) of
               (r, ks) \<Rightarrow>
                 (case r of
                    Inl e \<Rightarrow> Some (Wrapped ''iam: consume tenant ticket'' e)
                  | Inr first \<Rightarrow> if first then None else Some ErrInvalidTenantTicket,
                  st\<lparr>is_tickets := ks\<rparr>)))"

section \<open>Issuing sessions\<close>

definition rolesForTenant :: "tenant_access list \<Rightarrow> string \<Rightarrow> string list" where
  "rolesForTenant ts tid =
     (case List.find (\<lambda>t. tn_ID (ta_Tenant t) = tid) ts of None \<Rightarrow> [] | Some t \<Rightarrow> ta_Roles t)"

definition extraToClaims :: "(string \<rightharpoonup> string) \<Rightarrow> (string \<rightharpoonup> string) option" where
  "extraToClaims m = (if m = Map.empty then None else Some m)"

text \<open>The session a seed turns into; the copies of the extra maps are the maps.\<close>

definition session_of ::
  "('s, 'k) session_issuer \<Rightarrow> session \<Rightarrow> string \<Rightarrow> string \<Rightarrow> string \<Rightarrow> time \<Rightarrow> session" where
  "session_of i seed sid access refresh now =
     seed\<lparr>s_ID := sid, s_AccessToken := access, s_RefreshToken := refresh,
          s_RefreshTokenHash := si_hash i refresh, s_RefreshTokenLastFour := lastFour refresh,
          s_ExpiresAt := sessionExpiry (si_cfg i) now (time_value (s_AuthTime seed)),
          s_CreatedAt := now, s_LastUsedAt := now,
          s_Revoked := False, s_RevokedAt := None, s_RevokedBy := []\<rparr>"

text \<open>\<open>sid\<close> is the new session id; \<open>secret\<close> the random part of the refresh token or the failure of the
  random source.\<close>

definition issue ::
  "('s, 'k) session_issuer \<Rightarrow> string \<Rightarrow> (iam_error, string) result \<Rightarrow> session \<Rightarrow> string list \<Rightarrow> time \<Rightarrow>
   ('s, 't, 'k) iam_state \<Rightarrow> (iam_error, session) result \<times> ('s, 't, 'k) iam_state" where
  "issue i sid secret seed roles now st =
     (case IssueAccessToken (si_token i)
        \<lparr>cl_UserID = s_UserID seed, cl_TenantID = s_TenantID seed, cl_Module = s_Module seed, cl_Roles = roles,
         cl_SessionID = sid, cl_AuthProvider = s_AuthProvider seed, cl_Issuer = ac_issuer (si_cfg i),
         cl_IssuedAt = now, cl_ExpiresAt = now + ac_accessTokenTTL (si_cfg i),
         cl_Extra = extraToClaims (s_ClaimsExtra seed)\<rparr> of
        Inl e \<Rightarrow> (Err e, st)
      | Inr access \<Rightarrow>
          (case secret of
             Inl e \<Rightarrow> (Err e, st)
           | Inr random \<Rightarrow>
               (let s = session_of i seed sid access (buildRefreshToken sid random) now
                in case sp_Save (si_session i) s (is_sessions st) of
                     (e, ss) \<Rightarrow> (case e of Some e \<Rightarrow> Err e | None \<Rightarrow> Ok s, st\<lparr>is_sessions := ss\<rparr>))))"

definition checkUserCutoff :: "('s, 'k) session_issuer \<Rightarrow> session \<Rightarrow> 's \<Rightarrow> iam_error option" where
  "checkUserCutoff i s ss =
     (case sp_RevokedBefore (si_session i) of
        None \<Rightarrow> None
      | Some before \<Rightarrow>
          (case before (s_UserID s) ss of
             Inl e \<Rightarrow> Some e
           | Inr None \<Rightarrow> None
           | Inr (Some cutoff) \<Rightarrow> if \<not> cutoff < sessionAuthTime s then Some ErrSessionRevoked else None))"

definition suspicious :: "session \<Rightarrow> string \<Rightarrow> iam_error option \<Rightarrow> ('s, 't, 'k) iam_state \<Rightarrow> ('s, 't, 'k) iam_state" where
  "suspicious s reason e =
     emit ((event EventSuspiciousActivity)
       \<lparr>ie_UserID := s_UserID s, ie_SessionID := s_ID s, ie_Error := e, ie_Extra := Reason reason\<rparr>)"

section \<open>Selecting a tenant\<close>

record select_input =
  sel_UserID :: string
  sel_TenantID :: string
  sel_Module :: string
  sel_Ticket :: string
  sel_AuthTime :: "time option"
  sel_IPAddress :: string
  sel_UserAgent :: string
  sel_DeviceID :: string
  sel_ClaimsExtra :: "string \<rightharpoonup> string"
  sel_SessionExtra :: "string \<rightharpoonup> string"

definition denied :: "string \<Rightarrow> select_input \<Rightarrow> iam_error \<Rightarrow> ('s, 't, 'k) iam_state \<Rightarrow> ('s, 't, 'k) iam_state" where
  "denied provider input e =
     emit ((event EventTenantAccessDenied)
       \<lparr>ie_UserID := sel_UserID input, ie_TenantID := sel_TenantID input, ie_Module := sel_Module input,
        ie_Provider := provider, ie_IPAddress := sel_IPAddress input, ie_Error := Some e\<rparr>)"

definition tenant_seed :: "string \<Rightarrow> select_input \<Rightarrow> time \<Rightarrow> session" where
  "tenant_seed provider input authTime =
     \<lparr>s_ID = [], s_UserID = sel_UserID input, s_TenantID = sel_TenantID input, s_Module = sel_Module input,
      s_AccessToken = [], s_RefreshToken = [], s_RefreshTokenHash = [], s_RefreshTokenLastFour = [],
      s_AuthProvider = provider, s_AuthTime = Some authTime, s_ExpiresAt = zero_time, s_CreatedAt = zero_time,
      s_LastUsedAt = zero_time, s_Revoked = False, s_RevokedAt = None, s_RevokedBy = [],
      s_IPAddress = sel_IPAddress input, s_UserAgent = sel_UserAgent input, s_DeviceID = sel_DeviceID input,
      s_ClaimsExtra = sel_ClaimsExtra input, s_SessionExtra = sel_SessionExtra input\<rparr>"

text \<open>The login time a new session counts from, or the error when its lifetime is already over.\<close>

definition select_auth_time :: "auth_config \<Rightarrow> time option \<Rightarrow> time \<Rightarrow> (iam_error, time) result" where
  "select_auth_time c given now =
     (case given of
        None \<Rightarrow> Ok now
      | Some t \<Rightarrow>
          if t < now then (if \<not> now < sessionExpiry c now t then Err ErrSessionExpired else Ok t) else Ok now)"

text \<open>The last part of \<^verbatim>\<open>selectTenant\<close>, after the ticket is consumed.\<close>

definition open_session ::
  "('s, 'k) session_issuer \<Rightarrow> tenant_port \<Rightarrow> string \<Rightarrow> time \<Rightarrow> string \<Rightarrow> (iam_error, string) result \<Rightarrow> select_input \<Rightarrow>
   ('s, 't, 'k) iam_state \<Rightarrow> (iam_error, session) result \<times> ('s, 't, 'k) iam_state" where
  "open_session i tenants provider now sid secret input st =
     (case ListUserTenants tenants (sel_UserID input) of
        Inl e \<Rightarrow> (Err e, st)
      | Inr ts \<Rightarrow>
          (case select_auth_time (si_cfg i) (sel_AuthTime input) now of
             Inl e \<Rightarrow> (Err e, st)
           | Inr authTime \<Rightarrow>
               (case issue i sid secret (tenant_seed provider input authTime)
                       (rolesForTenant ts (sel_TenantID input)) now st of
                  (Inl e, st) \<Rightarrow> (Err e, st)
                | (Inr s, st) \<Rightarrow>
                    (Ok s,
                     emit ((event EventTenantSelected)
                       \<lparr>ie_UserID := sel_UserID input, ie_TenantID := sel_TenantID input, ie_Module := sel_Module input,
                        ie_SessionID := s_ID s, ie_Provider := provider, ie_IPAddress := sel_IPAddress input,
                        ie_UserAgent := sel_UserAgent input, ie_DeviceID := sel_DeviceID input\<rparr>) st))))"

definition selectTenant ::
  "('s, 'k) session_issuer \<Rightarrow> string \<Rightarrow> (nat \<Rightarrow> time) \<Rightarrow> string \<Rightarrow> (iam_error, string) result \<Rightarrow> select_input \<Rightarrow>
   ('s, 't, 'k) iam_state \<Rightarrow> (iam_error, session) result \<times> ('s, 't, 'k) iam_state" where
  "selectTenant i provider clock sid secret input st =
     (case si_tenant i of
        None \<Rightarrow> (Err ErrLoginPortsRequired, st)
      | Some tenants \<Rightarrow>
          (case checkTenantTicket (si_cfg i) (sel_Ticket input) provider (sel_UserID input) (clock 0) of
             Inl e \<Rightarrow> (Err e, denied provider input e st)
           | Inr ticket \<Rightarrow>
               (case AssertAccess tenants (sel_UserID input) (sel_TenantID input) (sel_Module input) of
                  Some e \<Rightarrow>
                    if \<not> errors_is e ErrTenantAccessDenied then (Err (Wrapped ''iam: tenant access check'' e), st)
                    else (Err ErrTenantAccessDenied, denied provider input ErrTenantAccessDenied st)
                | None \<Rightarrow>
                    (case consumeTicket i ticket (clock 1) (clock 2) st of
                       (Some e, st) \<Rightarrow> (Err e, denied provider input e st)
                     | (None, st) \<Rightarrow> open_session i tenants provider (clock 3) sid secret input st))))"

end
