(* ===== verification/Iam_Auth.thy ===== *)
theory Iam_Auth
  imports Iam_Issuer
begin

text \<open>
  The built-in login of \<^verbatim>\<open>iam/core/auth.go\<close> (password login, refresh with rotation and reuse
  detection, validation, logout), the social login of \<^verbatim>\<open>idp.go\<close> and the operations the facade of
  \<^verbatim>\<open>service.go\<close> adds. The dummy password check of an unknown email only spends time: it returns
  nothing and changes no state of the model.
\<close>

section \<open>Authenticate\<close>

definition localProvider :: string where "localProvider = ''local''"

record auth_input =
  ai_Email :: string
  ai_Password :: string
  ai_IPAddress :: string

record auth_result =
  ar_UserID :: string
  ar_Tenants :: "tenant_access list"
  ar_Ticket :: string

definition normalizeEmail :: "text_env \<Rightarrow> string \<Rightarrow> string" where
  "normalizeEmail tenv email = ToLower tenv (TrimSpace email)"

definition allowLogin ::
  "('s, 't, 'k) local_auth \<Rightarrow> time \<Rightarrow> login_attempt \<Rightarrow> ('s, 't, 'k) iam_state \<Rightarrow>
   iam_error option \<times> ('s, 't, 'k) iam_state" where
  "allowLogin a now att st =
     (case la_throttle a of
        None \<Rightarrow> (None, st)
      | Some tp \<Rightarrow>
          (case tp_Allow tp now att (is_throttle st) of
             (r, ts) \<Rightarrow>
               (let st = st\<lparr>is_throttle := ts\<rparr>
                in case r of
                     None \<Rightarrow> (None, st)
                   | Some e \<Rightarrow>
                       (Some (if errors_is e ErrTooManyAttempts then ErrTooManyAttempts
                              else Wrapped ''iam: login throttler'' e),
                        emit ((event EventLoginThrottled)
                          \<lparr>ie_IPAddress := at_IPAddress att, ie_Error := Some e\<rparr>) st))))"

definition loginFailed ::
  "('s, 't, 'k) local_auth \<Rightarrow> time \<Rightarrow> login_attempt \<Rightarrow> string \<Rightarrow> iam_error \<Rightarrow> ('s, 't, 'k) iam_state \<Rightarrow>
   iam_error \<times> ('s, 't, 'k) iam_state" where
  "loginFailed a now att userID cause st =
     (let ev = (event EventLoginFailed)
        \<lparr>ie_UserID := userID, ie_IPAddress := at_IPAddress att, ie_Error := Some cause\<rparr>
      in case la_throttle a of
           None \<Rightarrow> (cause, emit ev st)
         | Some tp \<Rightarrow>
             (case tp_Failure tp now att (is_throttle st) of
                (r, ts) \<Rightarrow>
                  (cause,
                   emit (case r of None \<Rightarrow> ev | Some e \<Rightarrow> ev\<lparr>ie_Extra := ThrottlerError e\<rparr>)
                     (st\<lparr>is_throttle := ts\<rparr>))))"

definition loginSucceeded ::
  "('s, 't, 'k) local_auth \<Rightarrow> login_attempt \<Rightarrow> ('s, 't, 'k) iam_state \<Rightarrow> ('s, 't, 'k) iam_state" where
  "loginSucceeded a att st =
     (case la_throttle a of
        None \<Rightarrow> st
      | Some tp \<Rightarrow>
          (case tp_Success tp att (is_throttle st) of
             (r, ts) \<Rightarrow>
               (let st = st\<lparr>is_throttle := ts\<rparr>
                in case r of
                     None \<Rightarrow> st
                   | Some e \<Rightarrow>
                       emit ((event EventLoginThrottled)
                         \<lparr>ie_IPAddress := at_IPAddress att, ie_Error := Some e\<rparr>) st)))"

text \<open>The part of \<^verbatim>\<open>Authenticate\<close> after the password matched.\<close>

definition login_done ::
  "('s, 't, 'k) local_auth \<Rightarrow> tenant_port \<Rightarrow> time \<Rightarrow> string \<Rightarrow> auth_input \<Rightarrow> user \<Rightarrow> ('s, 't, 'k) iam_state \<Rightarrow>
   (iam_error, auth_result) result \<times> ('s, 't, 'k) iam_state" where
  "login_done a tenants now jti input u st =
     (if \<not> u_Active u
      then (Err ErrAccountInactive,
            emit ((event EventLoginFailed)
              \<lparr>ie_UserID := u_ID u, ie_IPAddress := ai_IPAddress input, ie_Error := Some ErrAccountInactive\<rparr>) st)
      else
        (case ListUserTenants tenants (u_ID u) of
           Inl e \<Rightarrow> (Err e, st)
         | Inr ts \<Rightarrow>
             (Ok \<lparr>ar_UserID = u_ID u, ar_Tenants = ts,
                  ar_Ticket = issueTenantTicket (si_cfg (la_issuer a)) jti localProvider (u_ID u) now\<rparr>,
              emit ((event EventLogin)
                \<lparr>ie_UserID := u_ID u, ie_Provider := localProvider, ie_IPAddress := ai_IPAddress input\<rparr>) st)))"

definition failed_login ::
  "('s, 't, 'k) local_auth \<Rightarrow> time \<Rightarrow> login_attempt \<Rightarrow> string \<Rightarrow> ('s, 't, 'k) iam_state \<Rightarrow>
   (iam_error, auth_result) result \<times> ('s, 't, 'k) iam_state" where
  "failed_login a now att userID st =
     (case loginFailed a now att userID ErrInvalidCredentials st of (e, st) \<Rightarrow> (Err e, st))"

definition Authenticate ::
  "text_env \<Rightarrow> ('s, 't, 'k) local_auth \<Rightarrow> (nat \<Rightarrow> time) \<Rightarrow> string \<Rightarrow> auth_input \<Rightarrow> ('s, 't, 'k) iam_state \<Rightarrow>
   (iam_error, auth_result) result \<times> ('s, 't, 'k) iam_state" where
  "Authenticate tenv a clock jti input st =
     (case (la_user a, si_tenant (la_issuer a)) of
        (Some users, Some tenants) \<Rightarrow>
          (let att = \<lparr>at_Email = normalizeEmail tenv (ai_Email input), at_IPAddress = ai_IPAddress input\<rparr>
           in case allowLogin a (clock 0) att st of
                (Some e, st) \<Rightarrow> (Err e, st)
              | (None, st) \<Rightarrow>
                  (case FindByEmail users (ai_Email input) of
                     Inr (Some u) \<Rightarrow>
                       (case ValidatePassword users (u_ID u) (ai_Password input) of
                          Some _ \<Rightarrow> failed_login a (clock 1) att (u_ID u) st
                        | None \<Rightarrow> login_done a tenants (clock 1) jti input u (loginSucceeded a att st))
                   | _ \<Rightarrow> failed_login a (clock 1) att [] st))
      | _ \<Rightarrow> (Err ErrLoginPortsRequired, st))"

definition SelectTenant ::
  "('s, 't, 'k) local_auth \<Rightarrow> (nat \<Rightarrow> time) \<Rightarrow> string \<Rightarrow> (iam_error, string) result \<Rightarrow> select_input \<Rightarrow>
   ('s, 't, 'k) iam_state \<Rightarrow> (iam_error, session) result \<times> ('s, 't, 'k) iam_state" where
  "SelectTenant a = selectTenant (la_issuer a) localProvider"

section \<open>Logout\<close>

definition Logout ::
  "('s, 't, 'k) local_auth \<Rightarrow> time \<Rightarrow> string \<Rightarrow> ('s, 't, 'k) iam_state \<Rightarrow> iam_error option \<times> ('s, 't, 'k) iam_state" where
  "Logout a now sid st =
     (case sp_Revoke (si_session (la_issuer a)) now sid (is_sessions st) of
        (Some e, ss) \<Rightarrow> (Some e, st\<lparr>is_sessions := ss\<rparr>)
      | (None, ss) \<Rightarrow> (None, emit ((event EventLogout)\<lparr>ie_SessionID := sid\<rparr>) (st\<lparr>is_sessions := ss\<rparr>)))"

text \<open>\<^verbatim>\<open>IAMService.LogoutAll\<close>, on the service's session port.\<close>

definition LogoutAll ::
  "'s session_port \<Rightarrow> time \<Rightarrow> string \<Rightarrow> ('s, 't, 'k) iam_state \<Rightarrow> iam_error option \<times> ('s, 't, 'k) iam_state" where
  "LogoutAll port now userID st =
     (case sp_RevokeAllForUser port now userID (is_sessions st) of
        (Some e, ss) \<Rightarrow> (Some e, st\<lparr>is_sessions := ss\<rparr>)
      | (None, ss) \<Rightarrow> (None, emit ((event EventLogoutAll)\<lparr>ie_UserID := userID\<rparr>) (st\<lparr>is_sessions := ss\<rparr>)))"

section \<open>RefreshToken\<close>

definition sessionLookupError :: "iam_error option \<Rightarrow> iam_error" where
  "sessionLookupError e =
     (case e of
        None \<Rightarrow> ErrSessionNotFound
      | Some e \<Rightarrow> if errors_is e ErrSessionNotFound then ErrSessionNotFound else Wrapped ''iam: session store'' e)"

definition tokenHashMatches :: "('s, 'k) session_issuer \<Rightarrow> string \<Rightarrow> string \<Rightarrow> bool" where
  "tokenHashMatches i token stored \<longleftrightarrow> si_hash i token = stored"

text \<open>The outcome of a store lookup: a session, or the error a caller sees beside the store's own.\<close>

definition found :: "(iam_error, session option) result \<Rightarrow> iam_error option + session" where
  "found r = (case r of Inl e \<Rightarrow> Inl (Some e) | Inr None \<Rightarrow> Inl None | Inr (Some s) \<Rightarrow> Inr s)"

definition revokeAllOnReuse ::
  "('s, 't, 'k) local_auth \<Rightarrow> time \<Rightarrow> session \<Rightarrow> ('s, 't, 'k) iam_state \<Rightarrow> iam_error \<times> ('s, 't, 'k) iam_state" where
  "revokeAllOnReuse a now s st =
     (case sp_RevokeAllForUser (si_session (la_issuer a)) now (s_UserID s) (is_sessions st) of
        (e, ss) \<Rightarrow>
          (case e of None \<Rightarrow> ErrSessionRevoked | Some e \<Rightarrow> Both ErrSessionRevoked e,
           suspicious s ''refresh_token_reuse'' e (st\<lparr>is_sessions := ss\<rparr>)))"

definition refreshable ::
  "('s, 't, 'k) local_auth \<Rightarrow> (nat \<Rightarrow> time) \<Rightarrow> string \<Rightarrow> ('s, 't, 'k) iam_state \<Rightarrow>
   (iam_error, session) result \<times> ('s, 't, 'k) iam_state" where
  "refreshable a clock token st =
     (let i = la_issuer a
      in case parseRefreshToken token of
           None \<Rightarrow>
             (Err ErrTokenInvalid, emit ((event EventTokenRefreshFailed)\<lparr>ie_Error := Some ErrTokenInvalid\<rparr>) st)
         | Some sid \<Rightarrow>
             (case sp_Get (si_session i) (clock 0) sid (is_sessions st) of
                (r, ss) \<Rightarrow>
                  (let st = st\<lparr>is_sessions := ss\<rparr>
                   in case found r of
                        Inl e \<Rightarrow>
                          (Err (sessionLookupError e),
                           emit ((event EventTokenRefreshFailed)\<lparr>ie_SessionID := sid, ie_Error := e\<rparr>) st)
                      | Inr s \<Rightarrow>
                          if \<not> tokenHashMatches i token (s_RefreshTokenHash s)
                          then (Err ErrTokenInvalid, suspicious s ''refresh_token_hash_mismatch'' (Some ErrTokenInvalid) st)
                          else if s_Revoked s
                          then (case revokeAllOnReuse a (clock 1) s st of (e, st) \<Rightarrow> (Err e, st))
                          else if s_ExpiresAt s < clock 1 \<or>
                                  \<not> clock 1 < sessionExpiry (si_cfg i) (clock 1) (sessionAuthTime s)
                          then (Err ErrSessionExpired, st)
                          else (case checkUserCutoff i s (is_sessions st) of
                                  Some e \<Rightarrow> (Err e, st)
                                | None \<Rightarrow> (Ok s, st)))))"

definition revalidate ::
  "('s, 't, 'k) local_auth \<Rightarrow> user_port \<Rightarrow> tenant_port \<Rightarrow> time \<Rightarrow> session \<Rightarrow> ('s, 't, 'k) iam_state \<Rightarrow>
   iam_error option \<times> ('s, 't, 'k) iam_state" where
  "revalidate a users tenants now s st =
     (case FindByID users (s_UserID s) of
        Inl e \<Rightarrow> (Some e, st)
      | Inr u \<Rightarrow>
          if (case u of None \<Rightarrow> True | Some u \<Rightarrow> \<not> u_Active u)
          then (case sp_Revoke (si_session (la_issuer a)) now (s_ID s) (is_sessions st) of
                  (r, ss) \<Rightarrow>
                    (let e = (case r of None \<Rightarrow> ErrAccountInactive | Some r \<Rightarrow> Both ErrAccountInactive r)
                     in (Some e,
                         emit ((event EventTokenRefreshFailed)
                           \<lparr>ie_UserID := s_UserID s, ie_SessionID := s_ID s, ie_Error := Some e\<rparr>)
                           (st\<lparr>is_sessions := ss\<rparr>))))
          else
            (case AssertAccess tenants (s_UserID s) (s_TenantID s) (s_Module s) of
               None \<Rightarrow> (None, st)
             | Some e \<Rightarrow>
                 if \<not> errors_is e ErrTenantAccessDenied then (Some (Wrapped ''iam: tenant access check'' e), st)
                 else (Some ErrTenantAccessDenied,
                       emit ((event EventTenantAccessDenied)
                         \<lparr>ie_UserID := s_UserID s, ie_TenantID := s_TenantID s, ie_Module := s_Module s,
                          ie_SessionID := s_ID s, ie_Error := Some ErrTenantAccessDenied\<rparr>) st)))"

definition revokeForRotation ::
  "('s, 't, 'k) local_auth \<Rightarrow> time \<Rightarrow> session \<Rightarrow> ('s, 't, 'k) iam_state \<Rightarrow> iam_error option \<times> ('s, 't, 'k) iam_state" where
  "revokeForRotation a now s st =
     (let port = si_session (la_issuer a)
      in case sp_RevokeIfActive port of
           None \<Rightarrow> (case sp_Revoke port now (s_ID s) (is_sessions st) of (e, ss) \<Rightarrow> (e, st\<lparr>is_sessions := ss\<rparr>))
         | Some revoke \<Rightarrow>
             (case revoke now (s_ID s) (is_sessions st) of
                (Inl e, ss) \<Rightarrow> (Some e, st\<lparr>is_sessions := ss\<rparr>)
              | (Inr True, ss) \<Rightarrow> (None, st\<lparr>is_sessions := ss\<rparr>)
              | (Inr False, ss) \<Rightarrow>
                  (Some ErrSessionRevoked,
                   emit ((event EventTokenRefreshFailed)
                     \<lparr>ie_UserID := s_UserID s, ie_SessionID := s_ID s, ie_Error := Some ErrSessionRevoked\<rparr>)
                     (st\<lparr>is_sessions := ss\<rparr>))))"

text \<open>\<^verbatim>\<open>RefreshToken\<close> up to the revocation, and from it on: other calls may run between the two.\<close>

definition refresh_check ::
  "('s, 't, 'k) local_auth \<Rightarrow> user_port \<Rightarrow> tenant_port \<Rightarrow> (nat \<Rightarrow> time) \<Rightarrow> string \<Rightarrow> ('s, 't, 'k) iam_state \<Rightarrow>
   (iam_error, session \<times> tenant_access list) result \<times> ('s, 't, 'k) iam_state" where
  "refresh_check a users tenants clock token st =
     (case refreshable a clock token st of
        (Inl e, st) \<Rightarrow> (Err e, st)
      | (Inr s, st) \<Rightarrow>
          (case revalidate a users tenants (clock 2) s st of
             (Some e, st) \<Rightarrow> (Err e, st)
           | (None, st) \<Rightarrow>
               (case ListUserTenants tenants (s_UserID s) of
                  Inl e \<Rightarrow> (Err e, st)
                | Inr ts \<Rightarrow> (Ok (s, ts), st))))"

definition refresh_rotate ::
  "('s, 't, 'k) local_auth \<Rightarrow> (nat \<Rightarrow> time) \<Rightarrow> string \<Rightarrow> (iam_error, string) result \<Rightarrow> session \<Rightarrow> tenant_access list \<Rightarrow>
   ('s, 't, 'k) iam_state \<Rightarrow> (iam_error, session) result \<times> ('s, 't, 'k) iam_state" where
  "refresh_rotate a clock sid secret s ts st =
     (case revokeForRotation a (clock 3) s st of
        (Some e, st) \<Rightarrow> (Err e, st)
      | (None, st) \<Rightarrow>
          (case issue (la_issuer a) sid secret (s\<lparr>s_AuthTime := Some (sessionAuthTime s)\<rparr>)
                  (rolesForTenant ts (s_TenantID s)) (clock 4) st of
             (Inl e, st) \<Rightarrow> (Err e, st)
           | (Inr n, st) \<Rightarrow>
               (Ok n,
                emit ((event EventTokenRefreshed)
                  \<lparr>ie_UserID := s_UserID s, ie_TenantID := s_TenantID s, ie_SessionID := s_ID n,
                   ie_Provider := s_AuthProvider s\<rparr>) st)))"

definition RefreshToken ::
  "('s, 't, 'k) local_auth \<Rightarrow> (nat \<Rightarrow> time) \<Rightarrow> string \<Rightarrow> (iam_error, string) result \<Rightarrow> string \<Rightarrow>
   ('s, 't, 'k) iam_state \<Rightarrow> (iam_error, session) result \<times> ('s, 't, 'k) iam_state" where
  "RefreshToken a clock sid secret token st =
     (case (la_user a, si_tenant (la_issuer a)) of
        (Some users, Some tenants) \<Rightarrow>
          (case refresh_check a users tenants clock token st of
             (Inl e, st) \<Rightarrow> (Err e, st)
           | (Inr (s, ts), st) \<Rightarrow> refresh_rotate a clock sid secret s ts st)
      | _ \<Rightarrow> (Err ErrLoginPortsRequired, st))"

section \<open>ValidateToken\<close>

definition checkSession ::
  "('s, 't, 'k) local_auth \<Rightarrow> (nat \<Rightarrow> time) \<Rightarrow> claims \<Rightarrow> ('s, 't, 'k) iam_state \<Rightarrow>
   iam_error option \<times> ('s, 't, 'k) iam_state" where
  "checkSession a clock c st =
     (let i = la_issuer a
      in case sp_Get (si_session i) (clock 0) (cl_SessionID c) (is_sessions st) of
           (r, ss) \<Rightarrow>
             (let st = st\<lparr>is_sessions := ss\<rparr>
              in case found r of
                   Inl e \<Rightarrow> (Some (sessionLookupError e), st)
                 | Inr s \<Rightarrow>
                     if s_UserID s \<noteq> cl_UserID c \<or> s_TenantID s \<noteq> cl_TenantID c
                     then (Some ErrTokenInvalid, suspicious s ''session_claims_mismatch'' (Some ErrTokenInvalid) st)
                     else if s_Revoked s then (Some ErrSessionRevoked, st)
                     else if s_ExpiresAt s < clock 1 then (Some ErrSessionExpired, st)
                     else (checkUserCutoff i s (is_sessions st), st)))"

definition ValidateToken ::
  "('s, 't, 'k) local_auth \<Rightarrow> (nat \<Rightarrow> time) \<Rightarrow> string \<Rightarrow> ('s, 't, 'k) iam_state \<Rightarrow>
   (iam_error, claims) result \<times> ('s, 't, 'k) iam_state" where
  "ValidateToken a clock token st =
     (case ParseToken (si_token (la_issuer a)) token of
        Inl e \<Rightarrow> (Err e, emit ((event EventTokenInvalid)\<lparr>ie_Error := Some e\<rparr>) st)
      | Inr c \<Rightarrow>
          (case checkSession a clock c st of
             (Some e, st) \<Rightarrow> (Err e, st)
           | (None, st) \<Rightarrow>
               (Ok c,
                emit ((event EventTokenValidated)
                  \<lparr>ie_UserID := cl_UserID c, ie_TenantID := cl_TenantID c, ie_SessionID := cl_SessionID c\<rparr>) st)))"

section \<open>Social login\<close>

record idp_user =
  iu_ExternalID :: string
  iu_Provider :: string
  iu_Email :: string
  iu_EmailVerified :: bool
  iu_Name :: string
  iu_PictureURL :: string

record callback_input =
  cb_Code :: string
  cb_State :: string
  cb_ExpectedState :: string
  cb_CodeVerifier :: string
  cb_ExpectedNonce :: string
  cb_RedirectURI :: string

record callback_result =
  cr_UserID :: string
  cr_Ticket :: string
  cr_IDPUser :: idp_user
  cr_Tenants :: "tenant_access list"
  cr_IsNewUser :: bool

record idp_port =
  ip_ProviderName :: string
  ip_HandleCallback :: "callback_input \<Rightarrow> (iam_error, callback_result) result"

record ('s, 'k) idp_service =
  id_issuer :: "('s, 'k) session_issuer"
  id_provider :: idp_port
  id_user :: "user_port option"

definition idp_failed :: "idp_port \<Rightarrow> string \<Rightarrow> iam_error \<Rightarrow> ('s, 't, 'k) iam_state \<Rightarrow> ('s, 't, 'k) iam_state" where
  "idp_failed p uid e =
     emit ((event EventIDPLoginFailed)\<lparr>ie_UserID := uid, ie_Provider := ip_ProviderName p, ie_Error := Some e\<rparr>)"

definition HandleCallback ::
  "('s, 'k) idp_service \<Rightarrow> (nat \<Rightarrow> time) \<Rightarrow> string \<Rightarrow> callback_input \<Rightarrow> ('s, 't, 'k) iam_state \<Rightarrow>
   (iam_error, callback_result) result \<times> ('s, 't, 'k) iam_state" where
  "HandleCallback v clock jti input st =
     (let p = id_provider v; i = id_issuer v
      in case (id_user v, si_tenant i) of
           (Some users, Some tenants) \<Rightarrow>
             if cb_State input = [] \<or> cb_ExpectedState input = []
             then (Err ErrInvalidIDPState, idp_failed p [] ErrInvalidIDPState st)
             else
               (case ip_HandleCallback p input of
                  Inl e \<Rightarrow> (Err e, idp_failed p [] e st)
                | Inr r \<Rightarrow>
                    (case FindOrCreateByExternalIdentity users
                       \<lparr>ei_Provider = iu_Provider (cr_IDPUser r), ei_ExternalID = iu_ExternalID (cr_IDPUser r),
                        ei_Email = iu_Email (cr_IDPUser r), ei_EmailVerified = iu_EmailVerified (cr_IDPUser r),
                        ei_LinkedAt = clock 0\<rparr> of
                       Inl e \<Rightarrow> (Err e, st)
                     | Inr None \<Rightarrow> (Err ErrAccountInactive, idp_failed p [] ErrAccountInactive st)
                     | Inr (Some u) \<Rightarrow>
                         if \<not> u_Active u then (Err ErrAccountInactive, idp_failed p (u_ID u) ErrAccountInactive st)
                         else
                           (case ListUserTenants tenants (u_ID u) of
                              Inl e \<Rightarrow> (Err e, st)
                            | Inr ts \<Rightarrow>
                                (Ok \<lparr>cr_UserID = u_ID u,
                                     cr_Ticket = issueTenantTicket (si_cfg i) jti (ip_ProviderName p) (u_ID u) (clock 1),
                                     cr_IDPUser = cr_IDPUser r, cr_Tenants = ts, cr_IsNewUser = cr_IsNewUser r\<rparr>,
                                 emit ((event (if cr_IsNewUser r then EventNewUser else EventIDPLogin))
                                   \<lparr>ie_UserID := u_ID u, ie_Provider := ip_ProviderName p\<rparr>) st))))
         | _ \<Rightarrow> (Err ErrLoginPortsRequired, st))"

definition IDP_SelectTenant ::
  "('s, 'k) idp_service \<Rightarrow> (nat \<Rightarrow> time) \<Rightarrow> string \<Rightarrow> (iam_error, string) result \<Rightarrow> select_input \<Rightarrow>
   ('s, 't, 'k) iam_state \<Rightarrow> (iam_error, session) result \<times> ('s, 't, 'k) iam_state" where
  "IDP_SelectTenant v = selectTenant (id_issuer v) (ip_ProviderName (id_provider v))"

definition idpFor :: "(string \<rightharpoonup> 'v) \<Rightarrow> string \<Rightarrow> (iam_error, 'v) result" where
  "idpFor idps provider =
     (case idps provider of None \<Rightarrow> Err (Wrapped provider ErrProviderNotFound) | Some v \<Rightarrow> Ok v)"

end
