(* ===== verification/Iam_Sessions.thy ===== *)
theory Iam_Sessions
  imports Iam_Auth
begin

text \<open>
  The contract of a session store (\<^verbatim>\<open>port.SessionPort\<close> with its optional parts) as a locale,
  interpreted on the in-memory store, and what the login operations do to the stored sessions, proved once
  from the contract.
\<close>

section \<open>How stored sessions change\<close>

definition unrevoked :: "session \<Rightarrow> session" where
  "unrevoked s = s\<lparr>s_Revoked := False, s_RevokedAt := None, s_RevokedBy := []\<rparr>"

definition stored :: "session \<Rightarrow> session" where
  "stored s = s\<lparr>s_RefreshToken := [], s_AccessToken := []\<rparr>"

text \<open>Sessions may be revoked and unrevoked ones dropped; nothing else of a session changes.\<close>

definition evolves :: "(string \<rightharpoonup> session) \<Rightarrow> (string \<rightharpoonup> session) \<Rightarrow> bool" where
  "evolves m m' \<longleftrightarrow>
     (\<forall>k s'. m' k = Some s' \<longrightarrow> (\<exists>s. m k = Some s \<and> unrevoked s' = unrevoked s \<and> (s_Revoked s \<longrightarrow> s_Revoked s'))) \<and>
     (\<forall>k s. m k = Some s \<longrightarrow> s_Revoked s \<longrightarrow> m' k \<noteq> None)"

lemma evolves_refl [simp]: "evolves m m"
  by (auto simp: evolves_def)

lemma evolves_from:
  assumes "evolves m m'" "m' k = Some s'"
  obtains s where "m k = Some s" "unrevoked s' = unrevoked s" "s_Revoked s \<longrightarrow> s_Revoked s'"
  using assms unfolding evolves_def by blast

lemma evolves_revoked:
  assumes "evolves m m'" "m k = Some s" "s_Revoked s"
  obtains s' where "m' k = Some s'" "unrevoked s' = unrevoked s" "s_Revoked s'"
proof -
  obtain s' where s': "m' k = Some s'" using assms unfolding evolves_def by blast
  then show ?thesis by (rule evolves_from [OF assms(1)]) (use assms s' that in auto)
qed

lemma evolves_trans:
  assumes "evolves m1 m2" "evolves m2 m3"
  shows "evolves m1 m3"
  unfolding evolves_def
proof (intro conjI allI impI)
  fix k s' assume "m3 k = Some s'"
  then obtain s2 where s2: "m2 k = Some s2" "unrevoked s' = unrevoked s2" "s_Revoked s2 \<longrightarrow> s_Revoked s'"
    by (rule evolves_from [OF assms(2)])
  obtain s where s: "m1 k = Some s" "unrevoked s2 = unrevoked s" "s_Revoked s \<longrightarrow> s_Revoked s2"
    by (rule evolves_from [OF assms(1) s2(1)])
  show "\<exists>s. m1 k = Some s \<and> unrevoked s' = unrevoked s \<and> (s_Revoked s \<longrightarrow> s_Revoked s')"
    by (rule exI [of _ s]) (use s s2 in auto)
next
  fix k s assume "m1 k = Some s" "s_Revoked s"
  then obtain s2 where "m2 k = Some s2" "s_Revoked s2" by (rule evolves_revoked [OF assms(1)])
  then show "m3 k \<noteq> None" using assms(2) unfolding evolves_def by blast
qed

lemma unrevoked_sel:
  "s_ID (unrevoked s) = s_ID s"
  "s_UserID (unrevoked s) = s_UserID s"
  "s_TenantID (unrevoked s) = s_TenantID s"
  "s_AuthTime (unrevoked s) = s_AuthTime s"
  "s_ExpiresAt (unrevoked s) = s_ExpiresAt s"
  "s_CreatedAt (unrevoked s) = s_CreatedAt s"
  "s_RefreshToken (unrevoked s) = s_RefreshToken s"
  "s_AccessToken (unrevoked s) = s_AccessToken s"
  "s_RefreshTokenHash (unrevoked s) = s_RefreshTokenHash s"
  by (simp_all add: unrevoked_def)

lemma unrevoked_fields:
  assumes "unrevoked s' = unrevoked s"
  shows "s_ID s' = s_ID s"
    "s_UserID s' = s_UserID s"
    "s_TenantID s' = s_TenantID s"
    "s_AuthTime s' = s_AuthTime s"
    "s_ExpiresAt s' = s_ExpiresAt s"
    "s_CreatedAt s' = s_CreatedAt s"
    "s_RefreshToken s' = s_RefreshToken s"
    "s_AccessToken s' = s_AccessToken s"
    "s_RefreshTokenHash s' = s_RefreshTokenHash s"
  using assms unrevoked_sel by metis+

section \<open>The contract\<close>

locale session_store =
  fixes port :: "'s session_port" and at :: "'s \<Rightarrow> string \<rightharpoonup> session"
  assumes save: "sp_Save port s ss = (e, ss') \<Longrightarrow> at ss' = at ss \<or> at ss' = (at ss)(s_ID s \<mapsto> stored s)"
    and get: "sp_Get port now sid ss = (r, ss') \<Longrightarrow> evolves (at ss) (at ss')"
    and got: "sp_Get port now sid ss = (Inr (Some s), ss') \<Longrightarrow> at ss sid = Some s \<and> at ss' = at ss"
    and get_revoked: "at ss sid = Some s \<Longrightarrow> s_Revoked s \<Longrightarrow> \<exists>ss'. sp_Get port now sid ss = (Inr (Some s), ss')"
    and revoke: "sp_Revoke port now sid ss = (e, ss') \<Longrightarrow> evolves (at ss) (at ss')"
    and revoke_done: "sp_Revoke port now sid ss = (None, ss') \<Longrightarrow> \<exists>s. at ss' sid = Some s \<and> s_Revoked s"
    and revoke_all: "sp_RevokeAllForUser port now u ss = (e, ss') \<Longrightarrow> evolves (at ss) (at ss')"
    and revoke_all_done: "sp_RevokeAllForUser port now u ss = (None, ss') \<Longrightarrow> at ss' k = Some s \<Longrightarrow> s_UserID s = u \<Longrightarrow> s_Revoked s"
    and if_active: "sp_RevokeIfActive port = Some f \<Longrightarrow> f now sid ss = (b, ss') \<Longrightarrow> evolves (at ss) (at ss')"
    and if_active_done: "sp_RevokeIfActive port = Some f \<Longrightarrow> f now sid ss = (Inr True, ss') \<Longrightarrow> \<exists>s. at ss' sid = Some s \<and> s_Revoked s"
    and if_active_lost: "sp_RevokeIfActive port = Some f \<Longrightarrow> at ss sid = Some s \<Longrightarrow> s_Revoked s \<Longrightarrow>
      \<exists>ss'. f now sid ss = (Inr False, ss')"

lemma revoke_session_simps [simp]:
  "unrevoked (revoke_session now who s) = unrevoked s" "s_Revoked (revoke_session now who s)"
  "s_UserID (revoke_session now who s) = s_UserID s"
  by (simp_all add: revoke_session_def unrevoked_def)

lemma mem_port_simps [simp]:
  "sp_Save mem_port = mem_Save" "sp_Get mem_port = mem_Get" "sp_Revoke mem_port = mem_Revoke"
  "sp_RevokeAllForUser mem_port = mem_RevokeAllForUser" "sp_RevokeIfActive mem_port = Some mem_RevokeIfActive"
  "sp_RevokedBefore mem_port = Some mem_RevokedBefore"
  by (simp_all add: mem_port_def)

lemma evolves_drop: "(\<And>s. m k = Some s \<Longrightarrow> \<not> s_Revoked s) \<Longrightarrow> evolves m (m(k := None))"
  by (simp add: evolves_def)

lemma evolves_revoke: "m k = Some s \<Longrightarrow> evolves m (m(k \<mapsto> revoke_session now who s))"
  by (simp add: evolves_def)

lemma evolves_map:
  assumes "\<And>s. unrevoked (f s) = unrevoked s" "\<And>s. s_Revoked s \<Longrightarrow> s_Revoked (f s)"
  shows "evolves m (\<lambda>k. map_option f (m k))"
  using assms by (auto simp: evolves_def)

lemma mem_Get_evolves: "evolves (ms_sessions p) (ms_sessions (snd (mem_Get now sid p)))"
  by (cases "ms_sessions p sid") (auto simp: mem_Get_def intro!: evolves_drop)

lemma mem_Revoke_evolves: "evolves (ms_sessions p) (ms_sessions (snd (mem_Revoke now sid p)))"
  by (cases "ms_sessions p sid") (simp_all add: mem_Revoke_def evolves_revoke)

lemma mem_RevokeIfActive_evolves: "evolves (ms_sessions p) (ms_sessions (snd (mem_RevokeIfActive now sid p)))"
  by (cases "ms_sessions p sid") (simp_all add: mem_RevokeIfActive_def evolves_revoke)

lemma mem_RevokeAll_evolves: "evolves (ms_sessions p) (ms_sessions (snd (mem_RevokeAllForUser now u p)))"
  by (simp add: mem_RevokeAllForUser_def) (rule evolves_map, simp_all)

lemma mem_RevokeAll_revokes:
  assumes "ms_sessions (snd (mem_RevokeAllForUser now u p)) k = Some s" "s_UserID s = u"
  shows "s_Revoked s"
proof -
  let ?f = "\<lambda>s. if s_UserID s = u \<and> \<not> s_Revoked s then revoke_session now ''system'' s else s"
  have "map_option ?f (ms_sessions p k) = Some s" using assms(1) by (cases p) (simp add: mem_RevokeAllForUser_def del: map_option_eq_Some)
  then obtain s0 where "s = ?f s0" by blast
  then show ?thesis using assms(2) by (cases "s_UserID s0 = u \<and> \<not> s_Revoked s0") auto
qed

lemma mem_Revoke_revokes:
  assumes "mem_Revoke now sid p = (None, p')"
  shows "\<exists>s. ms_sessions p' sid = Some s \<and> s_Revoked s"
proof (cases "ms_sessions p sid")
  case None
  then show ?thesis using assms by (simp add: mem_Revoke_def)
next
  case (Some s)
  then have "p' = p\<lparr>ms_sessions := (ms_sessions p)(sid \<mapsto> revoke_session now ''user'' s)\<rparr>"
    using assms by (simp add: mem_Revoke_def)
  then show ?thesis by (intro exI [of _ "revoke_session now ''user'' s"]) simp
qed

interpretation mem_store: session_store mem_port ms_sessions
proof (unfold_locales, goal_cases)
  case (1 s ss e ss')
  then show ?case by (auto simp: mem_Save_def stored_def)
next
  case (2 now sid ss r ss')
  then show ?case using mem_Get_evolves [of ss now sid] by simp
next
  case (3 now sid ss s ss')
  then show ?case by (cases "ms_sessions ss sid") (simp_all add: mem_Get_def split: if_splits)
next
  case (4 ss sid s now)
  then show ?case by (simp add: mem_Get_def)
next
  case (5 now sid ss e ss')
  then show ?case using mem_Revoke_evolves [of ss now sid] by simp
next
  case (6 now sid ss ss')
  then show ?case using mem_Revoke_revokes by simp
next
  case (7 now u ss e ss')
  then show ?case using mem_RevokeAll_evolves [of ss now u] by simp
next
  case (8 now u ss ss' k s)
  then show ?case using mem_RevokeAll_revokes [where p = ss and now = now and u = u and k = k and s = s] by simp
next
  case (9 f now sid ss b ss')
  then show ?case using mem_RevokeIfActive_evolves [of ss now sid] by simp
next
  case (10 f now sid ss ss')
  then show ?case by (cases "ms_sessions ss sid") (auto simp: mem_RevokeIfActive_def split: if_splits)
next
  case (11 f ss sid s now)
  then show ?case by (auto simp: mem_RevokeIfActive_def)
qed

section \<open>What the operations do to the store\<close>

definition max_life :: "auth_config \<Rightarrow> int" where
  "max_life c = (if ac_sessionMaxLifetime c \<le> 0 then ac_refreshTokenTTL c else ac_sessionMaxLifetime c)"

lemma sessionExpiry_bounds:
  "sessionExpiry c now authTime \<le> authTime + max_life c" "sessionExpiry c now authTime \<le> now + ac_refreshTokenTTL c"
  by (simp_all add: sessionExpiry_def max_life_def Let_def)

text \<open>One operation revokes or drops sessions, then may save one new session under one of the given ids.\<close>

definition changes :: "auth_config \<Rightarrow> string set \<Rightarrow> (string \<rightharpoonup> session) \<Rightarrow> (string \<rightharpoonup> session) \<Rightarrow> bool" where
  "changes c sids m m' \<longleftrightarrow>
     (\<exists>m1. evolves m m1 \<and>
        (m' = m1 \<or> (\<exists>n t. m' = m1(s_ID n \<mapsto> stored n) \<and> s_ID n \<in> sids \<and> s_AuthTime n = Some t \<and>
           s_ExpiresAt n \<le> t + max_life c)))"

lemma evolves_changes: "evolves m m' \<Longrightarrow> changes c sids m m'"
  by (auto simp: changes_def)

lemma changes_after: "evolves m1 m2 \<Longrightarrow> changes c sids m2 m3 \<Longrightarrow> changes c sids m1 m3"
  unfolding changes_def using evolves_trans by blast

lemma emit_sessions [simp]: "is_sessions (emit e st) = is_sessions st" "is_tickets (emit e st) = is_tickets st"
    "is_throttle (emit e st) = is_throttle st"
  by (simp_all add: emit_def)

lemma report_sessions [simp]:
  "is_sessions (suspicious s r e st) = is_sessions st" "is_tickets (suspicious s r e st) = is_tickets st"
  "is_sessions (denied p i x st) = is_sessions st" "is_tickets (denied p i x st) = is_tickets st"
  by (simp_all add: suspicious_def denied_def)

lemma consumeTicket_sessions: "is_sessions (snd (consumeTicket i t at now st)) = is_sessions st"
  by (simp add: consumeTicket_def split: option.split prod.split)

lemma issue_cases:
  assumes "issue i sid secret seed roles now st = (r, st')"
  obtains "st' = st" "\<exists>e. r = Inl e"
  | access random e ss where "secret = Inr random"
    "sp_Save (si_session i) (session_of i seed sid access (buildRefreshToken sid random) now) (is_sessions st) = (e, ss)"
    "st' = st\<lparr>is_sessions := ss\<rparr>"
    "r = (case e of Some e \<Rightarrow> Inl e | None \<Rightarrow> Inr (session_of i seed sid access (buildRefreshToken sid random) now))"
proof -
  obtain c where eq: "issue i sid secret seed roles now st =
     (case IssueAccessToken (si_token i) c of
        Inl e \<Rightarrow> (Err e, st)
      | Inr access \<Rightarrow>
          (case secret of
             Inl e \<Rightarrow> (Err e, st)
           | Inr random \<Rightarrow>
               (let s = session_of i seed sid access (buildRefreshToken sid random) now
                in case sp_Save (si_session i) s (is_sessions st) of
                     (e, ss) \<Rightarrow> (case e of Some e \<Rightarrow> Err e | None \<Rightarrow> Ok s, st\<lparr>is_sessions := ss\<rparr>))))"
    unfolding issue_def by blast
  show ?thesis
  proof (cases "IssueAccessToken (si_token i) c")
    case (Inl e)
    then show ?thesis using that(1) eq assms by auto
  next
    case access: (Inr access)
    show ?thesis
    proof (cases secret)
      case (Inl e)
      then show ?thesis using that(1) eq assms access by auto
    next
      case (Inr random)
      let ?n = "session_of i seed sid access (buildRefreshToken sid random) now"
      obtain e ss where sv: "sp_Save (si_session i) ?n (is_sessions st) = (e, ss)" by (rule prod.exhaust)
      then show ?thesis using that(2) [OF Inr sv] eq assms access Inr by (simp add: Let_def)
    qed
  qed
qed

context session_store
begin

lemma save_changes:
  assumes "sp_Save port n ss = (e, ss')" "s_ID n = sid" "s_AuthTime n = Some t" "s_ExpiresAt n \<le> t + max_life c"
  shows "changes c {sid} (at ss) (at ss')"
  using save [OF assms(1)]
proof
  assume "at ss' = at ss"
  then show ?thesis by (simp add: evolves_changes)
next
  assume m: "at ss' = (at ss)(s_ID n \<mapsto> stored n)"
  show ?thesis
    unfolding changes_def
    by (rule exI [of _ "at ss"], rule conjI [OF evolves_refl], rule disjI2, rule exI [of _ n], rule exI [of _ t])
      (use assms m in simp)
qed

lemma issue_changes:
  assumes "si_session i = port" "s_AuthTime seed = Some t" "issue i sid secret seed roles now st = (r, st')"
  shows "changes (si_cfg i) {sid} (at (is_sessions st)) (at (is_sessions st'))"
proof -
  have fields: "s_ID (session_of i seed sid access tok now) = sid" "s_AuthTime (session_of i seed sid access tok now) = Some t"
    "s_ExpiresAt (session_of i seed sid access tok now) \<le> t + max_life (si_cfg i)" for access tok
    using assms(2) sessionExpiry_bounds(1) by (simp_all add: session_of_def time_value_def)
  from issue_cases [OF assms(3)] show ?thesis
  proof cases
    case 1
    then show ?thesis by (simp add: evolves_changes)
  next
    case 2
    then show ?thesis using save_changes [OF _ fields] assms(1) by simp
  qed
qed

lemma open_session_changes:
  assumes "si_session i = port"
  shows "changes (si_cfg i) {sid} (at (is_sessions st)) (at (is_sessions (snd (open_session i ts p now sid secret input st))))"
proof (cases "ListUserTenants ts (sel_UserID input)")
  case (Inl e)
  then show ?thesis by (simp add: open_session_def evolves_changes)
next
  case tenants: (Inr l)
  show ?thesis
  proof (cases "select_auth_time (si_cfg i) (sel_AuthTime input) now")
    case (Inl e)
    then show ?thesis using tenants by (simp add: open_session_def evolves_changes)
  next
    case (Inr t)
    obtain r st1 where iss: "issue i sid secret (tenant_seed p input t) (rolesForTenant l (sel_TenantID input)) now st = (r, st1)"
      by (rule prod.exhaust)
    have "is_sessions (snd (open_session i ts p now sid secret input st)) = is_sessions st1"
      using tenants Inr iss by (simp add: open_session_def split: sum.split)
    then show ?thesis using issue_changes [OF assms _ iss, of t] by (simp add: tenant_seed_def)
  qed
qed

lemma selectTenant_changes:
  assumes "si_session i = port"
  shows "changes (si_cfg i) {sid} (at (is_sessions st)) (at (is_sessions (snd (selectTenant i p clock sid secret input st))))"
    (is "changes _ _ _ (at (is_sessions (snd ?r)))")
proof (cases "si_tenant i")
  case None
  then show ?thesis by (simp add: selectTenant_def evolves_changes)
next
  case ts: (Some ts)
  show ?thesis
  proof (cases "checkTenantTicket (si_cfg i) (sel_Ticket input) p (sel_UserID input) (clock 0)")
    case (Inl e)
    then show ?thesis using ts by (simp add: selectTenant_def evolves_changes)
  next
    case ticket: (Inr t)
    obtain e st1 where c: "consumeTicket i t (clock 1) (clock 2) st = (e, st1)" by (rule prod.exhaust)
    then have st1: "is_sessions st1 = is_sessions st" using consumeTicket_sessions [of i t "clock 1" "clock 2" st] by simp
    show ?thesis
    proof (cases "AssertAccess ts (sel_UserID input) (sel_TenantID input) (sel_Module input)")
      case (Some e)
      then show ?thesis using ts ticket by (simp add: selectTenant_def evolves_changes)
    next
      case access: None
      show ?thesis
        using open_session_changes [OF assms, of sid st1 ts p "clock 3" secret input] st1 ts ticket access c
        by (cases e) (simp_all add: selectTenant_def evolves_changes)
    qed
  qed
qed

lemma refreshable_evolves:
  assumes "si_session (la_issuer a) = port"
  shows "evolves (at (is_sessions st)) (at (is_sessions (snd (refreshable a clock token st))))"
proof (cases "parseRefreshToken token")
  case None
  then show ?thesis by (simp add: refreshable_def)
next
  case sid: (Some sid)
  obtain r ss where g: "sp_Get port (clock 0) sid (is_sessions st) = (r, ss)" by (rule prod.exhaust)
  note got_ev = get [OF g]
  show ?thesis
  proof (cases "found r")
    case (Inl e)
    then show ?thesis using got_ev sid g assms by (simp add: refreshable_def Let_def)
  next
    case s: (Inr s)
    obtain e ss2 where r: "sp_RevokeAllForUser port (clock 1) (s_UserID s) ss = (e, ss2)" by (rule prod.exhaust)
    have ev: "evolves (at (is_sessions st)) (at ss2)" by (rule evolves_trans [OF got_ev revoke_all [OF r]])
    show ?thesis
    proof (cases "tokenHashMatches (la_issuer a) token (s_RefreshTokenHash s) \<and> s_Revoked s")
      case True
      then show ?thesis using ev sid g s r assms by (simp add: refreshable_def Let_def revokeAllOnReuse_def)
    next
      case False
      then show ?thesis using got_ev sid g s assms by (simp add: refreshable_def Let_def split: option.split)
    qed
  qed
qed

lemma refreshable_Ok:
  assumes "si_session (la_issuer a) = port" "refreshable a clock token st = (Inr s, st')"
  obtains sid where "parseRefreshToken token = Some sid" "at (is_sessions st) sid = Some s"
    "at (is_sessions st') = at (is_sessions st)" "tokenHashMatches (la_issuer a) token (s_RefreshTokenHash s)"
    "\<not> s_Revoked s" "clock 1 \<le> s_ExpiresAt s"
    "clock 1 < sessionExpiry (si_cfg (la_issuer a)) (clock 1) (sessionAuthTime s)"
proof (cases "parseRefreshToken token")
  case None
  then show ?thesis using assms(2) by (simp add: refreshable_def)
next
  case sid: (Some sid)
  obtain r ss where g: "sp_Get port (clock 0) sid (is_sessions st) = (r, ss)" by (rule prod.exhaust)
  show ?thesis
  proof (cases "found r")
    case (Inl e)
    then show ?thesis using assms sid g by (simp add: refreshable_def Let_def)
  next
    case s1: (Inr s1)
    then have r: "r = Inr (Some s1)" by (simp add: found_def split: sum.splits option.splits)
    note at = got [OF g [unfolded r]]
    have "s1 = s \<and> st' = st\<lparr>is_sessions := ss\<rparr> \<and> tokenHashMatches (la_issuer a) token (s_RefreshTokenHash s1) \<and>
       \<not> s_Revoked s1 \<and> clock 1 \<le> s_ExpiresAt s1 \<and>
       clock 1 < sessionExpiry (si_cfg (la_issuer a)) (clock 1) (sessionAuthTime s1)"
      using assms sid g s1
      by (simp add: refreshable_def Let_def split_beta split: if_splits option.splits)
    then show ?thesis using that [OF sid] at by auto
  qed
qed

lemma revalidate_evolves:
  assumes "si_session (la_issuer a) = port"
  shows "evolves (at (is_sessions st)) (at (is_sessions (snd (revalidate a us ts now s st))))"
proof -
  obtain e ss where r: "sp_Revoke port now (s_ID s) (is_sessions st) = (e, ss)" by (rule prod.exhaust)
  show ?thesis
    using revoke [OF r] r assms by (simp add: revalidate_def Let_def split: sum.split option.split)
qed

lemma revokeForRotation_evolves:
  assumes "si_session (la_issuer a) = port"
  shows "evolves (at (is_sessions st)) (at (is_sessions (snd (revokeForRotation a now s st))))"
proof (cases "sp_RevokeIfActive port")
  case None
  obtain e ss where r: "sp_Revoke port now (s_ID s) (is_sessions st) = (e, ss)" by (rule prod.exhaust)
  then show ?thesis using revoke [OF r] None assms by (simp add: revokeForRotation_def Let_def)
next
  case (Some f)
  obtain b ss where r: "f now (s_ID s) (is_sessions st) = (b, ss)" by (rule prod.exhaust)
  then show ?thesis
    using if_active [OF Some r] Some assms by (simp add: revokeForRotation_def Let_def split: sum.split bool.split)
qed

lemma revokeForRotation_done:
  assumes "si_session (la_issuer a) = port" "revokeForRotation a now s st = (None, st')"
  shows "\<exists>s'. at (is_sessions st') (s_ID s) = Some s' \<and> s_Revoked s'"
proof (cases "sp_RevokeIfActive port")
  case None
  obtain e ss where r: "sp_Revoke port now (s_ID s) (is_sessions st) = (e, ss)" by (rule prod.exhaust)
  then have "e = None" "is_sessions st' = ss" using None assms by (auto simp: revokeForRotation_def Let_def)
  then show ?thesis using revoke_done r by simp
next
  case (Some f)
  obtain b ss where r: "f now (s_ID s) (is_sessions st) = (b, ss)" by (rule prod.exhaust)
  then have "b = Inr True" "is_sessions st' = ss"
    using Some assms by (auto simp: revokeForRotation_def Let_def split: sum.splits bool.splits)
  then show ?thesis using if_active_done [OF Some] r by simp
qed

lemma refresh_check_evolves:
  assumes "si_session (la_issuer a) = port"
  shows "evolves (at (is_sessions st)) (at (is_sessions (snd (refresh_check a us ts clock token st))))"
proof -
  obtain r st1 where f: "refreshable a clock token st = (r, st1)" by (rule prod.exhaust)
  have e1: "evolves (at (is_sessions st)) (at (is_sessions st1))" using refreshable_evolves [OF assms, of st clock token] f by simp
  show ?thesis
  proof (cases r)
    case (Inl e)
    then show ?thesis using f e1 by (simp add: refresh_check_def)
  next
    case (Inr s)
    obtain e st2 where v: "revalidate a us ts (clock 2) s st1 = (e, st2)" by (rule prod.exhaust)
    have e2: "evolves (at (is_sessions st)) (at (is_sessions st2))"
      using revalidate_evolves [OF assms, of st1 us ts "clock 2" s] v e1 evolves_trans by (metis snd_conv)
    then show ?thesis using f v Inr by (simp add: refresh_check_def split: option.split sum.split)
  qed
qed

lemma refresh_rotate_changes:
  assumes "si_session (la_issuer a) = port"
  shows "changes (si_cfg (la_issuer a)) {sid} (at (is_sessions st))
    (at (is_sessions (snd (refresh_rotate a clock sid secret s ts st))))"
proof -
  obtain e st1 where v: "revokeForRotation a (clock 3) s st = (e, st1)" by (rule prod.exhaust)
  have e1: "evolves (at (is_sessions st)) (at (is_sessions st1))"
    using revokeForRotation_evolves [OF assms, of st "clock 3" s] v by simp
  show ?thesis
  proof (cases e)
    case None
    obtain r st2 where iss: "issue (la_issuer a) sid secret (s\<lparr>s_AuthTime := Some (sessionAuthTime s)\<rparr>)
      (rolesForTenant ts (s_TenantID s)) (clock 4) st1 = (r, st2)" by (rule prod.exhaust)
    have "is_sessions (snd (refresh_rotate a clock sid secret s ts st)) = is_sessions st2"
      using v None iss by (simp add: refresh_rotate_def split: sum.split)
    then show ?thesis using changes_after [OF e1 issue_changes [OF assms _ iss]] by simp
  next
    case (Some x)
    then show ?thesis using v e1 by (simp add: refresh_rotate_def evolves_changes)
  qed
qed

lemma RefreshToken_changes:
  assumes "si_session (la_issuer a) = port"
  shows "changes (si_cfg (la_issuer a)) {sid} (at (is_sessions st))
    (at (is_sessions (snd (RefreshToken a clock sid secret token st))))"
proof (cases "\<exists>us ts. la_user a = Some us \<and> si_tenant (la_issuer a) = Some ts")
  case True
  then obtain us ts where ports: "la_user a = Some us" "si_tenant (la_issuer a) = Some ts" by blast
  obtain r st1 where c: "refresh_check a us ts clock token st = (r, st1)" by (rule prod.exhaust)
  have e1: "evolves (at (is_sessions st)) (at (is_sessions st1))"
    using refresh_check_evolves [OF assms, of st us ts clock token] c by simp
  show ?thesis
    using e1 changes_after [OF e1 refresh_rotate_changes [OF assms]] c ports
    by (cases r) (simp_all add: RefreshToken_def evolves_changes split: prod.split)
next
  case False
  then have "snd (RefreshToken a clock sid secret token st) = st"
    by (cases "la_user a"; cases "si_tenant (la_issuer a)") (simp_all add: RefreshToken_def)
  then show ?thesis by (simp add: evolves_changes)
qed

lemma checkSession_evolves:
  assumes "si_session (la_issuer a) = port"
  shows "evolves (at (is_sessions st)) (at (is_sessions (snd (checkSession a clock c st))))"
proof -
  obtain r ss where g: "sp_Get port (clock 0) (cl_SessionID c) (is_sessions st) = (r, ss)" by (rule prod.exhaust)
  show ?thesis using get [OF g] g assms by (simp add: checkSession_def Let_def split: sum.split)
qed

lemma ValidateToken_evolves:
  assumes "si_session (la_issuer a) = port"
  shows "evolves (at (is_sessions st)) (at (is_sessions (snd (ValidateToken a clock token st))))"
proof (cases "ParseToken (si_token (la_issuer a)) token")
  case (Inl e)
  then show ?thesis by (simp add: ValidateToken_def)
next
  case (Inr c)
  obtain e st1 where k: "checkSession a clock c st = (e, st1)" by (rule prod.exhaust)
  show ?thesis
    using checkSession_evolves [OF assms, of st clock c] k Inr by (cases e) (simp_all add: ValidateToken_def)
qed

lemma ValidateToken_Ok:
  assumes "si_session (la_issuer a) = port" "ValidateToken a clock token st = (Inr c, st')"
  obtains s where "ParseToken (si_token (la_issuer a)) token = Inr c" "at (is_sessions st) (cl_SessionID c) = Some s"
    "s_UserID s = cl_UserID c" "s_TenantID s = cl_TenantID c" "\<not> s_Revoked s" "clock 1 \<le> s_ExpiresAt s"
    "checkUserCutoff (la_issuer a) s (is_sessions st') = None"
proof (cases "ParseToken (si_token (la_issuer a)) token")
  case (Inl e)
  then show ?thesis using assms(2) by (simp add: ValidateToken_def)
next
  case (Inr c1)
  obtain e st1 where k: "checkSession a clock c1 st = (e, st1)" by (rule prod.exhaust)
  then have c1: "c1 = c" "e = None" "is_sessions st' = is_sessions st1"
    using assms(2) Inr by (auto simp: ValidateToken_def split: option.splits)
  obtain r ss where g: "sp_Get port (clock 0) (cl_SessionID c) (is_sessions st) = (r, ss)" by (rule prod.exhaust)
  show ?thesis
  proof (cases "found r")
    case (Inl x)
    then show ?thesis using k g c1 assms(1) by (simp add: checkSession_def Let_def)
  next
    case (Inr s)
    then have r: "r = Inr (Some s)" by (simp add: found_def split: sum.splits option.splits)
    show ?thesis
      by (rule that [of s])
        (use k g c1 assms(1) Inr got [OF g [unfolded r]] \<open>ParseToken _ token = Inr c1\<close> in
          \<open>auto simp: checkSession_def Let_def split: if_splits\<close>)
  qed
qed

lemma Logout_evolves:
  assumes "si_session (la_issuer a) = port"
  shows "evolves (at (is_sessions st)) (at (is_sessions (snd (Logout a now sid st))))"
proof -
  obtain e ss where r: "sp_Revoke port now sid (is_sessions st) = (e, ss)" by (rule prod.exhaust)
  then show ?thesis using revoke [OF r] assms by (simp add: Logout_def split: option.split)
qed

lemma LogoutAll_evolves: "evolves (at (is_sessions st)) (at (is_sessions (snd (LogoutAll port now u st))))"
proof -
  obtain e ss where r: "sp_RevokeAllForUser port now u (is_sessions st) = (e, ss)" by (rule prod.exhaust)
  then show ?thesis using revoke_all [OF r] by (simp add: LogoutAll_def split: option.split)
qed

text \<open>The genuine token of a revoked session revokes every session of its user.\<close>

lemma replayed_token:
  assumes "si_session (la_issuer a) = port" "la_user a = Some us" "si_tenant (la_issuer a) = Some ts"
    and "parseRefreshToken token = Some sid" "at (is_sessions st) sid = Some s" "s_Revoked s"
    and "si_hash (la_issuer a) token = s_RefreshTokenHash s" "RefreshToken a clock n secret token st = (r, st')"
  shows "(r = Inl ErrSessionRevoked \<and> (\<forall>k s'. at (is_sessions st') k = Some s' \<longrightarrow> s_UserID s' = s_UserID s \<longrightarrow> s_Revoked s')) \<or>
    (\<exists>e. r = Inl (Both ErrSessionRevoked e))"
proof -
  obtain ss where g: "sp_Get port (clock 0) sid (is_sessions st) = (Inr (Some s), ss)"
    using get_revoked [OF assms(5,6), of "clock 0"] by blast
  obtain e ss2 where ra: "sp_RevokeAllForUser port (clock 1) (s_UserID s) ss = (e, ss2)" by (rule prod.exhaust)
  have "refreshable a clock token st =
      (Inl (case e of None \<Rightarrow> ErrSessionRevoked | Some e \<Rightarrow> Both ErrSessionRevoked e),
       suspicious s ''refresh_token_reuse'' e (st\<lparr>is_sessions := ss2\<rparr>))"
    using assms(1,4,6,7) g ra by (simp add: refreshable_def Let_def found_def tokenHashMatches_def revokeAllOnReuse_def)
  then have "r = Inl (case e of None \<Rightarrow> ErrSessionRevoked | Some e \<Rightarrow> Both ErrSessionRevoked e)" "is_sessions st' = ss2"
    using assms(2,3,8) by (auto simp: RefreshToken_def refresh_check_def)
  then show ?thesis using revoke_all_done [of "clock 1" "s_UserID s" ss ss2] ra by (cases e) auto
qed

end

end
