(* ===== verification/Iam_Throttle.thy ===== *)
theory Iam_Throttle
  imports Iam_Store
begin

text \<open>
  What the in-memory login throttler promises: over any sequence of failing attempts, the attempts it
  admits for one email or one address in any interval no longer than the window and the lockout are at
  most the configured limit.
\<close>

section \<open>One key of the throttler\<close>

definition failures_of :: "throttler \<Rightarrow> string \<Rightarrow> time list" where
  "failures_of t k = (case map_of (tr_failures t) k of None \<Rightarrow> [] | Some ts \<Rightarrow> ts)"

definition throttle_ok :: "throttler \<Rightarrow> bool" where
  "throttle_ok t \<longleftrightarrow> distinct (map fst (tr_failures t)) \<and> distinct (map fst (tr_locked t))"

lemma map_of_filter_distinct:
  "distinct (map fst xs) \<Longrightarrow>
   map_of (filter P xs) k = (case map_of xs k of None \<Rightarrow> None | Some v \<Rightarrow> if P (k, v) then Some v else None)"
proof (induction xs)
  case (Cons x xs)
  then have "fst x = k \<Longrightarrow> map_of xs k = None" by (auto simp: map_of_eq_None_iff)
  then show ?case using Cons by (cases x) auto
qed simp

lemma throttle_recent_failures: "throttle_recent t k now = filter (\<lambda>at. now - th_Window (tr_cfg t) < at) (failures_of t k)"
  by (simp add: throttle_recent_def failures_of_def)

lemma count_cfg [simp]: "tr_cfg (throttle_count now kl t) = tr_cfg t"
  by (simp add: throttle_count_def Let_def split_beta)

lemma sweep_cfg [simp]: "tr_cfg (throttle_sweep now t) = tr_cfg t"
  by (simp add: throttle_sweep_def)

lemma count_ok: "throttle_ok t \<Longrightarrow> throttle_ok (throttle_count now kl t)"
  by (simp add: throttle_ok_def throttle_count_def Let_def split_beta distinct_update distinct_delete)

lemma sweep_ok: "throttle_ok t \<Longrightarrow> throttle_ok (throttle_sweep now t)"
  by (simp add: throttle_ok_def throttle_sweep_def distinct_map_filter)

lemma count_other:
  "fst kl \<noteq> k \<Longrightarrow> failures_of (throttle_count now kl t) k = failures_of t k"
  "fst kl \<noteq> k \<Longrightarrow> map_of (tr_locked (throttle_count now kl t)) k = map_of (tr_locked t) k"
  by (simp_all add: throttle_count_def Let_def split_beta failures_of_def update_conv' delete_conv')

lemma count_same:
  "failures_of (throttle_count now (k, l) t) k =
     (let recent = throttle_recent t k now @ [now] in if l \<le> int (length recent) then [] else recent)"
  "map_of (tr_locked (throttle_count now (k, l) t)) k =
     (if l \<le> int (length (throttle_recent t k now @ [now])) then Some (now + th_Lockout (tr_cfg t))
      else map_of (tr_locked t) k)"
  by (simp_all add: throttle_count_def Let_def failures_of_def update_conv' delete_conv')

lemma sweep_key:
  assumes "throttle_ok t"
  shows "failures_of (throttle_sweep now t) k = failures_of t k \<or>
      failures_of (throttle_sweep now t) k = [] \<and> throttle_recent t k now = []"
    and "map_of (tr_locked t) k = Some till \<Longrightarrow> now < till \<Longrightarrow> map_of (tr_locked (throttle_sweep now t)) k = Some till"
  using assms
  by (auto simp: throttle_sweep_def throttle_ok_def failures_of_def map_of_filter_distinct split: option.splits)

lemma sweep_recent: "throttle_ok t \<Longrightarrow> throttle_recent (throttle_sweep now t) k now = throttle_recent t k now"
  using sweep_key(1) [of t now k] by (auto simp: throttle_recent_failures)

section \<open>A failing attempt, seen from one key\<close>

lemma keys_distinct: "distinct (map fst (throttle_keys cfg a))"
  by (simp add: throttle_keys_def)

lemma fold_count_other:
  "k \<notin> fst ` set kls \<Longrightarrow>
   failures_of (foldl (\<lambda>t kl. throttle_count now kl t) t kls) k = failures_of t k \<and>
   map_of (tr_locked (foldl (\<lambda>t kl. throttle_count now kl t) t kls)) k = map_of (tr_locked t) k"
  by (induction kls arbitrary: t) (auto simp: count_other)

lemma fold_count_cfg: "tr_cfg (foldl (\<lambda>t kl. throttle_count now kl t) t kls) = tr_cfg t"
  by (induction kls arbitrary: t) simp_all

lemma fold_count_ok: "throttle_ok t \<Longrightarrow> throttle_ok (foldl (\<lambda>t kl. throttle_count now kl t) t kls)"
  by (induction kls arbitrary: t) (simp_all add: count_ok)

lemma Failure_cfg [simp]: "tr_cfg (throttle_Failure now a t) = tr_cfg t"
  by (simp add: throttle_Failure_def Let_def fold_count_cfg)

lemma Failure_ok: "throttle_ok t \<Longrightarrow> throttle_ok (throttle_Failure now a t)"
  by (simp add: throttle_Failure_def Let_def fold_count_ok sweep_ok)

lemma Failure_other:
  assumes "k \<notin> fst ` set (throttle_keys (tr_cfg t) a)"
  shows "failures_of (throttle_Failure now a t) k = failures_of (throttle_sweep now t) k"
    "map_of (tr_locked (throttle_Failure now a t)) k = map_of (tr_locked (throttle_sweep now t)) k"
  using fold_count_other [OF assms] by (simp_all add: throttle_Failure_def Let_def)

lemma fold_count_key:
  assumes "(k, l) \<in> set kls" "distinct (map fst kls)"
  shows "failures_of (foldl (\<lambda>t kl. throttle_count now kl t) t kls) k = failures_of (throttle_count now (k, l) t) k"
    "map_of (tr_locked (foldl (\<lambda>t kl. throttle_count now kl t) t kls)) k =
       map_of (tr_locked (throttle_count now (k, l) t)) k"
proof -
  let ?f = "foldl (\<lambda>t kl. throttle_count now kl t)"
  obtain xs ys where kls: "kls = xs @ (k, l) # ys" using assms(1) by (auto simp: in_set_conv_decomp)
  then have no: "k \<notin> fst ` set xs" "k \<notin> fst ` set ys" using assms(2) by (auto simp: image_iff)
  have pre: "failures_of (?f t xs) k = failures_of t k" "map_of (tr_locked (?f t xs)) k = map_of (tr_locked t) k"
    using fold_count_other [OF no(1)] by auto
  then have r: "throttle_recent (?f t xs) k now = throttle_recent t k now"
    by (simp add: throttle_recent_failures fold_count_cfg)
  show "failures_of (?f t kls) k = failures_of (throttle_count now (k, l) t) k"
    "map_of (tr_locked (?f t kls)) k = map_of (tr_locked (throttle_count now (k, l) t)) k"
    using fold_count_other [OF no(2)] by (simp_all add: kls count_same r pre fold_count_cfg)
qed

lemma Failure_key:
  assumes "(k, l) \<in> set (throttle_keys (tr_cfg t) a)" "throttle_ok t"
  shows "failures_of (throttle_Failure now a t) k =
      (let recent = throttle_recent t k now @ [now] in if l \<le> int (length recent) then [] else recent)"
    and "l \<le> int (length (throttle_recent t k now @ [now])) \<Longrightarrow>
      map_of (tr_locked (throttle_Failure now a t)) k = Some (now + th_Lockout (tr_cfg t))"
  using fold_count_key [OF _ keys_distinct, of k l "tr_cfg t" a now "throttle_sweep now t"] assms
  by (simp_all add: throttle_Failure_def Let_def count_same sweep_recent)

section \<open>The bound\<close>

text \<open>The failing attempts the throttler admits out of a sequence of attempts.\<close>

fun admitted :: "throttler \<Rightarrow> (time \<times> login_attempt) list \<Rightarrow> (time \<times> login_attempt) list" where
  "admitted t [] = []"
| "admitted t ((now, a) # es) =
     (if throttle_Allow now a t = None then (now, a) # admitted (throttle_Failure now a t) es else admitted t es)"

definition in_interval :: "throttle_config \<Rightarrow> string \<times> int \<Rightarrow> time \<Rightarrow> int \<Rightarrow> time \<times> login_attempt \<Rightarrow> bool" where
  "in_interval cfg kl x d e \<longleftrightarrow> kl \<in> set (throttle_keys cfg (snd e)) \<and> x \<le> fst e \<and> fst e < x + d"

lemma admitted_refused: "throttle_Allow now a t \<noteq> None \<Longrightarrow> admitted t ((now, a) # es) = admitted t es"
  by (simp only: admitted.simps if_False)

lemma admitted_subset: "set (admitted t es) \<subseteq> set es"
  by (induction t es rule: admitted.induct) auto

lemma late_none:
  assumes "\<And>e. e \<in> set es \<Longrightarrow> x + d \<le> fst e"
  shows "filter (in_interval cfg kl x d) (admitted t es) = []"
  using assms admitted_subset [of t es] by (fastforce simp: in_interval_def filter_empty_conv)

text \<open>A lockout that lasts beyond the interval admits nothing of the key in it.\<close>

lemma locked_none:
  assumes "throttle_ok t" "map_of (tr_locked t) k = Some till" "x + d \<le> till" "sorted (map fst es)"
  shows "filter (in_interval (tr_cfg t) (k, l) x d) (admitted t es) = []"
  using assms
proof (induction t es rule: admitted.induct)
  case (2 t now a es)
  show ?case
  proof (cases "x + d \<le> now")
    case True
    then show ?thesis using 2(6) by (intro late_none) auto
  next
    case False
    then have till: "now < till" using 2(5) by simp
    show ?thesis
    proof (cases "throttle_Allow now a t = None")
      case True
      then have no: "k \<notin> fst ` set (throttle_keys (tr_cfg t) a)"
        using 2(4) till by (auto simp: throttle_Allow_def list_ex_iff split: if_splits)
      have "filter (in_interval (tr_cfg t) (k, l) x d) (admitted (throttle_Failure now a t) es) = []"
        using 2(1) [OF True Failure_ok [OF 2(3)]] 2(4-6) Failure_other(2) [OF no] sweep_key(2) [OF 2(3,4) till] by simp
      moreover have "\<not> in_interval (tr_cfg t) (k, l) x d (now, a)" using no by (force simp: in_interval_def)
      ultimately show ?thesis using True by simp
    next
      case False
      then show ?thesis unfolding admitted_refused [OF False] using 2(2) [OF False 2(3-5)] 2(6) by simp
    qed
  qed
qed simp

lemma keys_limit:
  assumes "(k, l) \<in> set (throttle_keys cfg a)" "k \<in> fst ` set (throttle_keys cfg b)"
  shows "(k, l) \<in> set (throttle_keys cfg b)"
  using assms by (auto simp: throttle_keys_def split: if_splits)

lemma recent_from:
  assumes "now < x + d" "d \<le> th_Window (tr_cfg t)"
  shows "filter (\<lambda>at. x \<le> at) (throttle_recent t k now) = filter (\<lambda>at. x \<le> at) (failures_of t k)"
  using assms by (auto simp: throttle_recent_failures intro!: filter_cong)

text \<open>The failures a key still remembers inside the interval count against its limit.\<close>

definition spent :: "throttler \<Rightarrow> string \<Rightarrow> time \<Rightarrow> nat" where
  "spent t k x = length (filter (\<lambda>at. x \<le> at) (failures_of t k))"

lemma spent_le: "spent t k x \<le> length (failures_of t k)"
  by (simp add: spent_def)

lemma Failure_other_spent:
  assumes "throttle_ok t" "k \<notin> fst ` set (throttle_keys (tr_cfg t) a)" "now < x + d" "d \<le> th_Window (tr_cfg t)"
  shows "spent (throttle_Failure now a t) k x = spent t k x"
    "length (failures_of (throttle_Failure now a t) k) \<le> length (failures_of t k)"
    "set (failures_of (throttle_Failure now a t) k) \<subseteq> set (failures_of t k)"
  using sweep_key(1) [OF assms(1), of now k] recent_from [OF assms(3,4), of k]
  by (auto simp: spent_def Failure_other [OF assms(2)])

lemma Failure_key_cases:
  assumes "(k, l) \<in> set (throttle_keys (tr_cfg t) a)" "throttle_ok t" "now < x + d" "d \<le> th_Window (tr_cfg t)"
  obtains (locks) "failures_of (throttle_Failure now a t) k = []"
      "map_of (tr_locked (throttle_Failure now a t)) k = Some (now + th_Lockout (tr_cfg t))"
  | (counts) "int (length (failures_of (throttle_Failure now a t) k)) < l"
      "set (failures_of (throttle_Failure now a t) k) \<subseteq> insert now (set (failures_of t k))"
      "spent (throttle_Failure now a t) k x = spent t k x + (if x \<le> now then 1 else 0)"
proof (cases "l \<le> int (length (throttle_recent t k now @ [now]))")
  case True
  then show ?thesis using locks Failure_key [OF assms(1,2)] by simp
next
  case False
  then have f: "failures_of (throttle_Failure now a t) k = throttle_recent t k now @ [now]"
    using Failure_key(1) [OF assms(1,2), of now] by (simp add: Let_def)
  show ?thesis
  proof (rule counts)
    show "spent (throttle_Failure now a t) k x = spent t k x + (if x \<le> now then 1 else 0)"
      using recent_from [OF assms(3,4), of k] by (simp add: f spent_def)
  qed (use False in \<open>auto simp: f throttle_recent_failures\<close>)
qed

lemma admitted_bound:
  assumes "throttle_ok t" "sorted (map fst es)" "\<And>e at. e \<in> set es \<Longrightarrow> at \<in> set (failures_of t k) \<Longrightarrow> at \<le> fst e"
    and "int (length (failures_of t k)) < l" "(k, l) \<in> set (throttle_keys (tr_cfg t) a0)"
    and "d \<le> th_Window (tr_cfg t)" "d \<le> th_Lockout (tr_cfg t)"
  shows "int (spent t k x + length (filter (in_interval (tr_cfg t) (k, l) x d) (admitted t es))) \<le> l"
  using assms
proof (induction t es rule: admitted.induct)
  case (1 t)
  then show ?case using spent_le [of t k x] by simp
next
  case (2 t now a es)
  note ok = 2(3) and small = 2(6) and lim = 2(7) and win = 2(8) and lock = 2(9)
  let ?in = "in_interval (tr_cfg t) (k, l) x d" and ?t = "throttle_Failure now a t"
  have later: "\<And>e. e \<in> set es \<Longrightarrow> now \<le> fst e" and srt: "sorted (map fst es)" using 2(4) by auto
  have old: "\<And>at. at \<in> set (failures_of t k) \<Longrightarrow> at \<le> now" using 2(5) [of "(now, a)"] by simp
  have IH: "int (spent ?t k x + length (filter ?in (admitted ?t es))) \<le> l"
    if "throttle_Allow now a t = None" "int (length (failures_of ?t k)) < l" and sub: "set (failures_of ?t k) \<subseteq> insert now (set (failures_of t k))"
  proof -
    have "at \<le> fst e" if "e \<in> set es" "at \<in> set (failures_of ?t k)" for e at
    proof -
      have "at = now \<or> at \<in> set (failures_of t k)" using that(2) sub by blast
      then have "at \<le> now" using old by blast
      then show ?thesis using later [OF that(1)] by simp
    qed
    then show ?thesis using 2(1) [OF that(1) Failure_ok [OF ok] srt] that(2) lim win lock by simp
  qed
  consider (late) "x + d \<le> now" | (refused) "now < x + d" "throttle_Allow now a t \<noteq> None"
    | (other) "now < x + d" "throttle_Allow now a t = None" "k \<notin> fst ` set (throttle_keys (tr_cfg t) a)"
    | (hit) "now < x + d" "throttle_Allow now a t = None" "k \<in> fst ` set (throttle_keys (tr_cfg t) a)"
    by linarith
  then show ?case
  proof cases
    case late
    then have "filter ?in (admitted t ((now, a) # es)) = []"
      using later by (intro late_none) (auto intro: order_trans)
    then show ?thesis using small spent_le [of t k x] by simp
  next
    case refused
    show ?thesis unfolding admitted_refused [OF refused(2)]
      by (rule 2(2) [OF refused(2) ok srt 2(5) small lim win lock]) simp_all
  next
    case other
    note sp = Failure_other_spent [OF ok other(3,1) win]
    have "\<not> ?in (now, a)" using other(3) by (force simp: in_interval_def)
    moreover have "int (spent ?t k x + length (filter ?in (admitted ?t es))) \<le> l"
      by (rule IH [OF other(2)]) (use sp small in auto)
    ultimately show ?thesis using other(2) sp(1) by simp
  next
    case hit
    have mem: "(k, l) \<in> set (throttle_keys (tr_cfg t) a)" by (rule keys_limit [OF lim hit(3)])
    then have inn: "?in (now, a) \<longleftrightarrow> x \<le> now" using hit(1) by (simp add: in_interval_def)
    show ?thesis
    proof (rule Failure_key_cases [OF mem ok hit(1) win])
      assume f: "failures_of ?t k = []" "map_of (tr_locked ?t) k = Some (now + th_Lockout (tr_cfg t))"
      show ?thesis
      proof (cases "x \<le> now")
        case True
        then have "filter (in_interval (tr_cfg ?t) (k, l) x d) (admitted ?t es) = []"
          using lock by (intro locked_none [OF Failure_ok [OF ok] f(2) _ srt]) simp
        then show ?thesis using True inn hit(2) small spent_le [of t k x] by simp
      next
        case False
        then have "spent t k x = 0" using old by (fastforce simp: spent_def filter_empty_conv)
        then show ?thesis using IH [OF hit(2)] False inn hit(2) f(1) small by (simp add: spent_def)
      qed
    next
      assume "int (length (failures_of ?t k)) < l" "set (failures_of ?t k) \<subseteq> insert now (set (failures_of t k))"
        and "spent ?t k x = spent t k x + (if x \<le> now then 1 else 0)"
      then show ?thesis using IH [OF hit(2)] inn hit(2) by (simp split: if_splits)
    qed
  qed
qed

text \<open>C5. Password guessing is bounded: out of any time-ordered sequence of failing attempts, however emails
  and addresses interleave, a new throttler admits for one key (an email with its limit, or an address with
  its limit) at most that many attempts in any interval no longer than the window and the lockout.\<close>

theorem guesses_bounded:
  assumes "sorted (map fst es)" "kl \<in> set (throttle_keys (withDefaults cfg) a)"
    and "d \<le> th_Window (withDefaults cfg)" "d \<le> th_Lockout (withDefaults cfg)"
  shows "int (length (filter (in_interval (withDefaults cfg) kl x d) (admitted (NewLoginThrottler cfg) es))) \<le> snd kl"
proof -
  let ?t = "NewLoginThrottler cfg"
  have t: "throttle_ok ?t" "failures_of ?t k = []" "tr_cfg ?t = withDefaults cfg" "spent ?t k x = 0" for k
    by (simp_all add: throttle_ok_def failures_of_def spent_def NewLoginThrottler_def)
  have "0 < snd kl" using assms(2) by (auto simp: throttle_keys_def withDefaults_def Let_def split: if_splits)
  then show ?thesis
    using admitted_bound [OF t(1) assms(1), of "fst kl" "snd kl" a d x] assms(2-4) by (simp add: t)
qed

definition sample_guesses :: "(time \<times> login_attempt) list" where
  "sample_guesses = map (\<lambda>n. (n, \<lparr>at_Email = ''ann'', at_IPAddress = []\<rparr>)) [1, 2, 3]"

definition sample_limits :: throttle_config where
  "sample_limits = \<lparr>th_MaxAttempts = 2, th_IPMaxAttempts = 9, th_Window = 100, th_Lockout = 100\<rparr>"

theorem guesses_bounded_witness:
  "int (length (filter (in_interval (withDefaults sample_limits) (''e:ann'', 2) 0 100)
     (admitted (NewLoginThrottler sample_limits) sample_guesses))) \<le> 2 \<and>
   map fst (admitted (NewLoginThrottler sample_limits) sample_guesses) = [1, 2]"
proof (rule conjI)
  show "int (length (filter (in_interval (withDefaults sample_limits) (''e:ann'', 2) 0 100)
     (admitted (NewLoginThrottler sample_limits) sample_guesses))) \<le> 2"
    using guesses_bounded [of sample_guesses "(''e:ann'', 2)" sample_limits "\<lparr>at_Email = ''ann'', at_IPAddress = []\<rparr>" 100 0]
    by (simp add: sample_guesses_def sample_limits_def throttle_keys_def withDefaults_def Let_def)
  show "map fst (admitted (NewLoginThrottler sample_limits) sample_guesses) = [1, 2]"
    by (simp add: sample_guesses_def sample_limits_def NewLoginThrottler_def throttle_Allow_def throttle_Failure_def
        throttle_sweep_def throttle_count_def throttle_recent_def throttle_keys_def withDefaults_def Let_def sweepAt_def)
qed

end
