(* ===== verification/Iam_Runs.thy ===== *)
theory Iam_Runs
  imports Iam_Sessions Iam_Throttle
begin

text \<open>
  Sequences of calls of the login service: the state they lead to, and what every sequence keeps of the
  stored sessions, from the contract of the session store.
\<close>

section \<open>Runs\<close>

datatype iam_call =
  CallAuthenticate "nat \<Rightarrow> time" string auth_input
| CallSelect string "nat \<Rightarrow> time" string "(iam_error, string) result" select_input
| CallRefresh "nat \<Rightarrow> time" string "(iam_error, string) result" string
| CallValidate "nat \<Rightarrow> time" string
| CallLogout time string
| CallLogoutAll time string

primrec iam_exec :: "text_env \<Rightarrow> ('s, 't, 'k) local_auth \<Rightarrow> iam_call \<Rightarrow> ('s, 't, 'k) iam_state \<Rightarrow> ('s, 't, 'k) iam_state" where
  "iam_exec tenv a (CallAuthenticate clock jti input) st = snd (Authenticate tenv a clock jti input st)"
| "iam_exec tenv a (CallSelect p clock sid secret input) st = snd (selectTenant (la_issuer a) p clock sid secret input st)"
| "iam_exec tenv a (CallRefresh clock sid secret token) st = snd (RefreshToken a clock sid secret token st)"
| "iam_exec tenv a (CallValidate clock token) st = snd (ValidateToken a clock token st)"
| "iam_exec tenv a (CallLogout now sid) st = snd (Logout a now sid st)"
| "iam_exec tenv a (CallLogoutAll now u) st = snd (LogoutAll (si_session (la_issuer a)) now u st)"

definition iam_run :: "text_env \<Rightarrow> ('s, 't, 'k) local_auth \<Rightarrow> iam_call list \<Rightarrow> ('s, 't, 'k) iam_state \<Rightarrow> ('s, 't, 'k) iam_state" where
  "iam_run tenv a calls st = fold (iam_exec tenv a) calls st"

lemma iam_run_simps [simp]:
  "iam_run tenv a [] st = st" "iam_run tenv a (c # cs) st = iam_run tenv a cs (iam_exec tenv a c st)"
  by (simp_all add: iam_run_def)

text \<open>An invariant of single calls is one of runs.\<close>

lemma iam_run_invariant:
  assumes "\<And>c st. Q st \<Longrightarrow> P c \<Longrightarrow> Q (iam_exec tenv a c st)" "Q st" "list_all P cs"
  shows "Q (iam_run tenv a cs st)"
  using assms(2,3) by (induction cs arbitrary: st) (simp_all add: assms(1))

primrec issued_ids :: "iam_call \<Rightarrow> string set" where
  "issued_ids (CallAuthenticate clock jti input) = {}"
| "issued_ids (CallSelect p clock sid secret input) = {sid}"
| "issued_ids (CallRefresh clock sid secret token) = {sid}"
| "issued_ids (CallValidate clock token) = {}"
| "issued_ids (CallLogout now sid) = {}"
| "issued_ids (CallLogoutAll now u) = {}"

section \<open>What the password login leaves alone\<close>

lemma allowLogin_keeps:
  "is_sessions (snd (allowLogin a now at st)) = is_sessions st" "is_tickets (snd (allowLogin a now at st)) = is_tickets st"
  by (simp_all add: allowLogin_def Let_def split: option.split prod.split)

lemma failed_login_keeps:
  "is_sessions (snd (failed_login a now at u st)) = is_sessions st" "is_tickets (snd (failed_login a now at u st)) = is_tickets st"
  by (simp_all add: failed_login_def loginFailed_def Let_def split: option.split prod.split)

lemma loginSucceeded_keeps:
  "is_sessions (loginSucceeded a at st) = is_sessions st" "is_tickets (loginSucceeded a at st) = is_tickets st"
  by (simp_all add: loginSucceeded_def Let_def split: option.split prod.split)

lemma login_done_keeps:
  "is_sessions (snd (login_done a ts now jti input u st)) = is_sessions st"
  "is_tickets (snd (login_done a ts now jti input u st)) = is_tickets st"
  by (simp_all add: login_done_def split: sum.split)

lemma Authenticate_cases:
  obtains "snd (Authenticate tenv a clock jti input st) = st"
  | at where "snd (Authenticate tenv a clock jti input st) = snd (allowLogin a (clock 0) at st)"
  | at u where "snd (Authenticate tenv a clock jti input st) = snd (failed_login a (clock 1) at u (snd (allowLogin a (clock 0) at st)))"
  | at ts u where "snd (Authenticate tenv a clock jti input st) =
      snd (login_done a ts (clock 1) jti input u (loginSucceeded a at (snd (allowLogin a (clock 0) at st))))"
proof (cases "\<exists>us ts. la_user a = Some us \<and> si_tenant (la_issuer a) = Some ts")
  case False
  then have "snd (Authenticate tenv a clock jti input st) = st"
    by (cases "la_user a"; cases "si_tenant (la_issuer a)") (simp_all add: Authenticate_def)
  then show ?thesis by (rule that(1))
next
  case True
  then obtain us ts where ports: "la_user a = Some us" "si_tenant (la_issuer a) = Some ts" by blast
  let ?at = "\<lparr>at_Email = normalizeEmail tenv (ai_Email input), at_IPAddress = ai_IPAddress input\<rparr>"
  obtain e st1 where al: "allowLogin a (clock 0) ?at st = (e, st1)" by (rule prod.exhaust)
  consider (refused) x where "e = Some x"
    | (unknown) "e = None" "\<nexists>u. FindByEmail us (ai_Email input) = Inr (Some u)"
    | (known) u where "e = None" "FindByEmail us (ai_Email input) = Inr (Some u)"
    by (cases e) auto
  then show ?thesis
  proof cases
    case refused
    then show ?thesis using that(2) [of ?at] ports al by (simp add: Authenticate_def Let_def)
  next
    case unknown
    then show ?thesis
      using that(3) [of ?at "[]"] ports al
      by (cases "FindByEmail us (ai_Email input)"; cases "projr (FindByEmail us (ai_Email input))")
        (simp_all add: Authenticate_def Let_def)
  next
    case known
    then show ?thesis
      using that(3) [of ?at "u_ID u"] that(4) [of ts u ?at] ports al
      by (cases "ValidatePassword us (u_ID u) (ai_Password input)") (simp_all add: Authenticate_def Let_def)
  qed
qed

lemma Authenticate_keeps:
  "is_sessions (snd (Authenticate tenv a clock jti input st)) = is_sessions st"
  "is_tickets (snd (Authenticate tenv a clock jti input st)) = is_tickets st"
  by (rule Authenticate_cases [of tenv a clock jti input st];
      simp add: allowLogin_keeps failed_login_keeps loginSucceeded_keeps login_done_keeps)+

section \<open>Stored sessions over a run\<close>

definition session_ok :: "auth_config \<Rightarrow> string \<Rightarrow> session \<Rightarrow> bool" where
  "session_ok c k s \<longleftrightarrow> s_ID s = k \<and> s_RefreshToken s = [] \<and> s_AccessToken s = [] \<and>
     (\<exists>t. s_AuthTime s = Some t \<and> s_ExpiresAt s \<le> t + max_life c)"

definition sessions_ok :: "auth_config \<Rightarrow> (string \<rightharpoonup> session) \<Rightarrow> bool" where
  "sessions_ok c m \<longleftrightarrow> (\<forall>k s. m k = Some s \<longrightarrow> session_ok c k s)"

lemma evolves_ok: 
  assumes "evolves m m'" "sessions_ok c m"
  shows "sessions_ok c m'"
  unfolding sessions_ok_def
proof (intro allI impI)
  fix k s' assume "m' k = Some s'"
  then obtain s where s: "m k = Some s" "unrevoked s' = unrevoked s" by (rule evolves_from [OF assms(1)])
  then have "session_ok c k s" using assms(2) by (simp add: sessions_ok_def)
  then show "session_ok c k s'" by (simp add: session_ok_def unrevoked_fields [OF s(2)])
qed

lemma changes_ok:
  assumes "changes c sids m m'" "sessions_ok c m"
  shows "sessions_ok c m'"
proof -
  obtain m1 where m1: "evolves m m1" and m': "m' = m1 \<or> (\<exists>n t. m' = m1(s_ID n \<mapsto> stored n) \<and> s_ID n \<in> sids \<and>
      s_AuthTime n = Some t \<and> s_ExpiresAt n \<le> t + max_life c)"
    using assms(1) unfolding changes_def by blast
  have ok: "sessions_ok c m1" by (rule evolves_ok [OF m1 assms(2)])
  from m' show ?thesis
  proof
    assume "\<exists>n t. m' = m1(s_ID n \<mapsto> stored n) \<and> s_ID n \<in> sids \<and> s_AuthTime n = Some t \<and> s_ExpiresAt n \<le> t + max_life c"
    then obtain n t where n: "m' = m1(s_ID n \<mapsto> stored n)" "s_AuthTime n = Some t" "s_ExpiresAt n \<le> t + max_life c" by blast
    then have "session_ok c (s_ID n) (stored n)" by (simp add: session_ok_def stored_def)
    then show ?thesis using ok by (simp add: sessions_ok_def n(1))
  qed (simp add: ok)
qed

text \<open>A revoked session stays: calls that issue other ids keep it, revoked, with its user and its hash.\<close>

definition revoked_at :: "session \<Rightarrow> string \<Rightarrow> (string \<rightharpoonup> session) \<Rightarrow> bool" where
  "revoked_at s k m \<longleftrightarrow> (\<exists>s'. m k = Some s' \<and> s_Revoked s' \<and> unrevoked s' = unrevoked s)"

lemma changes_revoked_at:
  assumes "changes c sids m m'" "revoked_at s k m" "k \<notin> sids"
  shows "revoked_at s k m'"
proof -
  obtain m1 where m1: "evolves m m1" and m': "m' k = m1 k" using assms(1,3) unfolding changes_def by (metis fun_upd_other)
  obtain s1 where s1: "m k = Some s1" "s_Revoked s1" "unrevoked s1 = unrevoked s" using assms(2) unfolding revoked_at_def by blast
  obtain s2 where "m1 k = Some s2" "unrevoked s2 = unrevoked s1" "s_Revoked s2" by (rule evolves_revoked [OF m1 s1(1,2)])
  then show ?thesis using m' s1(3) by (simp add: revoked_at_def)
qed

context session_store
begin

lemma exec_changes:
  assumes "si_session (la_issuer a) = port"
  shows "changes (si_cfg (la_issuer a)) (issued_ids c) (at (is_sessions st)) (at (is_sessions (iam_exec tenv a c st)))"
  using selectTenant_changes [OF assms] RefreshToken_changes [OF assms] ValidateToken_evolves [OF assms]
    Logout_evolves [OF assms] assms
  by (cases c) (simp_all add: Authenticate_keeps evolves_changes LogoutAll_evolves)

lemma run_ok:
  assumes "si_session (la_issuer a) = port" "sessions_ok (si_cfg (la_issuer a)) (at (is_sessions st))"
  shows "sessions_ok (si_cfg (la_issuer a)) (at (is_sessions (iam_run tenv a cs st)))"
  by (rule iam_run_invariant [where P = "\<lambda>_. True"])
    (use assms changes_ok [OF exec_changes [OF assms(1)]] in \<open>auto simp: list_all_iff\<close>)

lemma run_revoked_at:
  assumes "si_session (la_issuer a) = port" "revoked_at s k (at (is_sessions st))" "list_all (\<lambda>c. k \<notin> issued_ids c) cs"
  shows "revoked_at s k (at (is_sessions (iam_run tenv a cs st)))"
  by (rule iam_run_invariant [where P = "\<lambda>c. k \<notin> issued_ids c"])
    (use assms changes_revoked_at [OF exec_changes [OF assms(1)]] in auto)

end

end
