(* ===== verification/Iam_Samples.thy ===== *)
theory Iam_Samples
  imports Iam_Runs
begin

text \<open>A small concrete login service on the in-memory stores, and its first session.\<close>

definition sample_user :: user where
  "sample_user = \<lparr>u_ID = ''u'', u_Email = ''ann'', u_PasswordHash = [], u_Active = True, u_EmailVerified = True,
     u_ExternalIdentities = []\<rparr>"

definition sample_users :: user_port where
  "sample_users = \<lparr>FindByID = (\<lambda>_. Inr (Some sample_user)), FindByEmail = (\<lambda>_. Inr (Some sample_user)),
     ValidatePassword = (\<lambda>_ p. if p = ''pw'' then None else Some (Foreign ''wrong'')),
     FindOrCreateByExternalIdentity = (\<lambda>_. Inr None)\<rparr>"

definition sample_tenants :: tenant_port where
  "sample_tenants = \<lparr>ListUserTenants = (\<lambda>_. Inr []), AssertAccess = (\<lambda>_ _ _. None)\<rparr>"

definition sample_claims :: "string \<Rightarrow> claims" where
  "sample_claims sid = \<lparr>cl_UserID = ''u'', cl_TenantID = ''t'', cl_Module = [], cl_Roles = [''admin''], cl_SessionID = sid,
     cl_AuthProvider = [], cl_Issuer = [], cl_IssuedAt = 0, cl_ExpiresAt = 0, cl_Extra = None\<rparr>"

definition sample_tokens :: token_port where
  "sample_tokens = \<lparr>IssueAccessToken = (\<lambda>c. Inr (cl_SessionID c)), IssueRefreshToken = (\<lambda>c. Inr (cl_SessionID c)),
     ParseToken = (\<lambda>sid. Inr (sample_claims sid))\<rparr>"

definition sample_config :: "bool \<Rightarrow> auth_config" where
  "sample_config skip = \<lparr>ac_accessTokenTTL = 10, ac_refreshTokenTTL = 100, ac_sessionMaxLifetime = 150, ac_issuer = ''iam'',
     ac_ticketKey = Some (\<lambda>m. ''k'' @ m), ac_skipTicket = skip, ac_dummyPasswordHash = []\<rparr>"

definition sample_auth :: "bool \<Rightarrow> (mem_sessions, throttler, ticket_store) local_auth" where
  "sample_auth skip =
     \<lparr>la_issuer = \<lparr>si_tenant = Some sample_tenants, si_token = sample_tokens, si_session = mem_port,
        si_cfg = sample_config skip, si_tickets = Some mem_tickets, si_hash = (\<lambda>t. ''h'' @ t)\<rparr>,
      la_user = Some sample_users, la_throttle = Some mem_throttle\<rparr>"

definition sample_state :: "(mem_sessions, throttler, ticket_store) iam_state" where
  "sample_state = \<lparr>is_sessions = NewProvider, is_throttle = NewLoginThrottler sample_limits, is_tickets = [], is_events = []\<rparr>"

definition sample_select :: "string \<Rightarrow> select_input" where
  "sample_select ticket = \<lparr>sel_UserID = ''u'', sel_TenantID = ''t'', sel_Module = [], sel_Ticket = ticket, sel_AuthTime = None,
     sel_IPAddress = [], sel_UserAgent = [], sel_DeviceID = [], sel_ClaimsExtra = Map.empty, sel_SessionExtra = Map.empty\<rparr>"

definition sample_clock :: "int \<Rightarrow> nat \<Rightarrow> time" where
  "sample_clock t n = t + int n"

definition first_select :: iam_call where
  "first_select = CallSelect ''local'' (sample_clock 0) ''s1'' (Inr ''x'') (sample_select [])"

definition first_state :: "(mem_sessions, throttler, ticket_store) iam_state" where
  "first_state = iam_run ascii_env (sample_auth True) [first_select] sample_state"

definition first_session :: session where
  "first_session =
     \<lparr>s_ID = ''s1'', s_UserID = ''u'', s_TenantID = ''t'', s_Module = [], s_AccessToken = [], s_RefreshToken = [],
      s_RefreshTokenHash = ''hs1.x'', s_RefreshTokenLastFour = ''s1.x'', s_AuthProvider = ''local'', s_AuthTime = Some 3,
      s_ExpiresAt = 103, s_CreatedAt = 3, s_LastUsedAt = 3, s_Revoked = False, s_RevokedAt = None, s_RevokedBy = [],
      s_IPAddress = [], s_UserAgent = [], s_DeviceID = [], s_ClaimsExtra = Map.empty, s_SessionExtra = Map.empty\<rparr>"

lemmas sample_defs = sample_auth_def sample_config_def sample_tokens_def sample_tenants_def sample_users_def
  sample_user_def sample_claims_def sample_select_def sample_clock_def

lemmas session_defs = issue_def session_of_def sessionExpiry_def time_value_def buildRefreshToken_def lastFour_def
  extraToClaims_def rolesForTenant_def mem_Save_def

lemma first_sessions: "ms_sessions (is_sessions first_state) = [''s1'' \<mapsto> first_session]"
    "ms_revokedBefore (is_sessions first_state) = Map.empty" "ms_withTTL (is_sessions first_state)"
  by (simp_all add: first_state_def first_select_def sample_state_def selectTenant_def checkTenantTicket_def no_ticket_def
      consumeTicket_def open_session_def select_auth_time_def tenant_seed_def sample_defs session_defs NewProvider_def
      first_session_def Let_def)

lemma sample_empty: "ms_sessions (is_sessions sample_state) = Map.empty"
  by (simp add: sample_state_def NewProvider_def)

lemma first_sessions_ok: "sessions_ok (sample_config True) (ms_sessions (is_sessions first_state))"
  by (simp add: first_sessions sessions_ok_def session_ok_def first_session_def max_life_def sample_config_def)

lemma first_parse: "parseRefreshToken ''s1.x'' = Some ''s1''"
  by (simp add: parseRefreshToken_def)

lemma sample_issuer [simp]: "si_session (la_issuer (sample_auth skip)) = mem_port" "la_user (sample_auth skip) = Some sample_users"
    "si_tenant (la_issuer (sample_auth skip)) = Some sample_tenants" "si_cfg (la_issuer (sample_auth skip)) = sample_config skip"
    "si_hash (la_issuer (sample_auth skip)) t = ''h'' @ t" "si_tickets (la_issuer (sample_auth skip)) = Some mem_tickets"
  by (simp_all add: sample_auth_def)

text \<open>The first session is refreshed once.\<close>

lemma first_refresh:
  "\<exists>new st. RefreshToken (sample_auth True) (sample_clock 20) ''s2'' (Inr ''y'') ''s1.x'' first_state = (Inr new, st) \<and>
     s_UserID new = ''u'' \<and> s_AuthTime new = Some 3 \<and> s_ExpiresAt new = 124"
  by (simp add: RefreshToken_def refresh_check_def refreshable_def revalidate_def refresh_rotate_def revokeForRotation_def
      first_parse mem_Get_def first_sessions first_session_def found_def tokenHashMatches_def checkUserCutoff_def
      mem_RevokedBefore_def sessionAuthTime_def mem_RevokeIfActive_def revoke_session_def sample_defs session_defs Let_def)

end
