(* ===== verification/Iam_Props.thy ===== *)
theory Iam_Props
  imports Iam_Samples
begin

text \<open>
  Properties of the login service over arbitrary sequences of its calls, with the in-memory stores:
  sessions and refresh tokens.
\<close>

section \<open>Sessions\<close>



lemma validated_session:
  assumes "si_session (la_issuer a) = mem_port" "ms_sessions (is_sessions st0) = Map.empty"
    and "ValidateToken a clock token (iam_run tenv a calls st0) = (Inr c, st)"
  shows "\<exists>s t. ms_sessions (is_sessions (iam_run tenv a calls st0)) (cl_SessionID c) = Some s \<and>
     s_UserID s = cl_UserID c \<and> s_TenantID s = cl_TenantID c \<and> \<not> s_Revoked s \<and> s_AuthTime s = Some t \<and>
     clock 1 \<le> s_ExpiresAt s \<and> clock 1 \<le> t + max_life (si_cfg (la_issuer a)) \<and>
     (case ms_revokedBefore (is_sessions st) (cl_UserID c) of None \<Rightarrow> True | Some cutoff \<Rightarrow> cutoff < t)"
proof -
  let ?st = "iam_run tenv a calls st0"
  obtain s where s: "ms_sessions (is_sessions ?st) (cl_SessionID c) = Some s" "s_UserID s = cl_UserID c"
    "s_TenantID s = cl_TenantID c" "\<not> s_Revoked s" "clock 1 \<le> s_ExpiresAt s"
    "checkUserCutoff (la_issuer a) s (is_sessions st) = None"
    by (rule mem_store.ValidateToken_Ok [OF assms(1,3)])
  have "sessions_ok (si_cfg (la_issuer a)) (ms_sessions (is_sessions ?st))"
    using mem_store.run_ok [OF assms(1), of st0 tenv calls] assms(2) by (simp add: sessions_ok_def)
  then obtain t where t: "s_AuthTime s = Some t" "s_ExpiresAt s \<le> t + max_life (si_cfg (la_issuer a))"
    using s(1) unfolding sessions_ok_def session_ok_def by blast
  have "case ms_revokedBefore (is_sessions st) (cl_UserID c) of None \<Rightarrow> True | Some cutoff \<Rightarrow> cutoff < t"
    using s(2,6) t(1) assms(1)
    by (simp add: checkUserCutoff_def mem_RevokedBefore_def sessionAuthTime_def split: option.splits if_splits)
  then show ?thesis using s t by (intro exI [of _ s] exI [of _ t]) simp
qed

text \<open>C7. A token is accepted only for a live session: when validation succeeds after any calls from an empty
  store, the session named by the token is stored, belongs to the token's user and tenant, is not revoked,
  has not reached its expiry nor its maximal lifetime, and its login is after the last revocation of all of
  the user's sessions.\<close>

theorem validated_token_is_live:
  assumes "si_session (la_issuer a) = mem_port" "ms_sessions (is_sessions st0) = Map.empty"
    and "ValidateToken a clock token (iam_run tenv a calls st0) = (Inr c, st)"
  shows "\<exists>s t. ms_sessions (is_sessions (iam_run tenv a calls st0)) (cl_SessionID c) = Some s \<and>
     s_UserID s = cl_UserID c \<and> s_TenantID s = cl_TenantID c \<and> \<not> s_Revoked s \<and> s_AuthTime s = Some t \<and>
     clock 1 \<le> s_ExpiresAt s \<and> clock 1 \<le> t + max_life (si_cfg (la_issuer a)) \<and>
     (case ms_revokedBefore (is_sessions st) (cl_UserID c) of None \<Rightarrow> True | Some cutoff \<Rightarrow> cutoff < t)"
  by (rule validated_session [OF assms])

theorem validated_token_is_live_witness:
  "\<exists>c st s. ValidateToken (sample_auth True) (sample_clock 20) ''s1'' first_state = (Inr c, st) \<and>
     ms_sessions (is_sessions first_state) (cl_SessionID c) = Some s \<and> \<not> s_Revoked s \<and> 21 \<le> s_ExpiresAt s"
proof -
  have "fst (ValidateToken (sample_auth True) (sample_clock 20) ''s1'' first_state) = Inr (sample_claims ''s1'')"
    by (simp add: ValidateToken_def checkSession_def mem_Get_def first_sessions first_session_def found_def
        checkUserCutoff_def mem_RevokedBefore_def sample_defs Let_def)
  then obtain st where v: "ValidateToken (sample_auth True) (sample_clock 20) ''s1'' first_state = (Inr (sample_claims ''s1''), st)"
    by (metis prod.collapse)
  then show ?thesis
    using validated_token_is_live [of "sample_auth True" sample_state "sample_clock 20" "''s1''" ascii_env "[first_select]"
        "sample_claims ''s1''" st, folded first_state_def]
    by (auto simp: sample_empty sample_clock_def)
qed

section \<open>Refresh tokens\<close>

lemma mem_RevokeAll_ok: "mem_RevokeAllForUser now u p = (None, snd (mem_RevokeAllForUser now u p))"
  by (simp add: mem_RevokeAllForUser_def)

lemma replayed_in_memory:
  assumes "si_session (la_issuer a) = mem_port" "la_user a = Some us" "si_tenant (la_issuer a) = Some ts"
    and "parseRefreshToken token = Some sid" "revoked_at s sid (ms_sessions (is_sessions st))"
    and "si_hash (la_issuer a) token = s_RefreshTokenHash s" "RefreshToken a clock n secret token st = (r, st')"
  shows "r = Inl ErrSessionRevoked \<and> ms_revokedBefore (is_sessions st') (s_UserID s) = Some (clock 1) \<and>
    (\<forall>k s'. ms_sessions (is_sessions st') k = Some s' \<longrightarrow> s_UserID s' = s_UserID s \<longrightarrow> s_Revoked s')"
proof -
  obtain s1 where s1: "ms_sessions (is_sessions st) sid = Some s1" "s_Revoked s1" "unrevoked s1 = unrevoked s"
    using assms(5) unfolding revoked_at_def by blast
  note same = unrevoked_fields [OF s1(3)]
  have g: "mem_Get (clock 0) sid (is_sessions st) = (Ok (Some s1), is_sessions st)" using s1 by (simp add: mem_Get_def)
  obtain ss where ra: "mem_RevokeAllForUser (clock 1) (s_UserID s) (is_sessions st) = (None, ss)"
    using mem_RevokeAll_ok by blast
  have "refreshable a clock token st =
      (Inl ErrSessionRevoked, suspicious s1 ''refresh_token_reuse'' None (st\<lparr>is_sessions := ss\<rparr>))"
    using assms(1,4,6) g s1(2) same ra
    by (simp add: refreshable_def Let_def found_def tokenHashMatches_def revokeAllOnReuse_def)
  then have "r = Inl ErrSessionRevoked" "is_sessions st' = ss"
    using assms(2,3,7) by (auto simp: RefreshToken_def refresh_check_def)
  moreover have "ms_revokedBefore ss (s_UserID s) = Some (clock 1)" using ra by (auto simp: mem_RevokeAllForUser_def)
  moreover have "ms_sessions ss k = Some s' \<Longrightarrow> s_UserID s' = s_UserID s \<Longrightarrow> s_Revoked s'" for k s'
    using mem_store.revoke_all_done [of "clock 1" "s_UserID s" "is_sessions st" ss k s'] ra by simp
  ultimately show ?thesis by blast
qed




text \<open>C10. Of two refreshes of one session that run at the same time, one wins and neither is taken for theft:
  when both have checked the session and one has rotated it, the other one, after any other calls, is refused
  with the revocation error and changes no stored session.\<close>

theorem concurrent_refresh_has_one_winner:
  assumes "si_session (la_issuer a) = mem_port" "refresh_rotate a clock n secret s ts st = (Inr new, st1)" "n \<noteq> s_ID s"
    and "list_all (\<lambda>call. s_ID s \<notin> issued_ids call) calls"
    and "refresh_rotate a clock' n' secret' s ts' (iam_run tenv a calls st1) = (r, st2)"
  shows "r = Inl ErrSessionRevoked \<and> is_sessions st2 = is_sessions (iam_run tenv a calls st1)"
proof -
  let ?st = "iam_run tenv a calls st1"
  obtain e st3 where rv: "revokeForRotation a (clock 3) s st = (e, st3)" by (rule prod.exhaust)
  have e: "e = None" using assms(2) rv by (cases e) (auto simp: refresh_rotate_def)
  obtain s3 where s3: "ms_sessions (is_sessions st3) (s_ID s) = Some s3" "s_Revoked s3"
    using mem_store.revokeForRotation_done [OF assms(1) rv [unfolded e]] by blast
  obtain x st4 where iss: "issue (la_issuer a) n secret (s\<lparr>s_AuthTime := Some (sessionAuthTime s)\<rparr>)
      (rolesForTenant ts (s_TenantID s)) (clock 4) st3 = (x, st4)" by (rule prod.exhaust)
  have "is_sessions st1 = is_sessions st4" using assms(2) rv e iss by (auto simp: refresh_rotate_def split: sum.splits)
  then have "revoked_at s3 (s_ID s) (ms_sessions (is_sessions st1))"
    using changes_revoked_at [OF mem_store.issue_changes [OF assms(1) _ iss, of "sessionAuthTime s"], of s3 "s_ID s"] s3 assms(3)
    by (simp add: revoked_at_def)
  then have "revoked_at s3 (s_ID s) (ms_sessions (is_sessions ?st))"
    using mem_store.run_revoked_at [OF assms(1)] assms(4) by blast
  then obtain s4 where "ms_sessions (is_sessions ?st) (s_ID s) = Some s4" "s_Revoked s4" unfolding revoked_at_def by blast
  then have "mem_RevokeIfActive (clock' 3) (s_ID s) (is_sessions ?st) = (Inr False, is_sessions ?st)"
    by (simp add: mem_RevokeIfActive_def)
  then show ?thesis using assms(1,5) by (auto simp: refresh_rotate_def revokeForRotation_def Let_def)
qed

theorem concurrent_refresh_has_one_winner_witness:
  "\<exists>new st1 st2. refresh_rotate (sample_auth True) (sample_clock 20) ''s2'' (Inr ''y'') first_session [] first_state = (Inr new, st1) \<and>
     refresh_rotate (sample_auth True) (sample_clock 20) ''s3'' (Inr ''z'') first_session [] st1 = (Inl ErrSessionRevoked, st2) \<and>
     is_sessions st2 = is_sessions st1"
proof -
  have "\<exists>new. fst (refresh_rotate (sample_auth True) (sample_clock 20) ''s2'' (Inr ''y'') first_session [] first_state) = Inr new"
    by (simp add: refresh_rotate_def revokeForRotation_def mem_RevokeIfActive_def first_sessions first_session_def
        sessionAuthTime_def sample_defs session_defs Let_def)
  then obtain new st1 where f: "refresh_rotate (sample_auth True) (sample_clock 20) ''s2'' (Inr ''y'') first_session [] first_state = (Inr new, st1)"
    by (metis prod.collapse)
  obtain r st2 where g: "refresh_rotate (sample_auth True) (sample_clock 20) ''s3'' (Inr ''z'') first_session []
      (iam_run ascii_env (sample_auth True) [] st1) = (r, st2)" by (rule prod.exhaust)
  show ?thesis
    using concurrent_refresh_has_one_winner [OF _ f _ _ g] f g by (simp add: first_session_def)
qed

text \<open>Knowing a session id is not enough: refreshing with a token whose hash is not the stored one is
  refused and neither revokes nor changes a session (an expired one may be dropped by the lookup).\<close>

theorem refresh_needs_the_secret:
  assumes "si_session (la_issuer a) = mem_port" "la_user a = Some us" "si_tenant (la_issuer a) = Some ts"
    and "parseRefreshToken token = Some sid"
    and "\<And>s. ms_sessions (is_sessions st) sid = Some s \<Longrightarrow> si_hash (la_issuer a) token \<noteq> s_RefreshTokenHash s"
    and "RefreshToken a clock n secret token st = (r, st')"
  shows "r \<in> {Inl ErrTokenInvalid, Inl ErrSessionNotFound} \<and>
     ms_sessions (is_sessions st') \<subseteq>\<^sub>m ms_sessions (is_sessions st) \<and>
     ms_revokedBefore (is_sessions st') = ms_revokedBefore (is_sessions st)"
proof -
  obtain g ss where g: "mem_Get (clock 0) sid (is_sessions st) = (g, ss)" by (rule prod.exhaust)
  have ss: "ms_sessions ss \<subseteq>\<^sub>m ms_sessions (is_sessions st)" "ms_revokedBefore ss = ms_revokedBefore (is_sessions st)"
    "g = Inl ErrSessionNotFound \<or> (\<exists>s. g = Inr (Some s) \<and> ms_sessions (is_sessions st) sid = Some s)"
    using g by (auto simp: mem_Get_def map_le_def split: option.splits if_splits)
  have "\<exists>e st1. refreshable a clock token st = (Inl e, st1) \<and> is_sessions st1 = ss \<and> e \<in> {ErrTokenInvalid, ErrSessionNotFound}"
    using ss(3) assms(1,4,5) g
    by (auto simp: refreshable_def Let_def found_def sessionLookupError_def tokenHashMatches_def)
  then show ?thesis using assms(2,3,6) ss(1,2) by (auto simp: RefreshToken_def refresh_check_def)
qed

theorem refresh_needs_the_secret_witness:
  "\<exists>r st. RefreshToken (sample_auth True) (sample_clock 20) ''s2'' (Inr ''y'') ''s1.guess'' first_state = (r, st) \<and>
     r \<in> {Inl ErrTokenInvalid, Inl ErrSessionNotFound} \<and> ms_sessions (is_sessions st) \<subseteq>\<^sub>m [''s1'' \<mapsto> first_session]"
proof -
  obtain r st where g: "RefreshToken (sample_auth True) (sample_clock 20) ''s2'' (Inr ''y'') ''s1.guess'' first_state = (r, st)"
    by (rule prod.exhaust)
  have p: "parseRefreshToken ''s1.guess'' = Some ''s1''" by (simp add: parseRefreshToken_def)
  show ?thesis
    using refresh_needs_the_secret [OF _ _ _ p _ g] g by (simp add: first_sessions first_session_def)
qed

text \<open>Logging out turns the old refresh token into an alarm: presenting the token of a session that was
  only logged out is treated like the reuse of a rotated one and revokes every session of the user.\<close>

theorem logged_out_token_revokes_all:
  assumes "si_session (la_issuer a) = mem_port" "la_user a = Some us" "si_tenant (la_issuer a) = Some ts"
    and "ms_sessions (is_sessions st) sid = Some s" "Logout a now sid st = (None, st1)"
    and "parseRefreshToken token = Some sid" "si_hash (la_issuer a) token = s_RefreshTokenHash s"
    and "RefreshToken a clock n secret token st1 = (r, st2)"
  shows "r = Inl ErrSessionRevoked \<and>
    (\<forall>k s'. ms_sessions (is_sessions st2) k = Some s' \<longrightarrow> s_UserID s' = s_UserID s \<longrightarrow> s_Revoked s')"
proof -
  have "ms_sessions (is_sessions st1) sid = Some (revoke_session now ''user'' s)"
    using assms(1,4,5) by (auto simp: Logout_def mem_Revoke_def)
  then have "revoked_at s sid (ms_sessions (is_sessions st1))" by (simp add: revoked_at_def)
  then show ?thesis using replayed_in_memory [OF assms(1-3,6) _ assms(7,8)] by blast
qed

theorem logged_out_token_revokes_all_witness:
  "\<exists>st1 st2. Logout (sample_auth True) 10 ''s1'' first_state = (None, st1) \<and>
     RefreshToken (sample_auth True) (sample_clock 20) ''s2'' (Inr ''y'') ''s1.x'' st1 = (Inl ErrSessionRevoked, st2)"
proof -
  have s1: "ms_sessions (is_sessions first_state) ''s1'' = Some first_session" by (simp add: first_sessions)
  have "fst (Logout (sample_auth True) 10 ''s1'' first_state) = None" by (simp add: Logout_def mem_Revoke_def s1)
  then obtain st1 where l: "Logout (sample_auth True) 10 ''s1'' first_state = (None, st1)" by (metis prod.collapse)
  obtain r st2 where g: "RefreshToken (sample_auth True) (sample_clock 20) ''s2'' (Inr ''y'') ''s1.x'' st1 = (r, st2)"
    by (rule prod.exhaust)
  show ?thesis
    using logged_out_token_revokes_all [OF _ _ _ s1 l first_parse _ g] l g by (simp add: first_session_def)
qed

end
