(* ===== verification/Iam_Login_Props.thy ===== *)
theory Iam_Login_Props
  imports Iam_Props
begin

text \<open>
  Properties of opening a session: tickets are used once, a session needs a ticket and the tenant's
  consent, and a failed login does not tell whether the email is known.
\<close>

section \<open>Tickets\<close>

lemma checkTenantTicket_Ok:
  assumes "checkTenantTicket c ticket p u now = Inr t" "\<not> ac_skipTicket c"
  obtains mac where "ac_ticketKey c = Some mac" "verifyTenantTicket mac ticket p u now = Some t"
  using assms by (auto simp: checkTenantTicket_def split: option.splits if_splits)

text \<open>What a ticket says does not depend on who presents it.\<close>

lemma verify_same:
  assumes "verifyTenantTicket mac ticket p u now = Some t" "verifyTenantTicket mac ticket p' u' now' = Some t'"
  shows "t' = t"
proof -
  obtain pl raw exp where a: "cut (CHR ''.'') ticket = Some (pl, ticketMAC mac pl)" "b64_decode pl = Some raw"
    "split_n 4 (CHR ''|'') raw = [exp, tc_jti t, p, u]" "ParseInt exp = Some (tc_exp t)"
    by (rule verifyTenantTicket_Some [OF assms(1)])
  obtain pl' raw' exp' where b: "cut (CHR ''.'') ticket = Some (pl', ticketMAC mac pl')" "b64_decode pl' = Some raw'"
    "split_n 4 (CHR ''|'') raw' = [exp', tc_jti t', p', u']" "ParseInt exp' = Some (tc_exp t')"
    by (rule verifyTenantTicket_Some [OF assms(2)])
  have "pl' = pl" using a(1) b(1) by simp
  then have "raw' = raw" using a(2) b(2) by simp
  then have "tc_jti t' = tc_jti t" "exp' = exp" using a(3) b(3) by simp_all
  then show ?thesis using a(4) b(4) by (simp add: ticket_claims.equality)
qed

lemma verify_deadline:
  assumes "verifyTenantTicket mac ticket p u now = Some t"
  shows "tc_jti t \<noteq> []" "now < (tc_exp t + 1) * nanosecond_s"
proof -
  have u: "Unix now \<le> tc_exp t" and "tc_jti t \<noteq> []" using verifyTenantTicket_Some [OF assms] by metis+
  then show "tc_jti t \<noteq> []" by simp
  have "now < (now div nanosecond_s + 1) * nanosecond_s"
    using div_mult_mod_eq [of now nanosecond_s] pos_mod_bound [of nanosecond_s now] by (simp add: nanosecond_s_def distrib_right)
  also have "\<dots> \<le> (tc_exp t + 1) * nanosecond_s"
    using u by (intro mult_right_mono) (simp_all add: Unix_def nanosecond_s_def)
  finally show "now < (tc_exp t + 1) * nanosecond_s" .
qed

lemma issue_tickets: "is_tickets (snd (issue i sid secret seed roles now st)) = is_tickets st"
proof -
  obtain r st' where iss: "issue i sid secret seed roles now st = (r, st')" by (rule prod.exhaust)
  show ?thesis by (rule issue_cases [OF iss]) (use iss in simp_all)
qed

lemma open_session_tickets: "is_tickets (snd (open_session i ts p now sid secret input st)) = is_tickets st"
proof -
  have "issue i sid secret seed roles now st = (r, st1) \<Longrightarrow> is_tickets st1 = is_tickets st" for seed roles r st1
    using issue_tickets [of i sid secret seed roles now st] by simp
  then show ?thesis by (simp add: open_session_def split: sum.split prod.split)
qed

text \<open>The consumed tickets after a call: at most one entry is consumed, at the third reading of its clock.\<close>

definition ticket_step :: "(time \<Rightarrow> bool) \<Rightarrow> ticket_store \<Rightarrow> ticket_store \<Rightarrow> bool" where
  "ticket_step P k k' \<longleftrightarrow> k' = k \<or> (\<exists>now jti ttl. P now \<and> k' = snd (ticket_Consume now jti ttl k))"

lemma mem_consume:
  "kp_Consume mem_tickets now jti ttl k = (Ok (fst (ticket_Consume now jti ttl k)), snd (ticket_Consume now jti ttl k))"
  by (simp add: mem_tickets_def split_beta)

lemma consumeTicket_step:
  assumes "si_tickets i = Some mem_tickets"
  shows "ticket_step (\<lambda>t. t = now) (is_tickets st) (is_tickets (snd (consumeTicket i t at now st)))"
  using assms by (auto simp: consumeTicket_def mem_consume ticket_step_def)

lemma selectTenant_step:
  assumes "si_tickets i = Some mem_tickets"
  shows "ticket_step (\<lambda>t. t = clock 2) (is_tickets st) (is_tickets (snd (selectTenant i p clock sid secret input st)))"
proof (cases "si_tenant i")
  case None
  then show ?thesis by (simp add: selectTenant_def ticket_step_def)
next
  case ts: (Some ts)
  show ?thesis
  proof (cases "checkTenantTicket (si_cfg i) (sel_Ticket input) p (sel_UserID input) (clock 0)")
    case (Inl e)
    then show ?thesis using ts by (simp add: selectTenant_def ticket_step_def)
  next
    case t: (Inr t)
    obtain e st1 where c: "consumeTicket i t (clock 1) (clock 2) st = (e, st1)" by (rule prod.exhaust)
    have step: "ticket_step (\<lambda>t. t = clock 2) (is_tickets st) (is_tickets st1)"
      using consumeTicket_step [OF assms, of "clock 2" st t "clock 1"] c by simp
    show ?thesis
    proof (cases "AssertAccess ts (sel_UserID input) (sel_TenantID input) (sel_Module input)")
      case None
      then show ?thesis using step ts t c by (cases e) (simp_all add: selectTenant_def open_session_tickets)
    next
      case (Some x)
      then show ?thesis using ts t by (simp add: selectTenant_def ticket_step_def)
    qed
  qed
qed

lemma refreshable_tickets: "is_tickets (snd (refreshable a clock token st)) = is_tickets st"
  by (simp add: refreshable_def revokeAllOnReuse_def Let_def split: option.split prod.split sum.split)

lemma revalidate_tickets: "is_tickets (snd (revalidate a us ts now s st)) = is_tickets st"
  by (simp add: revalidate_def Let_def split: option.split prod.split sum.split)

lemma revokeForRotation_tickets: "is_tickets (snd (revokeForRotation a now s st)) = is_tickets st"
  by (simp add: revokeForRotation_def Let_def split: option.split prod.split sum.split bool.split)

lemma refresh_check_tickets: "is_tickets (snd (refresh_check a us ts clock token st)) = is_tickets st"
proof -
  obtain r st1 where f: "refreshable a clock token st = (r, st1)" by (rule prod.exhaust)
  have 1: "is_tickets st1 = is_tickets st" using refreshable_tickets [of a clock token st] f by simp
  have 2: "revalidate a us ts (clock 2) s st1 = (e, st2) \<Longrightarrow> is_tickets st2 = is_tickets st" for s e st2
    using revalidate_tickets [of a us ts "clock 2" s st1] 1 by simp
  show ?thesis using f 1 2 by (simp add: refresh_check_def split: sum.split prod.split option.split)
qed

lemma refresh_rotate_tickets: "is_tickets (snd (refresh_rotate a clock sid secret s ts st)) = is_tickets st"
proof -
  obtain e st1 where f: "revokeForRotation a (clock 3) s st = (e, st1)" by (rule prod.exhaust)
  have 1: "is_tickets st1 = is_tickets st" using revokeForRotation_tickets [of a "clock 3" s st] f by simp
  have 2: "issue i sid secret seed roles now st1 = (r, st2) \<Longrightarrow> is_tickets st2 = is_tickets st" for i seed roles now r st2
    using issue_tickets [of i sid secret seed roles now st1] 1 by simp
  show ?thesis using f 1 2 by (simp add: refresh_rotate_def split: sum.split prod.split option.split)
qed

lemma RefreshToken_tickets: "is_tickets (snd (RefreshToken a clock sid secret token st)) = is_tickets st"
proof -
  have "refresh_check a us ts clock token st = (r, st1) \<Longrightarrow> is_tickets st1 = is_tickets st" for us ts r st1
    using refresh_check_tickets [of a us ts clock token st] by simp
  then show ?thesis by (simp add: RefreshToken_def refresh_rotate_tickets split: option.split sum.split prod.split)
qed

lemma ValidateToken_tickets: "is_tickets (snd (ValidateToken a clock token st)) = is_tickets st"
proof -
  have "checkSession a clock c st = (e, st1) \<Longrightarrow> is_tickets st1 = is_tickets st" for c e st1
    by (auto simp: checkSession_def Let_def split: prod.splits sum.splits if_splits)
  then show ?thesis by (simp add: ValidateToken_def split: option.split sum.split prod.split)
qed

lemma logout_tickets:
  "is_tickets (snd (Logout a now sid st)) = is_tickets st" "is_tickets (snd (LogoutAll port now u st)) = is_tickets st"
  by (simp_all add: Logout_def LogoutAll_def split: option.split prod.split)

primrec select_time :: "iam_call \<Rightarrow> time option" where
  "select_time (CallAuthenticate clock jti input) = None"
| "select_time (CallSelect p clock sid secret input) = Some (clock 2)"
| "select_time (CallRefresh clock sid secret token) = None"
| "select_time (CallValidate clock token) = None"
| "select_time (CallLogout now sid) = None"
| "select_time (CallLogoutAll now u) = None"

lemma exec_tickets:
  assumes "si_tickets (la_issuer a) = Some mem_tickets"
  shows "ticket_step (\<lambda>t. select_time c = Some t) (is_tickets st) (is_tickets (iam_exec tenv a c st))"
proof (cases c)
  case (CallSelect p clock sid secret input)
  then show ?thesis using selectTenant_step [OF assms, of clock st p sid secret input] by (simp add: eq_commute)
qed (simp_all add: Authenticate_keeps RefreshToken_tickets ValidateToken_tickets logout_tickets ticket_step_def)

definition ticket_used :: "string \<Rightarrow> time \<Rightarrow> ticket_store \<Rightarrow> bool" where
  "ticket_used jti till k \<longleftrightarrow> distinct (map fst k) \<and> consumed_until k jti till"

lemma run_ticket_used:
  fixes st :: "('a, 'b, ticket_store) iam_state"
  assumes "si_tickets (la_issuer a) = Some mem_tickets" "ticket_used jti till (is_tickets st)"
    and "list_all (\<lambda>c. \<forall>t. select_time c = Some t \<longrightarrow> t < till) cs"
  shows "ticket_used jti till (is_tickets (iam_run tenv a cs st))"
proof (rule iam_run_invariant [where Q = "\<lambda>st. ticket_used jti till (is_tickets st)" and P = "\<lambda>c. \<forall>t. select_time c = Some t \<longrightarrow> t < till"])
  fix c :: iam_call and st :: "('a, 'b, ticket_store) iam_state"
  assume "ticket_used jti till (is_tickets st)" "\<forall>t. select_time c = Some t \<longrightarrow> t < till"
  then show "ticket_used jti till (is_tickets (iam_exec tenv a c st))"
    using exec_tickets [OF assms(1), of c st tenv] Consume_keeps(1) Consume_distinct
    unfolding ticket_step_def ticket_used_def by metis
qed (use assms in simp_all)

text \<open>What it takes to open a session.\<close>

lemma selectTenant_Ok:
  assumes "selectTenant i p clock sid secret input st = (Inr s, st')"
  obtains ts t st1 where "si_tenant i = Some ts"
    "checkTenantTicket (si_cfg i) (sel_Ticket input) p (sel_UserID input) (clock 0) = Inr t"
    "AssertAccess ts (sel_UserID input) (sel_TenantID input) (sel_Module input) = None"
    "consumeTicket i t (clock 1) (clock 2) st = (None, st1)"
    "open_session i ts p (clock 3) sid secret input st1 = (Inr s, st')"
proof (cases "si_tenant i")
  case None
  then show ?thesis using assms by (simp add: selectTenant_def)
next
  case ts: (Some ts)
  show ?thesis
  proof (cases "checkTenantTicket (si_cfg i) (sel_Ticket input) p (sel_UserID input) (clock 0)")
    case (Inl e)
    then show ?thesis using assms ts by (simp add: selectTenant_def)
  next
    case t: (Inr t)
    obtain e st1 where c: "consumeTicket i t (clock 1) (clock 2) st = (e, st1)" by (rule prod.exhaust)
    show ?thesis
    proof (cases "AssertAccess ts (sel_UserID input) (sel_TenantID input) (sel_Module input)")
      case (Some x)
      then show ?thesis using assms ts t by (simp add: selectTenant_def split: if_splits)
    next
      case access: None
      then have "e = None" "open_session i ts p (clock 3) sid secret input st1 = (Inr s, st')"
        using assms ts t c by (cases e; simp add: selectTenant_def)+
      then show ?thesis using that [OF ts t access] c by simp
    qed
  qed
qed

lemma consumed_after:
  assumes "ticket_Consume now jti ttl k = (True, k')" "distinct (map fst k)"
  shows "ticket_used jti (now + ttl) k'"
proof -
  have "k' = AList.update jti (now + ttl) (ticket_sweep now k)"
    using assms(1) by (auto simp: ticket_Consume_def Let_def split: option.splits if_splits)
  then show ?thesis
    using distinct_sweep [OF assms(2)] by (simp add: ticket_used_def consumed_until_def update_conv' distinct_update)
qed

text \<open>C6. A ticket opens one session: after a ticket has opened a session, and after any other calls made before
  a minute has passed since the ticket's expiry, selecting a tenant with the same ticket fails, for whatever
  user, provider or tenant, as long as that call takes less than a minute from checking the ticket to
  consuming it.\<close>

theorem ticket_opens_one_session:
  assumes "si_tickets (la_issuer a) = Some mem_tickets" "\<not> ac_skipTicket (si_cfg (la_issuer a))"
    and "distinct (map fst (is_tickets st))" "clock 1 \<le> clock 2"
    and "selectTenant (la_issuer a) p clock sid secret input st = (Inr s, st1)"
    and "checkTenantTicket (si_cfg (la_issuer a)) (sel_Ticket input) p (sel_UserID input) (clock 0) = Inr t"
    and "list_all (\<lambda>c. \<forall>now. select_time c = Some now \<longrightarrow> now < (tc_exp t + 60) * nanosecond_s) calls"
    and "sel_Ticket input' = sel_Ticket input" "clock' 2 \<le> clock' 0 + 59 * nanosecond_s"
  shows "\<exists>e. fst (selectTenant (la_issuer a) p' clock' sid' secret' input' (iam_run tenv a calls st1)) = Inl e"
proof (rule ccontr)
  let ?i = "la_issuer a" and ?st = "iam_run tenv a calls st1" and ?till = "(tc_exp t + 60) * nanosecond_s"
  assume "\<not> ?thesis"
  then obtain s' st2 where ok: "selectTenant ?i p' clock' sid' secret' input' ?st = (Inr s', st2)"
    by (metis obj_sumE prod.collapse)
  obtain ts t1 sta where f: "checkTenantTicket (si_cfg ?i) (sel_Ticket input) p (sel_UserID input) (clock 0) = Inr t1"
    "consumeTicket ?i t1 (clock 1) (clock 2) st = (None, sta)" "open_session ?i ts p (clock 3) sid secret input sta = (Inr s, st1)"
    by (rule selectTenant_Ok [OF assms(5)])
  then have t1: "t1 = t" using assms(6) by simp
  obtain mac where mac: "ac_ticketKey (si_cfg ?i) = Some mac"
    "verifyTenantTicket mac (sel_Ticket input) p (sel_UserID input) (clock 0) = Some t"
    by (rule checkTenantTicket_Ok [OF assms(6,2)])
  note jti = verify_deadline(1) [OF mac(2)]
  obtain t' st3 where g: "checkTenantTicket (si_cfg ?i) (sel_Ticket input') p' (sel_UserID input') (clock' 0) = Inr t'"
    "consumeTicket ?i t' (clock' 1) (clock' 2) ?st = (None, st3)"
    by (rule selectTenant_Ok [OF ok])
  obtain mac' where mac': "ac_ticketKey (si_cfg ?i) = Some mac'"
    "verifyTenantTicket mac' (sel_Ticket input') p' (sel_UserID input') (clock' 0) = Some t'"
    by (rule checkTenantTicket_Ok [OF g(1) assms(2)])
  then have t': "t' = t" "clock' 0 < (tc_exp t + 1) * nanosecond_s"
    using verify_same [OF mac(2), of p' "sel_UserID input'" "clock' 0" t'] verify_deadline(2) [OF mac'(2)] mac(1) assms(8) by auto
  let ?ttl = "tc_exp t * nanosecond_s - clock 1 + 60 * nanosecond_s"
  obtain b k where "ticket_Consume (clock 2) (tc_jti t) ?ttl (is_tickets st) = (b, k)" by (rule prod.exhaust)
  then have con: "ticket_Consume (clock 2) (tc_jti t) ?ttl (is_tickets st) = (True, k)" "is_tickets sta = k"
    using f(2) t1 assms(1) jti by (auto simp: consumeTicket_def mem_consume split: if_splits)
  have "is_tickets st1 = k" using open_session_tickets [of ?i ts p "clock 3" sid secret input sta] f(3) con(2) by simp
  moreover have "?till \<le> clock 2 + ?ttl" using assms(4) by (simp add: distrib_right)
  ultimately have "ticket_used (tc_jti t) ?till (is_tickets st1)"
    using consumed_after [OF con(1) assms(3)] by (force simp: ticket_used_def consumed_until_def)
  then have used: "ticket_used (tc_jti t) ?till (is_tickets ?st)" using run_ticket_used [OF assms(1)] assms(7) by blast
  have "clock' 2 < ?till" using t'(2) assms(9) by (simp add: distrib_right nanosecond_s_def)
  then have "\<not> fst (ticket_Consume (clock' 2) (tc_jti t) ttl (is_tickets ?st))" for ttl
    using used Consume_keeps(2) [OF _ _ \<open>clock' 2 < ?till\<close>] by (simp add: ticket_used_def)
  then show False using g(2) t'(1) assms(1) jti by (simp add: consumeTicket_def mem_consume)
qed

text \<open>A ticket for the sample service.\<close>

definition sample_ticket :: string where
  "sample_ticket = signTenantTicket (\<lambda>m. ''k'' @ m) ''J1'' ''local'' ''u'' 0"

lemma sample_ticket_checks:
  "0 \<le> now \<Longrightarrow> now \<le> 1000 \<Longrightarrow>
   checkTenantTicket (sample_config False) sample_ticket ''local'' ''u'' now = Inr \<lparr>tc_jti = ''J1'', tc_exp = 300\<rparr>"
  using verify_signed [of "''J1''" "''local''" 300 "\<lambda>m. ''k'' @ m" "''u''" "''local''" "''u''" now]
  by (simp add: sample_ticket_def signTenantTicket_def Let_def checkTenantTicket_def sample_config_def Unix_def
      nanosecond_s_def tenantTicketTTL_def)

lemma sample_skip: "ac_skipTicket (sample_config b) = b"
  by (simp add: sample_config_def)

lemma sample_ticket_opens:
  "\<exists>s st. selectTenant (la_issuer (sample_auth False)) ''local'' (sample_clock 5) ''s1'' (Inr ''x'') (sample_select sample_ticket)
     sample_state = (Inr s, st) \<and> s_UserID s = ''u''"
proof -
  have "checkTenantTicket (sample_config False) sample_ticket ''local'' ''u'' 5 = Inr \<lparr>tc_jti = ''J1'', tc_exp = 300\<rparr>"
    by (rule sample_ticket_checks) simp_all
  then show ?thesis
    by (simp add: selectTenant_def consumeTicket_def mem_consume ticket_Consume_def ticket_sweep_def
        open_session_def select_auth_time_def tenant_seed_def sample_state_def sweepAt_def sample_tenants_def
        sample_select_def sample_clock_def session_defs sample_auth_def sample_tokens_def Let_def)
qed

theorem ticket_opens_one_session_witness:
  "\<exists>s st1 e. selectTenant (la_issuer (sample_auth False)) ''local'' (sample_clock 5) ''s1'' (Inr ''x'') (sample_select sample_ticket)
      sample_state = (Inr s, st1) \<and>
     fst (selectTenant (la_issuer (sample_auth False)) ''local'' (sample_clock 9) ''s2'' (Inr ''y'') (sample_select sample_ticket) st1) = Inl e"
proof -
  obtain s st1 where f: "selectTenant (la_issuer (sample_auth False)) ''local'' (sample_clock 5) ''s1'' (Inr ''x'')
      (sample_select sample_ticket) sample_state = (Inr s, st1)" using sample_ticket_opens by blast
  have "\<exists>e. fst (selectTenant (la_issuer (sample_auth False)) ''local'' (sample_clock 9) ''s2'' (Inr ''y'')
      (sample_select sample_ticket) (iam_run ascii_env (sample_auth False) [] st1)) = Inl e"
    by (rule ticket_opens_one_session [OF _ _ _ _ f, where t = "\<lparr>tc_jti = ''J1'', tc_exp = 300\<rparr>"])
      (simp_all add: sample_skip sample_state_def sample_clock_def sample_select_def nanosecond_s_def sample_ticket_checks)
  then show ?thesis using f by auto
qed



section \<open>Failed logins\<close>

definition anonymous :: "iam_event \<Rightarrow> iam_event" where
  "anonymous e = e\<lparr>ie_UserID := []\<rparr>"

text \<open>C11. A failed login does not tell whether the email is registered: with one user store that does not know
  the email, or fails to look it up, and another that knows it but refuses the password, the caller gets the
  same answer, the throttler, sessions and tickets end in the same state, and the events differ at most in the
  user id.\<close>

theorem failed_login_hides_email:
  assumes "\<nexists>u. FindByEmail us (ai_Email input) = Inr (Some u)"
    and "FindByEmail us' (ai_Email input) = Inr (Some u)" "ValidatePassword us' (u_ID u) (ai_Password input) \<noteq> None"
  shows "(case (Authenticate tenv (a\<lparr>la_user := Some us\<rparr>) clock jti input st, Authenticate tenv (a\<lparr>la_user := Some us'\<rparr>) clock jti input st) of
     ((r, st1), (r', st2)) \<Rightarrow> r = r' \<and> is_throttle st1 = is_throttle st2 \<and> is_sessions st1 = is_sessions st2 \<and>
       is_tickets st1 = is_tickets st2 \<and> map anonymous (is_events st1) = map anonymous (is_events st2))"
proof (cases "si_tenant (la_issuer a)")
  case None
  then show ?thesis by (simp add: Authenticate_def)
next
  case (Some ts)
  let ?at = "\<lparr>at_Email = normalizeEmail tenv (ai_Email input), at_IPAddress = ai_IPAddress input\<rparr>"
  have al: "allowLogin (a\<lparr>la_user := x\<rparr>) (clock 0) ?at st = allowLogin a (clock 0) ?at st" for x
    by (simp add: allowLogin_def)
  obtain e st1 where e: "allowLogin a (clock 0) ?at st = (e, st1)" by (rule prod.exhaust)
  have same: "fst (failed_login (a\<lparr>la_user := x\<rparr>) now ?at v st1) = fst (failed_login (a\<lparr>la_user := y\<rparr>) now ?at w st1) \<and>
      is_throttle (snd (failed_login (a\<lparr>la_user := x\<rparr>) now ?at v st1)) = is_throttle (snd (failed_login (a\<lparr>la_user := y\<rparr>) now ?at w st1)) \<and>
      map anonymous (is_events (snd (failed_login (a\<lparr>la_user := x\<rparr>) now ?at v st1))) =
        map anonymous (is_events (snd (failed_login (a\<lparr>la_user := y\<rparr>) now ?at w st1)))" for x y v w now
    by (simp add: failed_login_def loginFailed_def Let_def emit_def anonymous_def split: option.split prod.split)
  have 1: "Authenticate tenv (a\<lparr>la_user := Some us\<rparr>) clock jti input st =
      (case e of Some e \<Rightarrow> (Err e, st1) | None \<Rightarrow> failed_login (a\<lparr>la_user := Some us\<rparr>) (clock 1) ?at [] st1)"
    using assms(1) Some e al
    by (cases "FindByEmail us (ai_Email input)"; cases "projr (FindByEmail us (ai_Email input))"; cases e)
      (simp_all add: Authenticate_def Let_def)
  have 2: "Authenticate tenv (a\<lparr>la_user := Some us'\<rparr>) clock jti input st =
      (case e of Some e \<Rightarrow> (Err e, st1) | None \<Rightarrow> failed_login (a\<lparr>la_user := Some us'\<rparr>) (clock 1) ?at (u_ID u) st1)"
    using assms(2,3) Some e al by (cases e) (auto simp: Authenticate_def Let_def)
  show ?thesis
    unfolding 1 2 using same [of "Some us" "clock 1" "[]" "Some us'" "u_ID u"]
    by (cases e) (simp_all add: split_beta failed_login_keeps)
qed

definition stranger_users :: user_port where
  "stranger_users = sample_users\<lparr>FindByEmail := (\<lambda>_. Inr None)\<rparr>"

theorem failed_login_hides_email_witness:
  "(let input = \<lparr>ai_Email = ''ann'', ai_Password = ''guess'', ai_IPAddress = []\<rparr>
    in fst (Authenticate ascii_env ((sample_auth True)\<lparr>la_user := Some stranger_users\<rparr>) (sample_clock 0) ''J1'' input sample_state) =
       fst (Authenticate ascii_env ((sample_auth True)\<lparr>la_user := Some sample_users\<rparr>) (sample_clock 0) ''J1'' input sample_state))"
  using failed_login_hides_email [of stranger_users "\<lparr>ai_Email = ''ann'', ai_Password = ''guess'', ai_IPAddress = []\<rparr>"
      sample_users sample_user ascii_env "sample_auth True" "sample_clock 0" "''J1''" sample_state]
  by (simp add: stranger_users_def sample_users_def split_beta)

end
