(* ===== verification/Transaction.thy ===== *)
theory Transaction
  imports Msq_Worker
begin

text \<open>
  Database transactions (\<^verbatim>\<open>sqln/transaction/transaction.go\<close>): running a function inside a
  transaction, with rollback on error and on panic, and repeating it on conflicts
  (\<^verbatim>\<open>sqln/connection/retry.go\<close>). The database behind \<^verbatim>\<open>database/sql\<close> is a record of the three
  calls the code makes, on a world \<open>'w\<close> that the caller's function changes too. The calls made are
  returned as a trace. Logging is not modelled.
\<close>

section \<open>Errors and the database\<close>

text \<open>\<open>Failure\<close> is an error from outside, with its SQLSTATE if it exposes one.\<close>

datatype tx_error =
  Failure "string option" string
| ErrRollback tx_error tx_error
| ErrCommit tx_error
| ErrStart tx_error

text \<open>What \<^verbatim>\<open>errors.As\<close> finds first in the tree of wrapped errors.\<close>

fun sql_state :: "tx_error \<Rightarrow> string option" where
  "sql_state (Failure s _) = s"
| "sql_state (ErrRollback r e) = (case sql_state r of Some s \<Rightarrow> Some s | None \<Rightarrow> sql_state e)"
| "sql_state (ErrCommit e) = sql_state e"
| "sql_state (ErrStart e) = sql_state e"

definition IsRetryable :: "tx_error \<Rightarrow> bool" where
  "IsRetryable e \<longleftrightarrow> sql_state e \<in> {Some ''40001'', Some ''40P01''}"

record tx_options =
  to_Isolation :: nat
  to_ReadOnly :: bool
  to_MaxRetries :: int

record 'w sql_db =
  db_BeginTx :: "tx_options \<Rightarrow> 'w \<Rightarrow> tx_error option \<times> 'w"
  db_Commit :: "'w \<Rightarrow> tx_error option \<times> 'w"
  db_Rollback :: "'w \<Rightarrow> tx_error option \<times> 'w"

datatype fn_end = FnReturned "tx_error option" | FnPanicked string

datatype tx_call = Began | Committed bool | RolledBack bool

section \<open>One attempt\<close>

text \<open>\<open>nested\<close>: the context already carries a transaction of this database.\<close>

definition executeTransaction ::
  "tx_options \<Rightarrow> 'w sql_db \<Rightarrow> bool \<Rightarrow> ('w \<Rightarrow> fn_end \<times> 'w) \<Rightarrow> 'w \<Rightarrow> fn_end \<times> 'w \<times> tx_call list" where
  "executeTransaction opts db nested fn w =
     (if nested then (case fn w of (r, w) \<Rightarrow> (r, w, []))
      else
        (case db_BeginTx db opts w of
           (Some e, w) \<Rightarrow> (FnReturned (Some (ErrStart e)), w, [])
         | (None, w) \<Rightarrow>
             (case fn w of
                (FnPanicked p, w) \<Rightarrow>
                  (case db_Rollback db w of (e, w) \<Rightarrow> (FnPanicked p, w, [Began, RolledBack (e = None)]))
              | (FnReturned (Some e), w) \<Rightarrow>
                  (case db_Rollback db w of
                     (Some r, w) \<Rightarrow> (FnReturned (Some (ErrRollback r e)), w, [Began, RolledBack False])
                   | (None, w) \<Rightarrow> (FnReturned (Some e), w, [Began, RolledBack True]))
              | (FnReturned None, w) \<Rightarrow>
                  (case db_Commit db w of
                     (Some e, w) \<Rightarrow> (FnReturned (Some (ErrCommit e)), w, [Began, Committed False])
                   | (None, w) \<Rightarrow> (FnReturned None, w, [Began, Committed True])))))"

section \<open>Repeating\<close>

text \<open>The delay after attempt number \<open>attempt\<close>; \<open>None\<close> when \<^verbatim>\<open>rand.N\<close> panics.\<close>

definition retry_delay :: "(int \<Rightarrow> int) \<Rightarrow> nat \<Rightarrow> int option" where
  "retry_delay rand_N attempt =
     (let shifted = sint (push_bit attempt (nanos (20 * millisecond)));
          d = min shifted second;
          half = sgn d * (\<bar>d\<bar> div 2)
      in if half + 1 \<le> 0 then None else Some (half + rand_N (half + 1)))"

text \<open>\<open>done k d\<close>: the context ends before the timer of \<open>d\<close> nanoseconds after attempt \<open>k\<close>.\<close>

function retry_attempts ::
  "tx_options \<Rightarrow> 'w sql_db \<Rightarrow> bool \<Rightarrow> (int \<Rightarrow> int) \<Rightarrow> (nat \<Rightarrow> int \<Rightarrow> bool) \<Rightarrow> ('w \<Rightarrow> fn_end \<times> 'w) \<Rightarrow> nat \<Rightarrow> 'w \<Rightarrow>
   fn_end \<times> 'w \<times> tx_call list list" where
  "retry_attempts opts db nested rand_N ctx_done fn attempt w =
     (case executeTransaction opts db nested fn w of
        (r, w, calls) \<Rightarrow>
          (case r of
             FnReturned (Some e) \<Rightarrow>
               if to_MaxRetries opts \<le> int attempt \<or> \<not> IsRetryable e \<or> nested then (r, w, [calls])
               else
                 (case retry_delay rand_N attempt of
                    None \<Rightarrow> (FnPanicked ''rand.N'', w, [calls])
                  | Some d \<Rightarrow>
                      if ctx_done attempt d then (r, w, [calls])
                      else (case retry_attempts opts db nested rand_N ctx_done fn (Suc attempt) w of
                              (r, w, rest) \<Rightarrow> (r, w, calls # rest)))
           | _ \<Rightarrow> (r, w, [calls])))"
  by pat_completeness auto
termination
  by (relation "measure (\<lambda>(opts, _, _, _, _, _, attempt, _). nat (to_MaxRetries opts - int attempt))") auto

declare retry_attempts.simps [simp del]

definition executeWithRetry ::
  "tx_options \<Rightarrow> 'w sql_db \<Rightarrow> bool \<Rightarrow> (int \<Rightarrow> int) \<Rightarrow> (nat \<Rightarrow> int \<Rightarrow> bool) \<Rightarrow> ('w \<Rightarrow> fn_end \<times> 'w) \<Rightarrow> 'w \<Rightarrow>
   fn_end \<times> 'w \<times> tx_call list list" where
  "executeWithRetry opts db nested rand_N ctx_done fn w = retry_attempts opts db nested rand_N ctx_done fn 0 w"

section \<open>Settlement\<close>

definition settled :: "tx_call list \<Rightarrow> bool" where
  "settled calls \<longleftrightarrow> calls \<in> {[], [Began, Committed True], [Began, Committed False], [Began, RolledBack True], [Began, RolledBack False]}"

lemma executeTransaction_settled:
  assumes "executeTransaction opts db False fn w = (r, w', calls)"
  shows "settled calls" "Committed True \<in> set calls \<longleftrightarrow> r = FnReturned None"
  using assms unfolding executeTransaction_def settled_def
  by (auto split: prod.splits option.splits fn_end.splits)

lemma retry_attempts_settled:
  assumes "retry_attempts opts db False rand_N ctx_done fn attempt w = (r, w', atts)"
  shows "atts \<noteq> [] \<and> list_all settled atts \<and> list_all (\<lambda>c. Committed True \<notin> set c) (butlast atts) \<and>
    (Committed True \<in> set (last atts) \<longleftrightarrow> r = FnReturned None) \<and>
    int (length atts) \<le> max 1 (to_MaxRetries opts - int attempt + 1)"
  using assms
proof (induction opts db False rand_N ctx_done fn attempt w arbitrary: r w' atts rule: retry_attempts.induct)
  case (1 opts db rand_N ctx_done fn attempt w)
  obtain r1 w1 calls where ex: "executeTransaction opts db False fn w = (r1, w1, calls)" by (rule prod_cases3)
  note s = executeTransaction_settled [OF ex]
  show ?case
  proof (cases "\<exists>e d. r1 = FnReturned (Some e) \<and> \<not> to_MaxRetries opts \<le> int attempt \<and> IsRetryable e \<and>
      retry_delay rand_N attempt = Some d \<and> \<not> ctx_done attempt d")
    case True
    then obtain e d where go: "r1 = FnReturned (Some e)" "\<not> to_MaxRetries opts \<le> int attempt" "IsRetryable e"
      "retry_delay rand_N attempt = Some d" "\<not> ctx_done attempt d" by blast
    obtain r2 w2 rest where rec: "retry_attempts opts db False rand_N ctx_done fn (Suc attempt) w1 = (r2, w2, rest)" by (rule prod_cases3)
    have eq: "r = r2" "atts = calls # rest" using 1(2) ex go rec by (simp_all add: retry_attempts.simps)
    have "rest \<noteq> [] \<and> list_all settled rest \<and> list_all (\<lambda>c. Committed True \<notin> set c) (butlast rest) \<and>
        (Committed True \<in> set (last rest) \<longleftrightarrow> r2 = FnReturned None) \<and>
        int (length rest) \<le> max 1 (to_MaxRetries opts - int (Suc attempt) + 1)"
      by (rule 1(1) [OF ex [symmetric] refl go(1) refl _ go(4,5) rec]) (use go in auto)
    then show ?thesis using s go eq by auto
  next
    case False
    then have "atts = [calls] \<and> (r = r1 \<or> (r = FnPanicked ''rand.N'' \<and> r1 \<noteq> FnReturned None))"
      using 1(2) ex by (auto simp: retry_attempts.simps [of opts db False] split: fn_end.splits option.splits if_splits)
    then show ?thesis using s by auto
  qed
qed

text \<open>C13. A transaction is always settled and commits at most once: whatever the database and the function do,
  every attempt that began a transaction ends with one commit or one rollback, even when the function panics;
  there are at most MaxRetries + 1 attempts; and the call returns nil exactly when the last attempt's commit
  succeeded, no earlier attempt having committed.\<close>

theorem transaction_commits_at_most_once:
  assumes "executeWithRetry opts db False rand_N ctx_done fn w = (r, w', atts)"
  shows "list_all settled atts \<and> int (length atts) \<le> max 1 (to_MaxRetries opts + 1) \<and>
    list_all (\<lambda>c. Committed True \<notin> set c) (butlast atts) \<and>
    (Committed True \<in> set (last atts) \<longleftrightarrow> r = FnReturned None)"
  using retry_attempts_settled [OF assms [unfolded executeWithRetry_def]] by simp

text \<open>A database that is busy once.\<close>

definition sample_db :: "nat sql_db" where
  "sample_db = \<lparr>db_BeginTx = (\<lambda>_ w. (None, w)), db_Commit = (\<lambda>w. (if w = 0 then Some (Failure (Some ''40001'') ''busy'') else None, Suc w)),
     db_Rollback = (\<lambda>w. (None, w))\<rparr>"

definition sample_options :: tx_options where
  "sample_options = \<lparr>to_Isolation = 0, to_ReadOnly = False, to_MaxRetries = 3\<rparr>"

lemma sint_retry: "attempt \<le> 38 \<Longrightarrow> sint (push_bit attempt (nanos (20 * millisecond))) = 20000000 * 2 ^ attempt"
proof -
  assume "attempt \<le> 38"
  then have "(2::int) ^ attempt \<le> 2 ^ 38" by (intro power_increasing) auto
  then have "20000000 * (2::int) ^ attempt < 2 ^ 63" by simp
  moreover have "- (2 ^ 63) \<le> 20000000 * (2::int) ^ attempt" by (rule order_trans [of _ 0]) simp_all
  moreover have "sint (nanos (20 * millisecond)) = 20000000" by (simp add: sint_nanos millisecond_def)
  ultimately show ?thesis unfolding sint_push_bit by (simp only: signed_take_bit_int_eq_self)
qed

theorem transaction_commits_at_most_once_witness:
  "\<exists>r w atts. executeWithRetry sample_options sample_db False (\<lambda>n. 0) (\<lambda>_ _. False) (\<lambda>w. (FnReturned None, w)) 0 = (r, w, atts) \<and>
     r = FnReturned None \<and> Committed True \<in> set (last atts) \<and> length atts = 2"
proof -
  have "retry_delay (\<lambda>n. 0) 0 = Some 10000000"
    using sint_retry [of 0] by (simp add: retry_delay_def second_def millisecond_def)
  then have "executeWithRetry sample_options sample_db False (\<lambda>n. 0) (\<lambda>_ _. False) (\<lambda>w. (FnReturned None, w)) 0 =
      (FnReturned None, 2, [[Began, Committed False], [Began, Committed True]])"
    by (simp add: executeWithRetry_def retry_attempts.simps executeTransaction_def sample_db_def sample_options_def IsRetryable_def)
  from transaction_commits_at_most_once [OF this] this show ?thesis by simp
qed

section \<open>Delays\<close>

text \<open>C38. The retry delay overflows: for the first 39 attempts it lies between 10 ms and 1 s, but after the 40th
  the doubled delay has wrapped to a negative number and computing the jitter panics.\<close>

theorem retry_delay_overflows:
  assumes "rand_ok r"
  shows "(attempt \<le> 38 \<longrightarrow> (\<exists>d. retry_delay r attempt = Some d \<and> 10 * millisecond \<le> d \<and> d \<le> second)) \<and>
    retry_delay r 39 = None"
proof (intro conjI impI)
  assume a: "attempt \<le> 38"
  let ?d = "min (20000000 * 2 ^ attempt) second"
  have d: "20000000 \<le> ?d" "?d \<le> second" by (simp_all add: second_def millisecond_def)
  have "0 \<le> r (?d div 2 + 1)" "r (?d div 2 + 1) < ?d div 2 + 1"
    using assms [unfolded rand_ok_def, rule_format, of "?d div 2 + 1"] d(1) by simp_all
  moreover have "retry_delay r attempt = Some (?d div 2 + r (?d div 2 + 1))"
  proof -
    have half: "sgn x * (\<bar>x\<bar> div 2) = x div 2" "\<not> x div 2 + 1 \<le> 0" if "20000000 \<le> x" for x :: int
      using that by simp_all
    show ?thesis unfolding retry_delay_def sint_retry [OF a] Let_def by (simp only: half [OF d(1)] if_False)
  qed
  moreover have "x div 2 + x div 2 \<le> x" for x :: int by presburger
  then have "?d div 2 + ?d div 2 \<le> second" using d(2) order_trans by blast
  moreover have "10000000 \<le> ?d div 2" using zdiv_mono1 [OF d(1), of 2] by simp
  ultimately show "\<exists>d. retry_delay r attempt = Some d \<and> 10 * millisecond \<le> d \<and> d \<le> second"
    using d(2) by (intro exI [of _ "?d div 2 + r (?d div 2 + 1)"]) (simp add: millisecond_def)
next
  have "sint (push_bit 39 (nanos (20 * millisecond))) = 20000000 * 2 ^ 39 - 2 ^ 64"
    unfolding sint_push_bit by (simp add: sint_nanos millisecond_def signed_take_bit_eq_take_bit_shift take_bit_eq_mod)
  then show "retry_delay r 39 = None" by (simp add: retry_delay_def second_def millisecond_def)
qed

theorem retry_delay_overflows_witness:
  "(\<exists>d. retry_delay (\<lambda>n. n - 1) 5 = Some d \<and> d \<le> second) \<and> retry_delay (\<lambda>n. n - 1) 39 = None"
  using retry_delay_overflows [of "\<lambda>n. n - 1" 5] by (auto simp: rand_ok_def)

end
