(* ===== verification/Client_Ip.thy ===== *)
theory Client_Ip
  imports Transport
begin

text \<open>
  Who a request comes from (\<^verbatim>\<open>netx/httpx/server_client_ip.go\<close>) and which rate-limit bucket it is
  counted in (\<^verbatim>\<open>netx/httpx/server_rate_limit.go\<close>). What the code uses of \<^verbatim>\<open>net/netip\<close> is
  written out: addresses, prefixes, their parsers and printers. SHA-256 is a parameter.
\<close>

section \<open>Addresses\<close>

text \<open>An IPv6 address carries its zone; the empty zone is none.\<close>

datatype ip_addr = V4 "32 word" | V6 "128 word" string

datatype ip_prefix = Prefix ip_addr nat

definition dec_value :: "string \<Rightarrow> int" where
  "dec_value s = foldl (\<lambda>n c. 10 * n + int (digit_value c)) 0 s"

definition octet :: "string \<Rightarrow> int option" where
  "octet s =
     (if s \<noteq> [] \<and> list_all is_digit_char s \<and> (length s = 1 \<or> hd s \<noteq> CHR ''0'') \<and> dec_value s \<le> 255
      then Some (dec_value s) else None)"

definition parse_v4 :: "string \<Rightarrow> 32 word option" where
  "parse_v4 s =
     (case map octet (split_on (CHR ''.'') s) of
        [Some a, Some b, Some c, Some d] \<Rightarrow> Some (word_of_int (((a * 256 + b) * 256 + c) * 256 + d))
      | _ \<Rightarrow> None)"

definition hex_value :: "char \<Rightarrow> int option" where
  "hex_value c =
     (let n = of_char c :: int
      in if 48 \<le> n \<and> n \<le> 57 then Some (n - 48) else if 97 \<le> n \<and> n \<le> 102 then Some (n - 87)
         else if 65 \<le> n \<and> n \<le> 70 then Some (n - 55) else None)"

definition hex_number :: "string \<Rightarrow> int" where
  "hex_number s = foldl (\<lambda>n c. 16 * n + the (hex_value c)) 0 s"

text \<open>
  The groups from group number \<open>n\<close> on, and the number of groups before the double colon once it was seen.
\<close>

function v6_groups :: "nat \<Rightarrow> nat option \<Rightarrow> string \<Rightarrow> (int list \<times> nat option) option" where
  "v6_groups n dbl s =
     (if 8 \<le> n then (if s = [] then Some ([], dbl) else None)
      else
        (let h = takeWhile (\<lambda>c. hex_value c \<noteq> None) s; rest = dropWhile (\<lambda>c. hex_value c \<noteq> None) s; g = hex_number h
         in if h = [] \<or> 4 < length h then None
            else if rest = [] then Some ([g], dbl)
            else if hd rest = CHR ''.'' then
              (if dbl = None \<and> n \<noteq> 6 \<or> 6 < n then None
               else map_option (\<lambda>w. ([uint w div 65536, uint w mod 65536], dbl)) (parse_v4 s))
            else if hd rest \<noteq> CHR '':'' \<or> tl rest = [] then None
            else if hd (tl rest) = CHR '':'' then
              (if dbl \<noteq> None then None
               else if tl (tl rest) = [] then Some ([g], Some (Suc n))
               else map_option (\<lambda>(gs, d). (g # gs, d)) (v6_groups (Suc n) (Some (Suc n)) (tl (tl rest))))
            else map_option (\<lambda>(gs, d). (g # gs, d)) (v6_groups (Suc n) dbl (tl rest))))"
  by pat_completeness auto
termination
  by (relation "measure (\<lambda>(n, _, _). 8 - n)") auto

definition groups_word :: "int list \<Rightarrow> 128 word" where
  "groups_word gs = word_of_int (foldl (\<lambda>n g. 65536 * n + g) 0 gs)"

definition expand_groups :: "int list \<times> nat option \<Rightarrow> 128 word option" where
  "expand_groups r =
     (case r of
        (gs, None) \<Rightarrow> if length gs = 8 then Some (groups_word gs) else None
      | (gs, Some k) \<Rightarrow>
          if length gs < 8 then Some (groups_word (take k gs @ replicate (8 - length gs) 0 @ drop k gs)) else None)"

definition parse_v6_address :: "string \<Rightarrow> 128 word option" where
  "parse_v6_address s =
     (if take 2 s = ''::'' then
        (if drop 2 s = [] then Some 0 else Option.bind (v6_groups 0 (Some 0) (drop 2 s)) expand_groups)
      else Option.bind (v6_groups 0 None s) expand_groups)"

definition parse_v6 :: "string \<Rightarrow> ip_addr option" where
  "parse_v6 s =
     (case cut (CHR ''%'') s of
        None \<Rightarrow> map_option (\<lambda>w. V6 w []) (parse_v6_address s)
      | Some (a, zone) \<Rightarrow> if zone = [] then None else map_option (\<lambda>w. V6 w zone) (parse_v6_address a))"

definition ParseAddr :: "string \<Rightarrow> ip_addr option" where
  "ParseAddr s =
     (case List.find (\<lambda>c. c \<in> {CHR ''.'', CHR '':'', CHR ''%''}) s of
        None \<Rightarrow> None
      | Some c \<Rightarrow>
          if c = CHR ''.'' then map_option V4 (parse_v4 s) else if c = CHR '':'' then parse_v6 s else None)"

fun Unmap :: "ip_addr \<Rightarrow> ip_addr" where
  "Unmap (V4 w) = V4 w"
| "Unmap (V6 w z) = (if drop_bit 32 w = 0xFFFF then V4 (ucast w) else V6 w z)"

fun without_zone :: "ip_addr \<Rightarrow> ip_addr" where
  "without_zone (V4 w) = V4 w"
| "without_zone (V6 w z) = V6 w []"

definition ParsePrefix :: "string \<Rightarrow> ip_prefix option" where
  "ParsePrefix s =
     (case cut (CHR ''/'') (rev s) of
        None \<Rightarrow> None
      | Some (rbits, raddr) \<Rightarrow>
          (let bits = rev rbits
           in case ParseAddr (rev raddr) of
                None \<Rightarrow> None
              | Some a \<Rightarrow>
                  if without_zone a = a \<and> bits \<noteq> [] \<and> list_all is_digit_char bits \<and> (length bits = 1 \<or> hd bits \<noteq> CHR ''0'') \<and>
                     digits_value bits \<le> (case a of V4 _ \<Rightarrow> 32 | V6 _ _ \<Rightarrow> 128)
                  then Some (Prefix a (digits_value bits)) else None))"

fun Contains :: "ip_prefix \<Rightarrow> ip_addr \<Rightarrow> bool" where
  "Contains (Prefix (V4 p) bits) (V4 w) \<longleftrightarrow> drop_bit (32 - bits) p = drop_bit (32 - bits) w"
| "Contains (Prefix (V6 p _) bits) (V6 w z) \<longleftrightarrow> z = [] \<and> drop_bit (128 - bits) p = drop_bit (128 - bits) w"
| "Contains _ _ \<longleftrightarrow> False"

section \<open>Printing\<close>

definition v4_string :: "32 word \<Rightarrow> string" where
  "v4_string w = join ''.'' (map (\<lambda>k. itoa (uint (drop_bit k w) mod 256)) [24, 16, 8, 0])"

definition hex_char :: "int \<Rightarrow> char" where
  "hex_char n = char_of (if n < 10 then 48 + n else 87 + n)"

definition group_string :: "int \<Rightarrow> string" where
  "group_string g =
     (let ds = map (\<lambda>k. g div 16 ^ k mod 16) [3, 2, 1, 0]
      in if g = 0 then ''0'' else map hex_char (dropWhile (\<lambda>d. d = 0) ds))"

definition word_groups :: "128 word \<Rightarrow> int list" where
  "word_groups w = map (\<lambda>k. uint (drop_bit (16 * k) w) mod 65536) [7, 6, 5, 4, 3, 2, 1, 0]"

text \<open>The first of the longest runs of at least two zero groups, as start and length.\<close>

definition zero_run :: "int list \<Rightarrow> nat \<times> nat" where
  "zero_run gs =
     foldl (\<lambda>(b, l) i. let k = length (takeWhile (\<lambda>g. g = 0) (drop i gs)) in if 2 \<le> k \<and> l < k then (i, k) else (b, l))
       (8, 0) [0..<8]"

definition v6_string :: "128 word \<Rightarrow> string" where
  "v6_string w =
     (if drop_bit 32 w = 0xFFFF then ''::ffff:'' @ v4_string (ucast w)
      else
        (let gs = word_groups w
         in case zero_run gs of
              (b, l) \<Rightarrow>
                if l = 0 then join '':'' (map group_string gs)
                else join '':'' (map group_string (take b gs)) @ ''::'' @ join '':'' (map group_string (drop (b + l) gs))))"

fun addr_string :: "ip_addr \<Rightarrow> string" where
  "addr_string (V4 w) = v4_string w"
| "addr_string (V6 w z) = v6_string w @ (if z = [] then [] else ''%'' @ z)"

section \<open>The client of a request\<close>

text \<open>
  Of a request: the peer, the lines of \<^verbatim>\<open>X-Forwarded-For\<close>, the first \<^verbatim>\<open>X-API-Key\<close> and the
  address the middleware stored in the context.
\<close>

record http_request =
  rq_RemoteAddr :: string
  rq_Forwarded :: "string list"
  rq_APIKey :: string
  rq_clientIP :: "ip_addr option"

definition PrivateNetworks :: "string list" where
  "PrivateNetworks =
     [''10.0.0.0/8'', ''172.16.0.0/12'', ''192.168.0.0/16'', ''100.64.0.0/10'',
      ''127.0.0.0/8'', ''169.254.0.0/16'', ''::1/128'', ''fc00::/7'', ''fe80::/10'']"

text \<open>
  \<open>None\<close> is the error of the first entry that is no CIDR. The code calls itself on \<^const>\<open>PrivateNetworks\<close>,
  all of which parse (\<open>parsePrefixes_private\<close> below).
\<close>

fun parsePrefixes :: "string list \<Rightarrow> ip_prefix list option" where
  "parsePrefixes [] = Some []"
| "parsePrefixes (c # cs) =
     (if TrimSpace c = ''private'' then map_option (\<lambda>ps. List.map_filter ParsePrefix PrivateNetworks @ ps) (parsePrefixes cs)
      else
        (case ParsePrefix (TrimSpace c) of
           None \<Rightarrow> None
         | Some p \<Rightarrow> map_option (\<lambda>ps. p # ps) (parsePrefixes cs)))"

definition peerIP :: "http_request \<Rightarrow> ip_addr option" where
  "peerIP r =
     map_option Unmap
       (ParseAddr (case SplitHostPort (rq_RemoteAddr r) of Some h \<Rightarrow> h | None \<Rightarrow> rq_RemoteAddr r))"

definition inPrefixes :: "ip_addr \<Rightarrow> ip_prefix list \<Rightarrow> bool" where
  "inPrefixes ip ps \<longleftrightarrow> list_ex (\<lambda>p. Contains p ip) ps"

definition forwarded_hops :: "http_request \<Rightarrow> string list" where
  "forwarded_hops r = concat (map (split_on (CHR '','')) (rq_Forwarded r))"

definition hop_addr :: "string \<Rightarrow> ip_addr option" where
  "hop_addr hop = map_option (\<lambda>ip. without_zone (Unmap ip)) (ParseAddr (TrimSpace hop))"

text \<open>The hops from the nearest one on.\<close>

fun walk_hops :: "ip_addr \<Rightarrow> ip_prefix list \<Rightarrow> string list \<Rightarrow> ip_addr" where
  "walk_hops peer trusted [] = peer"
| "walk_hops peer trusted (hop # hops) =
     (case hop_addr hop of
        None \<Rightarrow> peer
      | Some ip \<Rightarrow> if \<not> inPrefixes ip trusted then ip else walk_hops peer trusted hops)"

definition resolveClientIP :: "http_request \<Rightarrow> ip_prefix list \<Rightarrow> ip_addr option" where
  "resolveClientIP r trusted =
     (case peerIP r of
        None \<Rightarrow> None
      | Some peer \<Rightarrow>
          if \<not> inPrefixes peer trusted then Some peer
          else Some (walk_hops peer trusted (rev (forwarded_hops r))))"

text \<open>The request the next handler gets; \<open>None\<close> is the panic on an invalid CIDR.\<close>

definition client_ip_handler :: "ip_prefix list \<Rightarrow> http_request \<Rightarrow> http_request" where
  "client_ip_handler trusted r =
     (case resolveClientIP r trusted of Some ip \<Rightarrow> r\<lparr>rq_clientIP := Some ip\<rparr> | None \<Rightarrow> r)"

definition ClientIPMiddleware :: "string list \<Rightarrow> (http_request \<Rightarrow> http_request) option" where
  "ClientIPMiddleware trustedProxies = map_option client_ip_handler (parsePrefixes trustedProxies)"

definition clientAddr :: "http_request \<Rightarrow> ip_addr option" where
  "clientAddr r = (case rq_clientIP r of Some ip \<Rightarrow> Some ip | None \<Rightarrow> peerIP r)"

definition ClientIP :: "http_request \<Rightarrow> string" where
  "ClientIP r = (case clientAddr r of Some ip \<Rightarrow> addr_string ip | None \<Rightarrow> rq_RemoteAddr r)"

section \<open>Rate limits\<close>

definition RateLimitSubject :: "http_request \<Rightarrow> string" where
  "RateLimitSubject r =
     (case clientAddr r of
        None \<Rightarrow> rq_RemoteAddr r
      | Some (V4 w) \<Rightarrow> addr_string (V4 w)
      | Some (V6 w _) \<Rightarrow> v6_string (push_bit 64 (drop_bit 64 w)) @ ''/64'')"

record rate_plan =
  rp_Rate :: int
  rp_Burst :: int

text \<open>The plans are a map from keys, kept as its list of entries. The backend is an argument of the handler.\<close>

record rate_config =
  rl_Plans :: "(string \<times> rate_plan) list"
  rl_IsKnownAPIKey :: "(string \<Rightarrow> bool) option"
  rl_Default :: rate_plan
  rl_KeyPrefix :: string
  rl_FailClosed :: bool

definition plan_valid :: "rate_plan \<Rightarrow> bool" where
  "plan_valid p \<longleftrightarrow> \<not> (rp_Rate p \<le> 0 \<or> rp_Burst p \<le> 0)"

definition config_valid :: "rate_config \<Rightarrow> bool" where
  "config_valid cfg \<longleftrightarrow> plan_valid (rl_Default cfg) \<and> list_all (\<lambda>(_, p). plan_valid p) (rl_Plans cfg)"

definition rate_bucket :: "(string \<Rightarrow> string) \<Rightarrow> rate_config \<Rightarrow> string \<Rightarrow> http_request \<Rightarrow> rate_plan \<times> string" where
  "rate_bucket fingerprint cfg keyPrefix r =
     (let apiKey = rq_APIKey r;
          (plan, known) =
            (case map_of (rl_Plans cfg) apiKey of
               Some p \<Rightarrow> (p, True)
             | None \<Rightarrow> (rl_Default cfg, case rl_IsKnownAPIKey cfg of None \<Rightarrow> False | Some f \<Rightarrow> f apiKey))
      in if apiKey = [] \<or> \<not> known then (rl_Default cfg, keyPrefix @ '':'' @ RateLimitSubject r)
         else (plan, keyPrefix @ '':key:'' @ fingerprint apiKey))"

text \<open>
  The answer of the backend, with its two durations in nanoseconds, and what the handler does: pass the request on,
  or refuse it with a status and a body. Both carry the headers set.
\<close>

record rate_result =
  rr_Allowed :: int
  rr_Remaining :: int
  rr_RetryAfter :: int
  rr_ResetAfter :: int

datatype limited = Passed "(string \<times> string) list" | Refused int string "(string \<times> string) list"

definition setRateLimitHeaders :: "int \<Rightarrow> rate_plan \<Rightarrow> rate_result \<Rightarrow> (string \<times> string) list" where
  "setRateLimitHeaders now plan res =
     [(''X-RateLimit-Limit'', itoa (rp_Rate plan)), (''X-RateLimit-Remaining'', itoa (rr_Remaining res)),
      (''X-RateLimit-Reset'', itoa ((now + rr_ResetAfter res) div 1000000000))]"

text \<open>
  \<open>None\<close> is the panic on an invalid configuration. \<open>allow\<close> is the backend on its own state and \<open>now\<close> the clock
  in nanoseconds; \<^verbatim>\<open>RetryAfter/time.Second\<close> truncates towards zero.
\<close>

definition NewRedisRateLimiter ::
  "(string \<Rightarrow> string) \<Rightarrow> (string \<Rightarrow> rate_plan \<Rightarrow> 'b \<Rightarrow> (string + rate_result) \<times> 'b) \<Rightarrow> rate_config \<Rightarrow>
   (int \<Rightarrow> http_request \<Rightarrow> 'b \<Rightarrow> limited \<times> 'b) option" where
  "NewRedisRateLimiter fingerprint allow cfg =
     (if \<not> config_valid cfg then None
      else
        (let keyPrefix = (if rl_KeyPrefix cfg = [] then ''rl'' else rl_KeyPrefix cfg)
         in Some (\<lambda>now r b.
              case rate_bucket fingerprint cfg keyPrefix r of
                (plan, key) \<Rightarrow>
                  (case allow key plan b of
                     (Inl _, b) \<Rightarrow>
                       (if rl_FailClosed cfg then Refused 503 ''rate limiter unavailable'' [(''Retry-After'', ''1'')] else Passed [], b)
                   | (Inr res, b) \<Rightarrow>
                       (let hs = setRateLimitHeaders now plan res;
                            secs = sgn (rr_RetryAfter res) * (\<bar>rr_RetryAfter res\<bar> div 1000000000)
                        in if rr_Allowed res = 0
                           then (Refused 429 ''rate limit exceeded'' (hs @ [(''Retry-After'', itoa (secs + 1))]), b)
                           else (Passed hs, b))))))"

section \<open>Lemmas\<close>

text \<open>Trimming ASCII text, by bytes.\<close>

definition ascii_space :: "char \<Rightarrow> bool" where
  "ascii_space c \<longleftrightarrow> c = CHR '' '' \<or> 9 \<le> (of_char c :: nat) \<and> (of_char c :: nat) \<le> 13"

lemma is_space_ascii: "(of_char c :: nat) < 128 \<Longrightarrow> is_space (of_char c) \<longleftrightarrow> ascii_space c"
  using of_char_eq_iff [of c "CHR '' ''", where 'a = nat] by (auto simp: is_space_def ascii_space_def)

lemma dropWhile_space_ascii:
  "ascii s \<Longrightarrow> dropWhile is_space (map of_char s) = map of_char (dropWhile ascii_space s)"
  by (induction s) (simp_all add: is_space_ascii)

lemma ascii_rev_dropWhile [simp]: "ascii s \<Longrightarrow> ascii (dropWhile P s)" "ascii (rev s) \<longleftrightarrow> ascii s"
  by (auto simp: ascii_def list_all_iff dest: set_dropWhileD)

lemma TrimSpace_ascii: "ascii s \<Longrightarrow> TrimSpace s = rev (dropWhile ascii_space (rev (dropWhile ascii_space s)))"
  by (simp add: TrimSpace_def trim_runes_def runes_ascii dropWhile_space_ascii encode_runes_ascii rev_map)

lemma parsePrefixes_plain:
  "list_all (\<lambda>c. TrimSpace c = c \<and> c \<noteq> ''private'' \<and> ParsePrefix c \<noteq> None) cs \<Longrightarrow>
   parsePrefixes cs = Some (List.map_filter ParsePrefix cs)"
  by (induction cs) (auto simp: List.map_filter_simps)

lemma private_trimmed: "list_all (\<lambda>c. TrimSpace c = c) PrivateNetworks"
  by (simp add: PrivateNetworks_def TrimSpace_ascii ascii_def ascii_space_def)

lemma private_parse: "list_all (\<lambda>c. c \<noteq> ''private'' \<and> ParsePrefix c \<noteq> None) PrivateNetworks"
  by code_simp

lemma parsePrefixes_private: "parsePrefixes PrivateNetworks = Some (List.map_filter ParsePrefix PrivateNetworks)"
  using private_trimmed private_parse by (intro parsePrefixes_plain) (auto simp: list_all_iff)

lemma walk_hops_client:
  assumes "walk_hops peer trusted hops = ip" and "ip \<noteq> peer"
  shows "\<exists>near hop far. hops = near @ hop # far \<and> hop_addr hop = Some ip \<and> \<not> inPrefixes ip trusted \<and>
    list_all (\<lambda>h. \<exists>a. hop_addr h = Some a \<and> inPrefixes a trusted) near"
  using assms
proof (induction hops)
  case (Cons h hs)
  then obtain a where a: "hop_addr h = Some a" by (cases "hop_addr h") auto
  show ?case
  proof (cases "inPrefixes a trusted")
    case True
    then obtain near hop far where "hs = near @ hop # far" "hop_addr hop = Some ip" "\<not> inPrefixes ip trusted"
      "list_all (\<lambda>h. \<exists>a. hop_addr h = Some a \<and> inPrefixes a trusted) near"
      using Cons a by auto
    then show ?thesis using True a by (intro exI [of _ "h # near"] exI [of _ hop] exI [of _ far]) simp
  next
    case False
    then show ?thesis using Cons.prems a by (intro exI [of _ "[]"] exI [of _ h] exI [of _ hs]) simp
  qed
qed simp

lemma walk_hops_stops:
  assumes "list_all (\<lambda>h. \<exists>a. hop_addr h = Some a \<and> inPrefixes a trusted) near"
    and "hop_addr hop = Some ip" and "\<not> inPrefixes ip trusted"
  shows "walk_hops peer trusted (near @ hop # far) = ip"
  using assms by (induction near) auto

lemma peerIP_cong: "rq_RemoteAddr r' = rq_RemoteAddr r \<Longrightarrow> peerIP r' = peerIP r"
  unfolding peerIP_def by (erule ssubst) (rule refl)

lemma Contains_zoned: "z \<noteq> [] \<Longrightarrow> \<not> Contains p (V6 w z)"
  by (cases p; cases "case p of Prefix a _ \<Rightarrow> a") auto

lemma inPrefixes_zoned: "z \<noteq> [] \<Longrightarrow> \<not> inPrefixes (V6 w z) ps"
  by (simp add: inPrefixes_def list_ex_iff Contains_zoned)

lemma resolve_untrusted: "peerIP r = Some peer \<Longrightarrow> \<not> inPrefixes peer ps \<Longrightarrow> resolveClientIP r ps = Some peer"
  by (simp add: resolveClientIP_def)

definition unknown_key :: "rate_config \<Rightarrow> string \<Rightarrow> bool" where
  "unknown_key cfg k \<longleftrightarrow> map_of (rl_Plans cfg) k = None \<and> (case rl_IsKnownAPIKey cfg of None \<Rightarrow> True | Some f \<Rightarrow> \<not> f k)"

lemma rate_bucket_unknown:
  "unknown_key cfg (rq_APIKey r) \<Longrightarrow> rate_bucket fp cfg kp r = (rl_Default cfg, kp @ '':'' @ RateLimitSubject r)"
  by (simp add: unknown_key_def rate_bucket_def split: option.splits)

lemma subject_untrusted:
  assumes "peerIP r = Some (V6 w z)" and "\<not> inPrefixes (V6 w z) ps"
  shows "RateLimitSubject (client_ip_handler ps r) = v6_string (push_bit 64 (drop_bit 64 w)) @ ''/64''"
  by (simp add: RateLimitSubject_def clientAddr_def client_ip_handler_def resolve_untrusted [OF assms])

lemma middleware_keeps_key [simp]: "rq_APIKey (client_ip_handler ps r) = rq_APIKey r"
  by (simp add: client_ip_handler_def split: option.split)

section \<open>Properties\<close>

text \<open>C12.
  A client address other than the TCP peer is only reported for a trusted peer. It is then the nearest forwarded hop
  that is no trusted proxy, and everything to the left of it, which the client may have written, has no influence.
\<close>

theorem forwarded_client_cannot_be_spoofed:
  assumes "peerIP r = Some peer" and "resolveClientIP r trusted = Some ip" and "ip \<noteq> peer"
  shows "inPrefixes peer trusted \<and> \<not> inPrefixes ip trusted \<and>
    (\<exists>far hop near. forwarded_hops r = far @ hop # near \<and> hop_addr hop = Some ip \<and>
       list_all (\<lambda>h. \<exists>a. hop_addr h = Some a \<and> inPrefixes a trusted) near \<and>
       (\<forall>r' far'. rq_RemoteAddr r' = rq_RemoteAddr r \<longrightarrow> forwarded_hops r' = far' @ hop # near \<longrightarrow>
          resolveClientIP r' trusted = Some ip))"
proof -
  have t: "inPrefixes peer trusted" and w: "walk_hops peer trusted (rev (forwarded_hops r)) = ip"
    using assms by (auto simp: resolveClientIP_def split: if_splits)
  obtain near hop far where h: "rev (forwarded_hops r) = near @ hop # far" "hop_addr hop = Some ip" "\<not> inPrefixes ip trusted"
      "list_all (\<lambda>h. \<exists>a. hop_addr h = Some a \<and> inPrefixes a trusted) near"
    using walk_hops_client [OF w assms(3)] by blast
  have eq: "forwarded_hops r = rev far @ hop # rev near" using arg_cong [OF h(1), of rev] by simp
  have all: "list_all (\<lambda>h. \<exists>a. hop_addr h = Some a \<and> inPrefixes a trusted) (rev near)" using h(4) by simp
  have "resolveClientIP r' trusted = Some ip"
    if "rq_RemoteAddr r' = rq_RemoteAddr r" "forwarded_hops r' = far' @ hop # rev near" for r' far'
    using that t h assms(1) walk_hops_stops [OF h(4,2,3)] by (simp add: resolveClientIP_def peerIP_cong [OF that(1)])
  then show ?thesis using t h(2,3) eq all by blast
qed

definition proxied :: http_request where
  "proxied = \<lparr>rq_RemoteAddr = ''10.0.0.7:443'', rq_Forwarded = [''1.1.1.1, 8.8.4.4'', ''10.0.0.8''],
     rq_APIKey = ''guess'', rq_clientIP = None\<rparr>"

lemma proxied_trims:
  "TrimSpace '' 8.8.4.4'' = ''8.8.4.4''" "TrimSpace ''10.0.0.8'' = ''10.0.0.8''"
  by (simp_all add: TrimSpace_ascii ascii_space_def)

lemma proxied_parses:
  "peerIP proxied = Some (V4 0x0A000007)"
  "forwarded_hops proxied = [''1.1.1.1'', '' 8.8.4.4'', ''10.0.0.8'']"
  "ParseAddr ''8.8.4.4'' = Some (V4 0x08080404)" "ParseAddr ''10.0.0.8'' = Some (V4 0x0A000008)"
  "inPrefixes (V4 0x0A000007) [Prefix (V4 0x0A000000) 8]" "inPrefixes (V4 0x0A000008) [Prefix (V4 0x0A000000) 8]"
  "\<not> inPrefixes (V4 0x08080404) [Prefix (V4 0x0A000000) 8]"
  by code_simp+

lemma proxied_resolves:
  "peerIP proxied = Some (V4 0x0A000007)"
  "resolveClientIP proxied [Prefix (V4 0x0A000000) 8] = Some (V4 0x08080404)"
  "V4 0x08080404 \<noteq> V4 0x0A000007"
  by (simp_all add: resolveClientIP_def hop_addr_def proxied_parses proxied_trims)

theorem forwarded_client_cannot_be_spoofed_witness:
  "inPrefixes (V4 0x0A000007) [Prefix (V4 0x0A000000) 8] \<and> \<not> inPrefixes (V4 0x08080404) [Prefix (V4 0x0A000000) 8]"
  using forwarded_client_cannot_be_spoofed [OF proxied_resolves] by simp

text \<open>C14.
  Rotating addresses inside one IPv6 /64, inventing API keys and forging forwarded headers change nothing for a client
  that is no trusted proxy: the limiter asks the backend for the same bucket and gives the same answer.
\<close>

theorem rate_limit_cannot_be_dodged:
  assumes "NewRedisRateLimiter fp allow cfg = Some limiter"
    and "ClientIPMiddleware proxies = Some middleware" and "parsePrefixes proxies = Some ps"
    and "peerIP r = Some (V6 a y)" and "\<not> inPrefixes (V6 a y) ps" and "unknown_key cfg (rq_APIKey r)"
    and "peerIP r' = Some (V6 b z)" and "\<not> inPrefixes (V6 b z) ps" and "unknown_key cfg (rq_APIKey r')"
    and "drop_bit 64 a = drop_bit 64 b"
  shows "limiter now (middleware r) st = limiter now (middleware r') st"
proof -
  have "rate_bucket fp cfg kp (client_ip_handler ps r) = rate_bucket fp cfg kp (client_ip_handler ps r')" for kp
    using assms by (simp add: rate_bucket_unknown subject_untrusted)
  moreover have "middleware = client_ip_handler ps" using assms(2,3) by (simp add: ClientIPMiddleware_def)
  ultimately show ?thesis using assms(1) by (auto simp: NewRedisRateLimiter_def Let_def split: if_splits)
qed

definition plain_config :: rate_config where
  "plain_config = \<lparr>rl_Plans = [(''gold'', \<lparr>rp_Rate = 100, rp_Burst = 200\<rparr>)], rl_IsKnownAPIKey = None,
     rl_Default = \<lparr>rp_Rate = 5, rp_Burst = 10\<rparr>, rl_KeyPrefix = [], rl_FailClosed = False\<rparr>"

text \<open>A backend that admits the first \<open>n\<close> requests of each bucket, counted in a list of keys.\<close>

definition counting :: "nat \<Rightarrow> string \<Rightarrow> rate_plan \<Rightarrow> string list \<Rightarrow> (string + rate_result) \<times> string list" where
  "counting n key plan seen =
     (Inr \<lparr>rr_Allowed = (if count_list seen key < n then 1 else 0), rr_Remaining = 0, rr_RetryAfter = 0, rr_ResetAfter = 0\<rparr>,
      key # seen)"

definition direct :: "string \<Rightarrow> string \<Rightarrow> http_request" where
  "direct peer key = \<lparr>rq_RemoteAddr = peer, rq_Forwarded = [''9.9.9.9''], rq_APIKey = key, rq_clientIP = None\<rparr>"

lemma direct_facts:
  "NewRedisRateLimiter id (counting 1) plain_config = Some (the (NewRedisRateLimiter id (counting 1) plain_config))"
  "ClientIPMiddleware [] = Some (client_ip_handler [])"
  "parsePrefixes [] = Some []"
  "peerIP (direct ''[2001:db8::1]:9'' ''k1'') = Some (V6 0x20010DB8000000000000000000000001 [])"
  "\<not> inPrefixes (V6 0x20010DB8000000000000000000000001 []) []"
  "unknown_key plain_config (rq_APIKey (direct ''[2001:db8::1]:9'' ''k1''))"
  "peerIP (direct ''[2001:db8::ffff:2]:9'' ''k2'') = Some (V6 0x20010DB80000000000000000FFFF0002 [])"
  "\<not> inPrefixes (V6 0x20010DB80000000000000000FFFF0002 []) []"
  "unknown_key plain_config (rq_APIKey (direct ''[2001:db8::ffff:2]:9'' ''k2''))"
  "drop_bit 64 (0x20010DB8000000000000000000000001 :: 128 word) = drop_bit 64 0x20010DB80000000000000000FFFF0002"
proof -
  show "NewRedisRateLimiter id (counting 1) plain_config = Some (the (NewRedisRateLimiter id (counting 1) plain_config))"
    by (simp add: NewRedisRateLimiter_def config_valid_def plan_valid_def plain_config_def Let_def)
  show "ClientIPMiddleware [] = Some (client_ip_handler [])" by (simp add: ClientIPMiddleware_def)
qed code_simp+

theorem rate_limit_cannot_be_dodged_witness:
  "the (NewRedisRateLimiter id (counting 1) plain_config) 0 (client_ip_handler [] (direct ''[2001:db8::1]:9'' ''k1'')) [] =
   the (NewRedisRateLimiter id (counting 1) plain_config) 0 (client_ip_handler [] (direct ''[2001:db8::ffff:2]:9'' ''k2'')) []"
  by (rule rate_limit_cannot_be_dodged [OF direct_facts])

text \<open>A link-local peer has a zone in its remote address, which \<^const>\<open>peerIP\<close> keeps, and no prefix contains a zoned
  address. So such a proxy is never trusted, whatever is configured: the forwarded header is ignored and the proxy is
  taken for the client, although \<^verbatim>\<open>PrivateNetworks\<close> lists the link-local range.
\<close>

theorem link_local_proxy_never_trusted:
  assumes "peerIP r = Some (V6 w zone)" and "zone \<noteq> []"
  shows "resolveClientIP r trusted = Some (V6 w zone)"
  using assms by (simp add: resolve_untrusted inPrefixes_zoned)

lemma private_prefixes: "the (parsePrefixes [''private'']) = List.map_filter ParsePrefix PrivateNetworks"
  by (simp add: TrimSpace_ascii ascii_space_def)

lemma link_local_facts:
  "peerIP (direct ''[fe80::1%eth0]:9'' []) = Some (V6 0xFE800000000000000000000000000001 ''eth0'')"
  "''eth0'' \<noteq> []"
  "inPrefixes (V6 0xFE800000000000000000000000000001 []) (the (parsePrefixes [''private'']))"
  unfolding private_prefixes by code_simp+

theorem link_local_proxy_never_trusted_witness:
  "resolveClientIP (direct ''[fe80::1%eth0]:9'' []) (the (parsePrefixes [''private''])) =
     Some (V6 0xFE800000000000000000000000000001 ''eth0'') \<and>
   inPrefixes (V6 0xFE800000000000000000000000000001 []) (the (parsePrefixes [''private'']))"
  using link_local_proxy_never_trusted [OF link_local_facts(1,2)] link_local_facts(3) by simp

end
