(* ===== verification/Safe_Client.thy ===== *)
theory Safe_Client
  imports Client_Ip
begin

text \<open>
  The HTTP client for URLs configured by someone else (\<^verbatim>\<open>netx/httpx/client_safe.go\<close>): the check of every
  address it connects to, the cap on response bodies and the redirects it follows
  (\<^verbatim>\<open>sameOriginRedirect\<close> of \<^verbatim>\<open>netx/httpx/client.go\<close>). The predicates of \<^verbatim>\<open>net/netip\<close> are written out.
  The dialer, TLS and the transport behind the guard are parameters.
\<close>

section \<open>Addresses with ports\<close>

definition ParseAddrPort :: "string \<Rightarrow> (ip_addr \<times> int) option" where
  "ParseAddrPort s =
     (case cut (CHR '':'') (rev s) of
        None \<Rightarrow> None
      | Some (rport, rip) \<Rightarrow>
          (let port = rev rport; ip = rev rip; ip6 = (hd ip = CHR ''[''); host = (if ip6 then butlast (tl ip) else ip)
           in if ip = [] \<or> port = [] \<or> ip6 \<and> (length ip < 2 \<or> last ip \<noteq> CHR '']'') then None
              else if \<not> list_all is_digit_char port \<or> 65535 < dec_value port then None
              else
                (case ParseAddr host of
                   None \<Rightarrow> None
                 | Some (V4 w) \<Rightarrow> if ip6 then None else Some (V4 w, dec_value port)
                 | Some (V6 w z) \<Rightarrow> if ip6 then Some (V6 w z, dec_value port) else None)))"

text \<open>
  The classes of addresses. \<^verbatim>\<open>IsGlobalUnicast\<close> compares with the unspecified address, which has no zone, so
  the unspecified address with a zone is not excluded.
\<close>

fun IsLoopback :: "ip_addr \<Rightarrow> bool" where
  "IsLoopback (V4 w) \<longleftrightarrow> drop_bit 24 w = 127"
| "IsLoopback (V6 w z) \<longleftrightarrow> (if drop_bit 32 w = 0xFFFF then drop_bit 24 (ucast w :: 32 word) = 127 else w = 1)"

fun IsMulticast :: "ip_addr \<Rightarrow> bool" where
  "IsMulticast (V4 w) \<longleftrightarrow> drop_bit 28 w = 0xE"
| "IsMulticast (V6 w z) \<longleftrightarrow> (if drop_bit 32 w = 0xFFFF then drop_bit 28 (ucast w :: 32 word) = 0xE else drop_bit 120 w = 0xFF)"

fun IsLinkLocalUnicast :: "ip_addr \<Rightarrow> bool" where
  "IsLinkLocalUnicast (V4 w) \<longleftrightarrow> drop_bit 16 w = 0xA9FE"
| "IsLinkLocalUnicast (V6 w z) \<longleftrightarrow>
     (if drop_bit 32 w = 0xFFFF then drop_bit 16 (ucast w :: 32 word) = 0xA9FE else drop_bit 118 w = 0x3FA)"

fun IsPrivate :: "ip_addr \<Rightarrow> bool" where
  "IsPrivate (V4 w) \<longleftrightarrow> drop_bit 24 w = 10 \<or> drop_bit 20 w = 0xAC1 \<or> drop_bit 16 w = 0xC0A8"
| "IsPrivate (V6 w z) \<longleftrightarrow>
     (if drop_bit 32 w = 0xFFFF then
        (let v = ucast w :: 32 word in drop_bit 24 v = 10 \<or> drop_bit 20 v = 0xAC1 \<or> drop_bit 16 v = 0xC0A8)
      else drop_bit 121 w = 0x7E)"

definition IsGlobalUnicast :: "ip_addr \<Rightarrow> bool" where
  "IsGlobalUnicast a \<longleftrightarrow>
     Unmap a \<notin> {V4 0, V4 0xFFFFFFFF, V6 0 []} \<and> \<not> IsLoopback a \<and> \<not> IsMulticast a \<and> \<not> IsLinkLocalUnicast a"

section \<open>The guard\<close>

text \<open>The ranges are parsed at start, where one that does not parse panics (all do, \<open>blocked_parse\<close> below).\<close>

definition blockedRanges :: "string list" where
  "blockedRanges =
     [''0.0.0.0/8'', ''100.64.0.0/10'', ''192.0.0.0/24'', ''192.0.2.0/24'', ''198.18.0.0/15'', ''198.51.100.0/24'',
      ''203.0.113.0/24'', ''240.0.0.0/4'', ''64:ff9b::/96'', ''64:ff9b:1::/48'', ''2001:db8::/32'', ''fec0::/10'']"

definition blockedPrefixes :: "ip_prefix list" where
  "blockedPrefixes = List.map_filter ParsePrefix blockedRanges"

definition isBlocked :: "ip_addr \<Rightarrow> bool" where
  "isBlocked addr =
     (let addr = Unmap addr
      in \<not> IsGlobalUnicast addr \<or> IsPrivate addr \<or> list_ex (\<lambda>p. Contains p addr) blockedPrefixes)"

text \<open>\<open>True\<close>: the connection may be made.\<close>

definition destinationGuard :: "ip_prefix list \<Rightarrow> string \<Rightarrow> bool" where
  "destinationGuard allowed address =
     (case ParseAddrPort address of
        None \<Rightarrow> False
      | Some (ip, _) \<Rightarrow> (let addr = Unmap ip in list_ex (\<lambda>p. Contains p addr) allowed \<or> \<not> isBlocked addr))"

section \<open>Response bodies\<close>

text \<open>
  A reader of the standard library is a function from a buffer length and its state to the bytes read, an error and the
  next state.
\<close>

datatype read_error = EOF | ErrResponseTooLarge | ReadFailed string


record 'r cappedBody =
  cb_rc :: 'r
  cb_left :: int


section \<open>Requests and redirects\<close>

text \<open>Of a parsed URL: what the code reads. \<open>canon\<close> is the representative of a rune under Unicode simple folding.\<close>

record safe_url =
  su_Scheme :: string
  su_Hostname :: string
  su_Port :: string

definition EqualFold :: "(rune \<Rightarrow> rune) \<Rightarrow> string \<Rightarrow> string \<Rightarrow> bool" where
  "EqualFold canon s t \<longleftrightarrow> map canon (runes s) = map canon (runes t)"

datatype redirect_error = StoppedAfter int | ErrRedirectBlocked

definition sameOriginRedirect :: "(rune \<Rightarrow> rune) \<Rightarrow> safe_url \<Rightarrow> safe_url list \<Rightarrow> redirect_error option" where
  "sameOriginRedirect canon req via =
     (if 10 \<le> length via then Some (StoppedAfter 10)
      else
        (let from = hd via; upgrade = (su_Scheme from = ''http'' \<and> su_Scheme req = ''https'')
         in if \<not> EqualFold canon (su_Hostname from) (su_Hostname req) \<or>
               su_Scheme req \<noteq> su_Scheme from \<and> \<not> upgrade \<or> su_Port req \<noteq> su_Port from \<and> \<not> upgrade
            then Some ErrRedirectBlocked else None))"

definition safeRedirect :: "(rune \<Rightarrow> rune) \<Rightarrow> int \<Rightarrow> safe_url \<Rightarrow> safe_url list \<Rightarrow> redirect_error option" where
  "safeRedirect canon mx req via =
     (if mx < 0 \<or> mx < int (length via) then Some (StoppedAfter (int (length via))) else sameOriginRedirect canon req via)"

text \<open>\<open>Inl None\<close> is the refused scheme, \<open>Inl (Some e)\<close> an error of the transport behind.\<close>

definition safe_RoundTrip ::
  "(safe_url \<Rightarrow> 'e + 'r) \<Rightarrow> int \<Rightarrow> safe_url \<Rightarrow> 'e option + 'r cappedBody" where
  "safe_RoundTrip next maxBody url =
     (if su_Scheme url \<noteq> ''https'' then Inl None
      else (case next url of Inl e \<Rightarrow> Inl (Some e) | Inr rc \<Rightarrow> Inr \<lparr>cb_rc = rc, cb_left = maxBody\<rparr>))"

record safe_config =
  sc_Timeout :: int
  sc_MaxResponseBytes :: int
  sc_MaxRedirects :: int

definition DefaultMaxResponseBytes :: int where
  "DefaultMaxResponseBytes = 10 * 2 ^ 20"

text \<open>The first lines of \<^verbatim>\<open>NewSafeClient\<close>.\<close>

definition safe_defaults :: "safe_config \<Rightarrow> safe_config" where
  "safe_defaults cfg =
     \<lparr>sc_Timeout = (if sc_Timeout cfg \<le> 0 then 10000000000 else sc_Timeout cfg),
      sc_MaxResponseBytes = (if sc_MaxResponseBytes cfg \<le> 0 then DefaultMaxResponseBytes else sc_MaxResponseBytes cfg),
      sc_MaxRedirects = (if sc_MaxRedirects cfg = 0 then 3 else sc_MaxRedirects cfg)\<rparr>"

section \<open>Lemmas\<close>

lemma blocked_parse: "list_all (\<lambda>r. ParsePrefix r \<noteq> None) blockedRanges"
  by code_simp

lemma blockedPrefixes_eq:
  "blockedPrefixes =
     [Prefix (V4 0) 8, Prefix (V4 0x64400000) 10, Prefix (V4 0xC0000000) 24, Prefix (V4 0xC0000200) 24,
      Prefix (V4 0xC6120000) 15, Prefix (V4 0xC6336400) 24, Prefix (V4 0xCB007100) 24, Prefix (V4 0xF0000000) 4,
      Prefix (V6 0x0064FF9B000000000000000000000000 []) 96, Prefix (V6 0x0064FF9B000100000000000000000000 []) 48,
      Prefix (V6 0x20010DB8000000000000000000000000 []) 32, Prefix (V6 0xFEC00000000000000000000000000000 []) 10]"
  by code_simp

definition internal_ranges :: "string list" where
  "internal_ranges = PrivateNetworks @ [''0.0.0.0/8'', ''224.0.0.0/4'', ''240.0.0.0/4'', ''::/128'', ''ff00::/8'', ''64:ff9b::/96'']"

definition internal_networks :: "ip_prefix list" where
  "internal_networks = List.map_filter ParsePrefix internal_ranges"

lemma internal_networks_eq:
  "internal_networks =
     [Prefix (V4 0x0A000000) 8, Prefix (V4 0xAC100000) 12, Prefix (V4 0xC0A80000) 16, Prefix (V4 0x64400000) 10,
      Prefix (V4 0x7F000000) 8, Prefix (V4 0xA9FE0000) 16, Prefix (V6 1 []) 128,
      Prefix (V6 0xFC000000000000000000000000000000 []) 7, Prefix (V6 0xFE800000000000000000000000000000 []) 10,
      Prefix (V4 0) 8, Prefix (V4 0xE0000000) 4, Prefix (V4 0xF0000000) 4, Prefix (V6 0 []) 128,
      Prefix (V6 0xFF000000000000000000000000000000 []) 8, Prefix (V6 0x0064FF9B000000000000000000000000 []) 96]"
  by code_simp

lemma Unmap_Unmap [simp]: "Unmap (Unmap a) = Unmap a"
  by (cases a) auto

lemma network_bits:
  "drop_bit 24 (0x0A000000 :: 32 word) = 10" "drop_bit 20 (0xAC100000 :: 32 word) = 0xAC1"
  "drop_bit 16 (0xC0A80000 :: 32 word) = 0xC0A8" "drop_bit 24 (0x7F000000 :: 32 word) = 127"
  "drop_bit 16 (0xA9FE0000 :: 32 word) = 0xA9FE" "drop_bit 28 (0xE0000000 :: 32 word) = 0xE"
  "drop_bit 121 (0xFC000000000000000000000000000000 :: 128 word) = 0x7E"
  "drop_bit 118 (0xFE800000000000000000000000000000 :: 128 word) = 0x3FA"
  "drop_bit 120 (0xFF000000000000000000000000000000 :: 128 word) = 0xFF"
  by code_simp+

lemma internal_blocked_V4: "list_ex (\<lambda>p. Contains p (V4 w)) internal_networks \<Longrightarrow> isBlocked (V4 w)"
  by (simp add: internal_networks_eq isBlocked_def blockedPrefixes_eq IsGlobalUnicast_def network_bits) metis

lemma internal_blocked_V6:
  assumes "list_ex (\<lambda>p. Contains p (V6 w [])) internal_networks" and "drop_bit 32 w \<noteq> 0xFFFF"
  shows "isBlocked (V6 w [])"
  using assms by (simp add: internal_networks_eq isBlocked_def blockedPrefixes_eq IsGlobalUnicast_def network_bits) metis

lemma internal_blocked:
  assumes "list_ex (\<lambda>p. Contains p (Unmap a)) internal_networks"
  shows "isBlocked (Unmap a)"
proof (cases "Unmap a")
  case (V4 w)
  then show ?thesis using assms internal_blocked_V4 by simp
next
  case (V6 w z)
  then have "drop_bit 32 w \<noteq> 0xFFFF" by (cases a) (auto split: if_splits)
  moreover have "z = []" using assms V6 by (auto simp: list_ex_iff dest: Contains_zoned)
  ultimately show ?thesis using assms V6 internal_blocked_V6 by simp
qed





text \<open>The requests of one call: the first one and the redirects that were followed.\<close>

inductive redirect_chain :: "(rune \<Rightarrow> rune) \<Rightarrow> int \<Rightarrow> safe_url list \<Rightarrow> bool" for canon mx where
  chain_start: "redirect_chain canon mx [url]"
| chain_step: "redirect_chain canon mx via \<Longrightarrow> safeRedirect canon mx req via = None \<Longrightarrow> redirect_chain canon mx (via @ [req])"

lemma safeRedirect_None:
  "safeRedirect canon mx req via = None \<longleftrightarrow>
     int (length via) \<le> mx \<and> length via < 10 \<and> EqualFold canon (su_Hostname (hd via)) (su_Hostname req) \<and>
     (su_Scheme req = su_Scheme (hd via) \<and> su_Port req = su_Port (hd via) \<or>
      su_Scheme (hd via) = ''http'' \<and> su_Scheme req = ''https'')"
  by (auto simp: safeRedirect_def sameOriginRedirect_def Let_def)

section \<open>Properties\<close>

text \<open>C17.
  A connection that the guard admits without exceptions, to an address without a zone, goes to no private, loopback,
  link-local, shared, multicast, reserved or NAT64 network, IPv4-mapped addresses included.
\<close>

theorem guard_admits_no_internal_address:
  assumes "destinationGuard [] address" and "ParseAddrPort address = Some (ip, port)"
  shows "list_all (\<lambda>p. \<not> Contains p (Unmap ip)) internal_networks"
  using assms internal_blocked [of ip] by (auto simp: destinationGuard_def Let_def list_ex_iff list_all_iff)

lemma public_facts:
  "destinationGuard [] ''[::ffff:8.8.4.4]:443''"
  "ParseAddrPort ''[::ffff:8.8.4.4]:443'' = Some (V6 0xFFFF08080404 [], 443)"
  "\<not> destinationGuard [] ''[::ffff:127.0.0.1]:443''"
  by code_simp+

theorem guard_admits_no_internal_address_witness:
  "list_all (\<lambda>p. \<not> Contains p (Unmap (V6 0xFFFF08080404 []))) internal_networks \<and> \<not> destinationGuard [] ''[::ffff:127.0.0.1]:443''"
  using guard_admits_no_internal_address [OF public_facts(1,2)] public_facts(3) by simp

lemma nat64_bits:
  "drop_bit 86 (drop_bit 32 (0x0064FF9B000000000000000000000000 :: 128 word)) = 1"
  "drop_bit 88 (drop_bit 32 (0x0064FF9B000000000000000000000000 :: 128 word)) = 0"
  "drop_bit 89 (drop_bit 32 (0x0064FF9B000000000000000000000000 :: 128 word)) = 0"
  "drop_bit 32 (0x0064FF9B000000000000000000000000 :: 128 word) \<noteq> 0xFFFF"
  "drop_bit 32 (0x0064FF9B000000000000000000000000 :: 128 word) \<noteq> drop_bit 32 1"
  by code_simp+

lemma nat64_class:
  assumes "drop_bit 32 w = drop_bit 32 (0x0064FF9B000000000000000000000000 :: 128 word)"
  shows "drop_bit 118 w = 1" "drop_bit 120 w = 0" "drop_bit 121 w = 0" "drop_bit 32 w \<noteq> 0xFFFF" "w \<noteq> 1"
proof -
  have up: "drop_bit 118 w = drop_bit 86 (drop_bit 32 w)" "drop_bit 120 w = drop_bit 88 (drop_bit 32 w)"
    "drop_bit 121 w = drop_bit 89 (drop_bit 32 w)" by (simp_all only: drop_bit_drop_bit) simp_all
  show "drop_bit 118 w = 1" "drop_bit 120 w = 0" "drop_bit 121 w = 0" "drop_bit 32 w \<noteq> 0xFFFF"
    unfolding up assms by (rule nat64_bits)+
  show "w \<noteq> 1" using assms nat64_bits(5) by metis
qed

lemma zoned_unblocked:
  assumes "zone \<noteq> []" and "drop_bit 118 w \<noteq> 0x3FA" "drop_bit 120 w = 0" "drop_bit 121 w = 0" "drop_bit 32 w \<noteq> 0xFFFF" "w \<noteq> 1"
  shows "\<not> isBlocked (V6 w zone)"
  using assms by (simp add: isBlocked_def IsGlobalUnicast_def Contains_zoned list_ex_iff)

text \<open>C39.
  An IPv6 zone takes an address out of the blocked ranges: the unspecified address, which connects a host to itself, and
  the NAT64 range are blocked without a zone and admitted with one.
\<close>

theorem zone_bypasses_guard:
  assumes "ParseAddrPort address = Some (V6 w zone, port)" and "zone \<noteq> []"
    and "w = 0 \<or> Contains (Prefix (V6 0x0064FF9B000000000000000000000000 []) 96) (V6 w [])"
  shows "isBlocked (V6 w []) \<and> destinationGuard [] address"
  using assms(3)
proof
  assume w: "w = 0"
  have "isBlocked (V6 w [])" by (simp add: isBlocked_def IsGlobalUnicast_def w)
  moreover have "\<not> isBlocked (V6 w zone)" by (rule zoned_unblocked [OF assms(2)]) (simp_all add: w)
  ultimately show ?thesis using assms(1) by (simp add: destinationGuard_def w)
next
  assume c: "Contains (Prefix (V6 0x0064FF9B000000000000000000000000 []) 96) (V6 w [])"
  then have eq: "drop_bit 32 w = drop_bit 32 (0x0064FF9B000000000000000000000000 :: 128 word)" by simp
  note n = nat64_class [OF eq]
  have "isBlocked (V6 w [])" using c n(4) by (simp add: isBlocked_def blockedPrefixes_eq)
  moreover have "\<not> isBlocked (V6 w zone)" by (rule zoned_unblocked [OF assms(2) _ n(2-5)]) (simp add: n(1))
  ultimately show ?thesis using assms(1) n(4) by (simp add: destinationGuard_def)
qed

lemma zoned_facts:
  "ParseAddrPort ''[::%lo]:443'' = Some (V6 0 ''lo'', 443)" "''lo'' \<noteq> []"
  by code_simp+

theorem zone_bypasses_guard_witness: "isBlocked (V6 0 []) \<and> destinationGuard [] ''[::%lo]:443''"
  by (rule zone_bypasses_guard [OF zoned_facts]) simp



definition https_url :: safe_url where
  "https_url = \<lparr>su_Scheme = ''https'', su_Hostname = ''a.org'', su_Port = []\<rparr>"



text \<open>All requests of one call, redirects included, go over https to the host and port of the first one, and their number is
  bounded by the configured redirects.
\<close>

theorem redirects_stay_on_origin:
  assumes "redirect_chain canon mx urls" and "safe_RoundTrip nxt maxBody (hd urls) \<noteq> Inl None"
  shows "list_all (\<lambda>u. su_Scheme u = ''https'' \<and> su_Port u = su_Port (hd urls) \<and>
      EqualFold canon (su_Hostname (hd urls)) (su_Hostname u)) urls \<and>
    int (length urls) \<le> max 1 (mx + 1) \<and> length urls \<le> 10"
  using assms
proof (induction rule: redirect_chain.induct)
  case (chain_start url)
  then show ?case by (auto simp: safe_RoundTrip_def EqualFold_def split: if_splits)
next
  case (chain_step via req)
  then have "via \<noteq> []" by (auto elim: redirect_chain.cases)
  then show ?case using chain_step by (auto simp: safeRedirect_None safe_RoundTrip_def split: if_splits)
qed

lemma chain_facts:
  "redirect_chain id 3 [https_url, https_url]"
  "safe_RoundTrip (\<lambda>_. Inr ''ok'' :: unit + string) 3 (hd [https_url, https_url]) \<noteq> Inl None"
proof -
  have "redirect_chain id 3 ([https_url] @ [https_url])"
    by (rule chain_step [OF redirect_chain.chain_start]) (simp add: safeRedirect_None EqualFold_def https_url_def)
  then show "redirect_chain id 3 [https_url, https_url]" by simp
qed (simp add: safe_RoundTrip_def https_url_def)

theorem redirects_stay_on_origin_witness:
  "su_Scheme https_url = ''https'' \<and> int (length [https_url, https_url]) \<le> max 1 (3 + 1)"
  using redirects_stay_on_origin [OF chain_facts] by simp

end
