(* ===== verification/Sql_Format.thy ===== *)
theory Sql_Format
  imports Go_Utf8
begin

text \<open>
  The layout of SQL statements for logs (\<^verbatim>\<open>sqln/connection/sqlformat.go\<close>): the scanner, the formatter and
  \<^verbatim>\<open>FormatSQL\<close>. Text is a list of runes here, since only valid UTF-8 is formatted. The Unicode tables are the fields
  of \<open>sql_env\<close>. The colouring of tokens (\<open>paint\<close>), which \<^verbatim>\<open>FormatSQL\<close> leaves unset, is not modelled.
\<close>

section \<open>The scanner\<close>

text \<open>
  \<open>se_letter_digit\<close> is \<^verbatim>\<open>IsLetter || IsDigit\<close>, \<open>se_upper\<close> is \<^verbatim>\<open>unicode.ToUpper\<close> and \<open>se_canon\<close> the representative of
  a rune under simple folding, by which \<^verbatim>\<open>strings.EqualFold\<close> compares.
\<close>

record sql_env =
  se_letter_digit :: "rune \<Rightarrow> bool"
  se_upper :: "rune \<Rightarrow> rune"
  se_canon :: "rune \<Rightarrow> rune"

datatype sqlTokKind = tokWord | tokString | tokQuoted | tokOp | tokOpen | tokClose | tokComma

record sqlTok =
  tk_s :: "rune list"
  tk_kind :: sqlTokKind

definition rtext :: "string \<Rightarrow> rune list" where
  "rtext s = map of_char s"

definition is_word_rune :: "sql_env \<Rightarrow> rune \<Rightarrow> bool" where
  "is_word_rune env r \<longleftrightarrow> se_letter_digit env r \<or> r \<in> {95, 36, 46}"

definition op_runes :: "rune list" where
  "op_runes = rtext ''<>=!|@&:+-*/%~^?#''"

text \<open>From behind an opening quote \<open>q\<close>: the runes up to its closing quote, and the rest.\<close>

fun quoted_body :: "rune \<Rightarrow> rune list \<Rightarrow> rune list \<times> rune list" where
  "quoted_body q [] = ([], [])"
| "quoted_body q [r] = ([r], [])"
| "quoted_body q (r # r' # rs) =
     (if r = q then
        (if q = 39 \<and> r' = 39 then (case quoted_body q rs of (b, rest) \<Rightarrow> (r # r' # b, rest)) else ([r], r' # rs))
      else (case quoted_body q (r' # rs) of (b, rest) \<Rightarrow> (r # b, rest)))"

lemma quoted_body_split: "quoted_body q rs = (b, rest) \<Longrightarrow> rs = b @ rest"
  by (induction q rs arbitrary: b rest rule: quoted_body.induct) (auto split: if_splits prod.splits)

lemma quoted_body_length: "length (snd (quoted_body q rs)) \<le> length rs"
  using quoted_body_split [of q rs "fst (quoted_body q rs)" "snd (quoted_body q rs)"]
  by (metis le_add2 length_append prod.collapse)

function tokenizeSQL :: "sql_env \<Rightarrow> rune list \<Rightarrow> sqlTok list" where
  "tokenizeSQL env [] = []"
| "tokenizeSQL env (r # rs) =
     (if is_space r then tokenizeSQL env rs
      else if r \<in> {39, 34, 96} then
        \<lparr>tk_s = r # fst (quoted_body r rs), tk_kind = (if r = 39 then tokString else tokQuoted)\<rparr> #
          tokenizeSQL env (snd (quoted_body r rs))
      else if r = 40 then \<lparr>tk_s = [r], tk_kind = tokOpen\<rparr> # tokenizeSQL env rs
      else if r = 41 then \<lparr>tk_s = [r], tk_kind = tokClose\<rparr> # tokenizeSQL env rs
      else if r = 44 then \<lparr>tk_s = [r], tk_kind = tokComma\<rparr> # tokenizeSQL env rs
      else if is_word_rune env r then
        \<lparr>tk_s = r # takeWhile (is_word_rune env) rs, tk_kind = tokWord\<rparr> # tokenizeSQL env (dropWhile (is_word_rune env) rs)
      else
        (let more = (\<lambda>x. x \<in> set op_runes \<and> r \<in> set op_runes)
         in \<lparr>tk_s = r # takeWhile more rs, tk_kind = tokOp\<rparr> # tokenizeSQL env (dropWhile more rs)))"
  by pat_completeness auto
termination
  by (relation "measure (\<lambda>(_, rs). length rs)") (simp_all add: le_imp_less_Suc length_dropWhile_le quoted_body_length)

section \<open>Keywords\<close>

definition clauseKeywords :: "string list list" where
  "clauseKeywords =
     [[''LEFT'', ''OUTER'', ''JOIN''], [''LEFT'', ''JOIN'', ''LATERAL''], [''INSERT'', ''INTO''], [''DELETE'', ''FROM''],
      [''GROUP'', ''BY''], [''ORDER'', ''BY''], [''UNION'', ''ALL''], [''ON'', ''CONFLICT''],
      [''LEFT'', ''JOIN''], [''RIGHT'', ''JOIN''], [''INNER'', ''JOIN''], [''FULL'', ''JOIN''], [''CROSS'', ''JOIN''],
      [''SELECT''], [''FROM''], [''WHERE''], [''HAVING''], [''LIMIT''], [''UNION''], [''RETURNING''],
      [''VALUES''], [''SET''], [''UPDATE''], [''WITH''], [''JOIN'']]"

definition sqlKeywords :: "string list" where
  "sqlKeywords =
     [''AND'', ''OR'', ''NOT'', ''IN'', ''IS'', ''NULL'', ''TRUE'', ''FALSE'', ''AS'', ''ON'', ''BETWEEN'', ''LIKE'', ''ILIKE'',
      ''ESCAPE'', ''ANY'', ''ALL'', ''ASC'', ''DESC'', ''NULLS'', ''FIRST'', ''LAST'', ''DISTINCT'', ''CASE'', ''WHEN'', ''THEN'',
      ''ELSE'', ''END'', ''EXISTS'', ''COALESCE'', ''COUNT'', ''INTO'', ''BY'', ''LATERAL'', ''OUTER'', ''INNER'', ''LEFT'',
      ''RIGHT'', ''FULL'', ''CROSS'', ''DO'', ''NOTHING'', ''CONFLICT'', ''OFFSET'']"

definition is_sql_keyword :: "rune list \<Rightarrow> bool" where
  "is_sql_keyword s \<longleftrightarrow> s \<in> set (map rtext sqlKeywords)"

definition isUpperKeyword :: "rune list \<Rightarrow> bool" where
  "isUpperKeyword s \<longleftrightarrow> is_sql_keyword s \<and> s \<notin> set (map rtext [''COUNT'', ''COALESCE'', ''ANY'', ''EXISTS''])"

definition word_is :: "sql_env \<Rightarrow> sqlTok \<Rightarrow> string \<Rightarrow> bool" where
  "word_is env t w \<longleftrightarrow> tk_kind t = tokWord \<and> map (se_canon env) (tk_s t) = map (se_canon env) (rtext w)"

definition clauseAt :: "sql_env \<Rightarrow> sqlTok list \<Rightarrow> string list option" where
  "clauseAt env ts = List.find (\<lambda>kw. length kw \<le> length ts \<and> list_all2 (word_is env) (take (length kw) ts) kw) clauseKeywords"

definition startsSubquery :: "sql_env \<Rightarrow> sqlTok list \<Rightarrow> bool" where
  "startsSubquery env ts \<longleftrightarrow> ts \<noteq> [] \<and> (word_is env (hd ts) ''SELECT'' \<or> word_is env (hd ts) ''WITH'')"

section \<open>The formatter\<close>

text \<open>\<open>f_b\<close> is the text written so far. The tokens are passed to the functions that read them.\<close>

record sqlFormatter =
  f_b :: "rune list"
  f_last :: sqlTok
  f_lastKeyword :: bool
  f_lineIndent :: nat

definition newline :: "nat \<Rightarrow> sqlFormatter \<Rightarrow> sqlFormatter" where
  "newline indent f =
     f\<lparr>f_b := f_b f @ 10 # replicate (2 * indent) 32, f_last := \<lparr>tk_s = [10], tk_kind = tokOp\<rparr>, f_lineIndent := indent\<rparr>"

definition sql_write :: "sql_env \<Rightarrow> bool \<Rightarrow> sqlTok \<Rightarrow> sqlFormatter \<Rightarrow> sqlFormatter" where
  "sql_write env keyword t f =
     (let prev = f_last f;
          space = (f_b f \<noteq> [] \<and> tk_s prev \<noteq> [10] \<and> tk_kind prev \<noteq> tokOpen \<and> tk_kind t \<noteq> tokClose \<and> tk_kind t \<noteq> tokComma \<and>
            tk_s t \<noteq> rtext ''::'' \<and> tk_s prev \<noteq> rtext ''::'' \<and>
            \<not> (tk_kind t = tokOpen \<and> tk_kind prev = tokWord \<and> \<not> f_lastKeyword f \<and> \<not> isUpperKeyword (tk_s prev)));
          upper = map (se_upper env) (tk_s t)
      in f\<lparr>f_b := f_b f @ (if space then [32] else []) @ tk_s t, f_last := t,
           f_lastKeyword := (keyword \<and> isUpperKeyword upper \<or> keyword \<and> \<not> is_sql_keyword upper)\<rparr>)"

text \<open>The layout of a clause keyword, and of any other word, operator or literal.\<close>

definition write_clause :: "sql_env \<Rightarrow> nat \<Rightarrow> string list \<Rightarrow> sqlTok list \<Rightarrow> sqlFormatter \<Rightarrow> sqlFormatter" where
  "write_clause env indent kw ts f =
     (let f = (if last kw \<in> {''JOIN'', ''LATERAL''} then newline (indent + 1) f
               else if f_b f \<noteq> [] \<and> tk_s (f_last f) \<noteq> [10] then newline indent f else f);
          f = fold (sql_write env True) ts f
      in if kw = [''SELECT''] then newline (indent + 1) f else f)"

definition write_plain :: "sql_env \<Rightarrow> nat \<Rightarrow> bool \<Rightarrow> string list \<Rightarrow> bool \<Rightarrow> sqlTok \<Rightarrow> sqlFormatter \<Rightarrow> bool \<times> sqlFormatter" where
  "write_plain env indent inline clause between t f =
     (let upper = map (se_upper env) (tk_s t);
          joins = (\<not> inline \<and> tk_kind t = tokWord \<and> upper \<in> {rtext ''AND'', rtext ''OR''} \<and> clause \<in> {[''WHERE''], [''HAVING'']});
          closes = (joins \<and> upper = rtext ''AND'' \<and> between);
          f = (if joins \<and> \<not> closes then newline (indent + 1) f else f);
          between = (if \<not> inline \<and> upper = rtext ''BETWEEN'' then True else if closes then False else between)
      in (between, sql_write env (tk_kind t = tokWord \<and> is_sql_keyword upper) t f))"

text \<open>
  The tokens from the given ones up to the closing parenthesis of the level; the result starts with that parenthesis.
  \<open>clause\<close> and \<open>between\<close> are the local variables of the loop.
\<close>

function (sequential) level ::
  "sql_env \<Rightarrow> nat \<Rightarrow> bool \<Rightarrow> string list \<Rightarrow> bool \<Rightarrow> sqlTok list \<Rightarrow> sqlFormatter \<Rightarrow> sqlTok list \<times> sqlFormatter" where
  "level env indent inline clause between [] f = ([], f)"
| "level env indent inline clause between (t # ts) f =
     (if tk_kind t = tokClose then (t # ts, f)
      else if tk_kind t = tokOpen then
        (case (if startsSubquery env ts then
                 (let outer = f_lineIndent f
                  in apsnd (newline outer) (level env (outer + 1) False [] False ts (newline (outer + 1) (sql_write env False t f))))
               else level env indent True [] False ts (sql_write env False t f)) of
           ([], f) \<Rightarrow> ([], f)
         | (c # rest, f) \<Rightarrow> level env indent inline clause between rest (sql_write env False c f))
      else if tk_kind t = tokComma then
        (let f = sql_write env False t f
         in level env indent inline clause between ts
              (if \<not> inline \<and> clause = [''SELECT''] then newline (indent + 1) f else f))
      else
        (case (if inline then None else clauseAt env (t # ts)) of
           Some kw \<Rightarrow>
             level env indent inline kw between (drop (length kw - 1) ts)
               (write_clause env indent kw (take (length kw) (t # ts)) f)
         | None \<Rightarrow>
             (case write_plain env indent inline clause between t f of
                (between, f) \<Rightarrow> level env indent inline clause between ts f)))"
  by pat_completeness auto

lemma level_shrinks:
  "level_dom (env, indent, inline, clause, between, ts, f) \<Longrightarrow>
   length (fst (level env indent inline clause between ts f)) \<le> length ts"
proof (induction rule: level.pinduct)
  case (1 env indent inline clause between f)
  then show ?case by (simp add: level.psimps)
next
  case (2 env indent inline clause between t ts f)
  note dom = 2(1) and IH = 2(2-)
  consider (isClose) "tk_kind t = tokClose" | (isOpen) "tk_kind t = tokOpen" | (isComma) "tk_kind t = tokComma"
    | (other) "tk_kind t \<notin> {tokClose, tokOpen, tokComma}" by auto
  then show ?case
  proof cases
    case isOpen
    define r where "r = (if startsSubquery env ts then
                 (let outer = f_lineIndent f
                  in apsnd (newline outer) (level env (outer + 1) False [] False ts (newline (outer + 1) (sql_write env False t f))))
               else level env indent True [] False ts (sql_write env False t f))"
    have le: "length (fst r) \<le> length ts"
      using IH(1) [OF _ isOpen _ refl] IH(2) [OF _ isOpen] isOpen by (simp add: r_def Let_def)
    obtain rest f' where r: "r = (rest, f')" by (rule prod.exhaust)
    have eq: "level env indent inline clause between (t # ts) f =
        (case r of ([], f) \<Rightarrow> ([], f) | (c # rest, f) \<Rightarrow> level env indent inline clause between rest (sql_write env False c f))"
      using level.psimps(2) [OF dom] isOpen by (simp add: r_def)
    show ?thesis
    proof (cases rest)
      case Nil
      then show ?thesis using eq r by simp
    next
      case (Cons c cs)
      have "length (fst (level env indent inline clause between cs (sql_write env False c f'))) \<le> length cs"
        by (rule IH(3) [OF _ isOpen, of rest f' c cs]) (use isOpen r Cons in \<open>simp_all add: r_def\<close>)
      then show ?thesis using eq r Cons le by simp
    qed
  next
    case isComma
    then show ?thesis using IH(4) [OF _ _ isComma refl] dom by (simp add: level.psimps Let_def)
  next
    case other
    show ?thesis
    proof (cases "if inline then None else clauseAt env (t # ts)")
      case None
      obtain b f' where w: "write_plain env indent inline clause between t f = (b, f')" by (rule prod.exhaust)
      show ?thesis using IH(5) [OF _ _ _ None w [symmetric]] dom other None w by (simp add: level.psimps)
    next
      case (Some kw)
      show ?thesis using IH(6) [OF _ _ _ Some] dom other Some by (simp add: level.psimps)
    qed
  qed (simp add: dom level.psimps)
qed

termination level
proof (relation "measure (\<lambda>(_, _, _, _, _, ts, _). length ts)", simp_all, goal_cases)
  case (1 env indent t ts f x y c cs)
  note fst_eq = arg_cong [OF 1(2), of "length \<circ> fst"]
  show ?case
  proof (cases "startsSubquery env ts")
    case True
    show ?thesis using fst_eq level_shrinks [OF 1(5) [OF True refl]] True by (simp add: Let_def)
  next
    case False
    show ?thesis using fst_eq level_shrinks [OF 1(4) [OF False]] False by simp
  qed
qed

declare level.simps [simp del]

section \<open>Spacings of a token list\<close>

text \<open>A text that consists of the given pieces, in order, and of white space between them.\<close>

inductive spacing :: "rune list list \<Rightarrow> rune list \<Rightarrow> bool" where
  spacing_Nil: "spacing [] []"
| spacing_space: "spacing ps out \<Longrightarrow> is_space r \<Longrightarrow> spacing ps (out @ [r])"
| spacing_piece: "spacing ps out \<Longrightarrow> spacing (ps @ [p]) (out @ p)"

lemma spacing_spaces: "spacing ps out \<Longrightarrow> list_all is_space g \<Longrightarrow> spacing ps (out @ g)"
proof (induction g arbitrary: out)
  case (Cons r g)
  then show ?case using Cons.IH [of "out @ [r]"] spacing_space by simp
qed simp

lemma spacing_append: "spacing qs out' \<Longrightarrow> spacing ps out \<Longrightarrow> spacing (ps @ qs) (out @ out')"
  by (induction rule: spacing.induct)
    (auto simp flip: append_assoc intro: spacing_space spacing_piece)

lemma spacing_single: "spacing [p] p"
  using spacing_piece [OF spacing_Nil, of p] by simp

lemma spacing_Cons: "spacing ps out \<Longrightarrow> spacing (p # ps) (p @ out)"
  using spacing_append [OF _ spacing_single, of ps out p] by simp

lemma spacing_front: "spacing ps out \<Longrightarrow> is_space r \<Longrightarrow> spacing ps (r # out)"
  using spacing_append [OF _ spacing_space [OF spacing_Nil], of ps out r] by simp

lemma spacing_text: "spacing ps out \<Longrightarrow> filter (\<lambda>r. \<not> is_space r) out = filter (\<lambda>r. \<not> is_space r) (concat ps)"
  by (induction rule: spacing.induct) auto

lemma spacing_runes: "spacing ps out \<Longrightarrow> list_all (list_all valid_rune) ps \<Longrightarrow> list_all valid_rune out"
  by (induction rule: spacing.induct) (auto simp: is_space_def valid_rune_def)




section \<open>What the formatter writes\<close>

text \<open>From \<open>f\<close> to \<open>f'\<close> the tokens \<open>cs\<close> were written, with white space around them.\<close>

definition writes :: "sqlTok list \<Rightarrow> sqlFormatter \<Rightarrow> sqlFormatter \<Rightarrow> bool" where
  "writes cs f f' \<longleftrightarrow> (\<forall>ps. spacing ps (f_b f) \<longrightarrow> spacing (ps @ map tk_s cs) (f_b f'))"

named_theorems written

lemma writes_Nil [written]: "writes [] f f"
  by (simp add: writes_def)

lemma writes_trans: "writes cs f f1 \<Longrightarrow> writes ds f1 f2 \<Longrightarrow> writes (cs @ ds) f f2"
  by (auto simp: writes_def simp flip: append_assoc)

lemma is_space_layout [simp]: "is_space 10" "is_space 32"
  by (simp_all add: is_space_def)

lemma newline_writes [written]: "writes [] f (newline indent f)"
  by (auto simp: writes_def newline_def list_all_iff intro!: spacing_spaces)

lemma sql_write_writes [written]: "writes [t] f (sql_write env keyword t f)"
proof -
  have "spacing (ps @ [tk_s t]) (f_b f @ g @ tk_s t)" if "spacing ps (f_b f)" "list_all is_space g" for ps g
    using spacing_piece [OF spacing_spaces [OF that]] by simp
  then show ?thesis by (auto simp: writes_def sql_write_def Let_def)
qed

lemma writes_newline_after: "writes cs f f' \<Longrightarrow> writes cs f (newline indent f')"
  using writes_trans [OF _ newline_writes, of cs f f'] by simp

lemma writes_newline_before: "writes cs (newline indent f) f' \<Longrightarrow> writes cs f f'"
  using writes_trans [OF newline_writes, of cs indent f f'] by simp

lemma fold_writes: "writes ts f (fold (sql_write env keyword) ts f)"
proof (induction ts arbitrary: f)
  case (Cons t ts)
  then show ?case using writes_trans [OF sql_write_writes, of ts env keyword t f] by simp
qed (simp add: written)

lemma write_clause_writes: "writes ts f (write_clause env indent kw ts f)"
  by (auto simp: write_clause_def Let_def intro: fold_writes writes_newline_after writes_newline_before)

lemma write_plain_writes: "write_plain env indent inline clause between t f = (b, f') \<Longrightarrow> writes [t] f f'"
  by (auto simp: write_plain_def Let_def intro: written writes_newline_before split: if_splits)

lemma clauseAt_fits: "clauseAt env ts = Some kw \<Longrightarrow> kw \<noteq> [] \<and> length kw \<le> length ts"
proof -
  assume "clauseAt env ts = Some kw"
  then obtain i where "i < length clauseKeywords" "kw = clauseKeywords ! i" "length kw \<le> length ts"
    by (auto simp: clauseAt_def find_Some_iff)
  moreover have "list_all (\<lambda>k. k \<noteq> []) clauseKeywords" by (simp add: clauseKeywords_def)
  ultimately show ?thesis by (auto simp: list_all_length)
qed

lemma level_writes:
  "level env indent inline clause between ts f = (rest, f') \<Longrightarrow> \<exists>cs. ts = cs @ rest \<and> writes cs f f'"
proof (induction env indent inline clause between ts f arbitrary: rest f' rule: level.induct)
  case (1 env indent inline clause between f)
  then show ?case by (simp add: level.simps written)
next
  case (2 env indent inline clause between t ts f)
  note IH = 2(1-6) and eq = 2(7)
  consider (isClose) "tk_kind t = tokClose" | (isOpen) "tk_kind t = tokOpen" | (isComma) "tk_kind t = tokComma"
    | (other) "tk_kind t \<notin> {tokClose, tokOpen, tokComma}" by auto
  then show ?case
  proof cases
    case isClose
    then show ?thesis using eq by (auto simp: level.simps intro: written)
  next
    case isOpen
    define r where "r = (if startsSubquery env ts then
                 (let outer = f_lineIndent f
                  in apsnd (newline outer) (level env (outer + 1) False [] False ts (newline (outer + 1) (sql_write env False t f))))
               else level env indent True [] False ts (sql_write env False t f))"
    obtain rs g where r: "r = (rs, g)" by (rule prod.exhaust)
    have "\<exists>cs. ts = cs @ rs \<and> writes cs (sql_write env False t f) g"
    proof (cases "startsSubquery env ts")
      case True
      obtain rs' g' where l: "level env (f_lineIndent f + 1) False [] False ts (newline (f_lineIndent f + 1) (sql_write env False t f)) = (rs', g')"
        by (rule prod.exhaust)
      then have "rs = rs'" "g = newline (f_lineIndent f) g'" using r True by (auto simp: r_def Let_def)
      then show ?thesis using IH(1) [OF _ isOpen True refl l] isOpen
        by (auto intro: writes_newline_after writes_newline_before)
    next
      case False
      then show ?thesis using IH(2) [OF _ isOpen False] isOpen r by (auto simp: r_def)
    qed
    then obtain cs where cs: "ts = cs @ rs" "writes (t # cs) f g"
      using writes_trans [OF sql_write_writes, of _ env False t f g] by auto
    have eq': "(case r of ([], f) \<Rightarrow> ([], f) | (c # rest, f) \<Rightarrow> level env indent inline clause between rest (sql_write env False c f)) = (rest, f')"
      using eq isOpen by (simp add: level.simps r_def)
    show ?thesis
    proof (cases rs)
      case Nil
      then show ?thesis using eq' r cs by (intro exI [of _ "t # cs"]) simp
    next
      case (Cons c rs')
      have "\<exists>ds. rs' = ds @ rest \<and> writes ds (sql_write env False c g) f'"
        by (rule IH(3) [OF _ isOpen, of rs g c rs']) (use isOpen r Cons eq' in \<open>simp_all add: r_def\<close>)
      then obtain ds where ds: "rs' = ds @ rest" "writes ds (sql_write env False c g) f'" by blast
      have "writes ((t # cs) @ [c] @ ds) f f'"
        by (rule writes_trans [OF cs(2) writes_trans [OF sql_write_writes ds(2)]])
      then show ?thesis using cs(1) Cons ds(1) by (intro exI [of _ "t # cs @ c # ds"]) simp
    qed
  next
    case isComma
    obtain cs where cs: "ts = cs @ rest"
        "writes cs (if \<not> inline \<and> clause = [''SELECT''] then newline (indent + 1) (sql_write env False t f) else sql_write env False t f) f'"
      using IH(4) [OF _ _ isComma refl] eq isComma by (auto simp: level.simps Let_def)
    then have "writes cs (sql_write env False t f) f'" by (auto intro: writes_newline_before split: if_splits)
    then show ?thesis using cs(1) writes_trans [OF sql_write_writes, of cs env False t f f'] by (intro exI [of _ "t # cs"]) simp
  next
    case other
    show ?thesis
    proof (cases "if inline then None else clauseAt env (t # ts)")
      case None
      obtain b g where w: "write_plain env indent inline clause between t f = (b, g)" by (rule prod.exhaust)
      obtain cs where "ts = cs @ rest" "writes cs g f'"
        using IH(5) [OF _ _ _ None w [symmetric]] eq other None w by (auto simp: level.simps)
      then show ?thesis using writes_trans [OF write_plain_writes [OF w]] by (intro exI [of _ "t # cs"]) simp
    next
      case (Some kw)
      have fits: "kw \<noteq> [] \<and> length kw \<le> length (t # ts)" using Some clauseAt_fits [of env "t # ts" kw] by (auto split: if_splits)
      obtain cs where cs: "drop (length kw - 1) ts = cs @ rest" "writes cs (write_clause env indent kw (take (length kw) (t # ts)) f) f'"
        using IH(6) [OF _ _ _ Some] eq other Some by (auto simp: level.simps)
      have "t # ts = take (length kw) (t # ts) @ drop (length kw - 1) ts"
        using fits by (cases kw) auto
      then show ?thesis using cs writes_trans [OF write_clause_writes cs(2)]
        by (intro exI [of _ "take (length kw) (t # ts) @ cs"]) (simp only: append_assoc)
    qed
  qed
qed

lemma level_rest: "level env indent inline clause between ts f = (rest, f') \<Longrightarrow> length rest \<le> length ts"
  using level_writes [of env indent inline clause between ts f rest f'] by auto

text \<open>The whole statement. A closing parenthesis without its opening one is written and the rest follows.\<close>

function fmt_all :: "sql_env \<Rightarrow> sqlTok list \<Rightarrow> sqlFormatter \<Rightarrow> sqlFormatter" where
  "fmt_all env ts f =
     (case level env 0 False [] False ts f of
        ([], f) \<Rightarrow> f
      | (c # rest, f) \<Rightarrow> fmt_all env rest (sql_write env False c f))"
  by pat_completeness auto
termination
proof (relation "measure (\<lambda>(_, ts, _). length ts)", simp_all, goal_cases)
  case (1 env ts f x y c rest)
  then show ?case using level_rest [of env 0 False "[]" False ts f "c # rest" y] by simp
qed

declare fmt_all.simps [simp del]

definition fmt_start :: sqlFormatter where
  "fmt_start = \<lparr>f_b = [], f_last = \<lparr>tk_s = [], tk_kind = tokWord\<rparr>, f_lastKeyword = False, f_lineIndent = 0\<rparr>"

definition FormatSQL :: "sql_env \<Rightarrow> string \<Rightarrow> string" where
  "FormatSQL env query =
     (if \<not> valid_string query then query
      else encode_runes (trim_runes (f_b (fmt_all env (tokenizeSQL env (runes query)) fmt_start))))"

lemma fmt_all_writes: "writes ts f (fmt_all env ts f)"
proof (induction env ts f rule: fmt_all.induct)
  case (1 env ts f)
  obtain rest g where l: "level env 0 False [] False ts f = (rest, g)" by (rule prod.exhaust)
  obtain cs where cs: "ts = cs @ rest" "writes cs f g" using level_writes [OF l] by blast
  show ?case
  proof (cases rest)
    case Nil
    then show ?thesis using cs l by (simp add: fmt_all.simps)
  next
    case (Cons c rs)
    then have "writes rs (sql_write env False c g) (fmt_all env rs (sql_write env False c g))"
      using 1 [OF l [symmetric]] by simp
    then have "writes (cs @ [c] @ rs) f (fmt_all env rs (sql_write env False c g))"
      by (rule writes_trans [OF cs(2) writes_trans [OF sql_write_writes]])
    moreover have "fmt_all env ts f = fmt_all env rs (sql_write env False c g)"
      using l Cons by (subst fmt_all.simps) simp
    ultimately show ?thesis using cs(1) Cons by simp
  qed
qed

section \<open>What the scanner reads\<close>



lemma is_space_quotes [simp]: "\<not> is_space 39" "\<not> is_space 34" "\<not> is_space 96" "\<not> is_space 40" "\<not> is_space 41" "\<not> is_space 44"
  by (simp_all add: is_space_def)


lemma spacing_token: "spacing ps rest \<Longrightarrow> r # rs = p @ rest \<Longrightarrow> spacing (p # ps) (r # rs)"
  using spacing_Cons [of ps rest p] by simp

lemma tokenizeSQL_spacing: "spacing (map tk_s (tokenizeSQL env rs)) rs"
proof (induction env rs rule: tokenizeSQL.induct)
  case (2 env r rs)
  have quoted: "r # rs = (r # fst (quoted_body r rs)) @ snd (quoted_body r rs)"
    using quoted_body_split [of r rs] by (metis append_Cons prod.collapse)
  have chop: "r # rs = (r # takeWhile P rs) @ dropWhile P rs" for P by simp
  show ?case
    using 2 spacing_front [of _ rs r] spacing_token [OF _ quoted] spacing_token [OF _ chop] spacing_Cons [of _ rs "[r]"]
    by (auto simp: Let_def)
qed (simp add: spacing_Nil)

section \<open>Trimming\<close>


lemma trim_text: "filter (\<lambda>r. \<not> is_space r) (trim_runes rs) = filter (\<lambda>r. \<not> is_space r) rs"
proof -
  have drop: "filter (\<lambda>r. \<not> is_space r) (dropWhile is_space xs) = filter (\<lambda>r. \<not> is_space r) xs" for xs
    by (induction xs) auto
  show ?thesis by (simp add: trim_runes_def drop flip: rev_filter)
qed

lemma trim_set: "set (trim_runes rs) \<subseteq> set rs"
  by (auto simp: trim_runes_def dest!: set_dropWhileD)


section \<open>Properties\<close>

lemma spacing_pieces: "spacing ps out \<Longrightarrow> \<Union> (set (map set ps)) \<subseteq> set out"
  by (induction rule: spacing.induct) auto

lemma formatted_spacing: "spacing (map tk_s ts) (f_b (fmt_all env ts fmt_start))"
  using fmt_all_writes [of ts fmt_start env] spacing_Nil by (auto simp: writes_def fmt_start_def)

lemma formatted_runes:
  assumes "valid_string q"
  shows "runes (FormatSQL env q) = trim_runes (f_b (fmt_all env (tokenizeSQL env (runes q)) fmt_start))" (is "_ = trim_runes ?out")
proof -
  have "list_all (list_all valid_rune) (map tk_s (tokenizeSQL env (runes q)))"
    using spacing_pieces [OF tokenizeSQL_spacing [of env "runes q"]] runes_valid [of q] by (fastforce simp: list_all_iff)
  then have "list_all valid_rune (trim_runes ?out)"
    using spacing_runes [OF formatted_spacing] trim_set [of ?out] by (auto simp: list_all_iff)
  then show ?thesis using assms by (simp add: FormatSQL_def)
qed

text \<open>Formatting loses and adds nothing but white space: the other characters of the statement are kept in their order,
  for every statement.
\<close>

theorem format_keeps_text:
  "filter (\<lambda>r. \<not> is_space r) (runes (FormatSQL env q)) = filter (\<lambda>r. \<not> is_space r) (runes q)"
proof (cases "valid_string q")
  case True
  then show ?thesis
    using spacing_text [OF formatted_spacing [of "tokenizeSQL env (runes q)" env]] spacing_text [OF tokenizeSQL_spacing [of env "runes q"]]
    by (simp add: formatted_runes trim_text)
qed (simp add: FormatSQL_def)







lemma clauseAt_not_word: "tk_kind t \<noteq> tokWord \<Longrightarrow> clauseAt env (t # ts) = None"
  by (simp add: clauseAt_def clauseKeywords_def word_is_def)

text \<open>A quoted identifier that contains its quote, written twice as SQL has it, is taken for two identifiers and gets a space
  inside, so the formatted statement names another column.
\<close>

theorem format_splits_quoted_identifier:
  "FormatSQL env [CHR 0x22, CHR ''a'', CHR 0x22, CHR 0x22, CHR ''b'', CHR 0x22] =
     [CHR 0x22, CHR ''a'', CHR 0x22, CHR '' '', CHR 0x22, CHR ''b'', CHR 0x22]"
proof -
  let ?q = "[CHR 0x22, CHR ''a'', CHR 0x22, CHR 0x22, CHR ''b'', CHR 0x22]"
  have r: "runes ?q = [34, 97, 34, 34, 98, 34]" "valid_string ?q" by (simp_all add: runes_ascii valid_string_ascii)
  have t: "tokenizeSQL env [34, 97, 34, 34, 98, 34] =
      [\<lparr>tk_s = [34, 97, 34], tk_kind = tokQuoted\<rparr>, \<lparr>tk_s = [34, 98, 34], tk_kind = tokQuoted\<rparr>]"
    by (simp add: is_space_def)
  have "f_b (fmt_all env (tokenizeSQL env (runes ?q)) fmt_start) = [34, 97, 34, 32, 34, 98, 34]"
    by (simp add: r t fmt_all.simps level.simps clauseAt_not_word write_plain_def sql_write_def fmt_start_def Let_def rtext_def)
  moreover have "trim_runes [34, 97, 34, 32, 34, 98, 34] =
      map of_char [CHR 0x22, CHR ''a'', CHR 0x22, CHR '' '', CHR 0x22, CHR ''b'', CHR 0x22]"
    by (simp add: trim_runes_def is_space_def)
  moreover have "encode_runes (map of_char [CHR 0x22, CHR ''a'', CHR 0x22, CHR '' '', CHR 0x22, CHR ''b'', CHR 0x22]) =
      [CHR 0x22, CHR ''a'', CHR 0x22, CHR '' '', CHR 0x22, CHR ''b'', CHR 0x22]"
    by (rule encode_runes_ascii) simp
  ultimately show ?thesis using r(2) by (simp only: FormatSQL_def if_False not_True_eq_False)
qed

end
