(* ===== verification/Bucket.thy ===== *)
theory Bucket
  imports Go_Prelude "HOL-Library.AList" "HOL-Library.List_Lexorder" "HOL-Library.Char_ord" "HOL-Library.Multiset"
begin

text \<open>
  Object storage: the interface and the folder operations of \<^verbatim>\<open>base/bucket\<close> (\<^verbatim>\<open>bucket.go\<close>, \<^verbatim>\<open>iter.go\<close>,
  \<^verbatim>\<open>dir.go\<close>) and the store in memory (\<^verbatim>\<open>base/bucket/mem/mem.go\<close>). A store is a record of operations on a state
  \<open>'s\<close>; what a store implements optionally is an option field. Keys are ordered by their bytes. The contract of a
  store is a locale, interpreted on the store in memory. Presigned URLs are modelled up to their check.
\<close>

section \<open>The interface\<close>

datatype bucket_error = ErrNotFound | ErrInvalidConfig | ErrInvalidTTL | ReadFailed string

record bucket_object =
  ob_Key :: string
  ob_Size :: int
  ob_ContentType :: string
  ob_LastModified :: int

text \<open>The body: none, one whose reading fails, or its bytes.\<close>

record put_input =
  pi_Key :: string
  pi_Body :: "(string + string) option"
  pi_ContentType :: string

record bucket_dir =
  dir_Prefix :: string
  dir_Folders :: "string list"
  dir_Objects :: "bucket_object list"

record 's bucket_store =
  st_Put :: "put_input \<Rightarrow> 's \<Rightarrow> bucket_error option \<times> 's"
  st_List :: "string \<Rightarrow> 's \<Rightarrow> bucket_error + bucket_object list"
  st_Delete :: "string \<Rightarrow> 's \<Rightarrow> bucket_error option \<times> 's"
  st_Walk :: "(string \<Rightarrow> 's \<Rightarrow> (bucket_error + bucket_object) list) option"
  st_ListDir :: "(string \<Rightarrow> 's \<Rightarrow> bucket_error + bucket_dir) option"
  st_DeleteMany :: "(string list \<Rightarrow> 's \<Rightarrow> bucket_error option \<times> 's) option"
  st_CreateFolder :: "(string \<Rightarrow> 's \<Rightarrow> bucket_error option \<times> 's) option"

definition MaxPresignTTL :: int where
  "MaxPresignTTL = 7 * 24 * 3600 * 1000000000"

definition PresignLimit :: "int \<Rightarrow> int" where
  "PresignLimit limit = (if limit \<le> 0 \<or> MaxPresignTTL < limit then MaxPresignTTL else limit)"

definition CheckPresignTTL :: "int \<Rightarrow> int \<Rightarrow> bucket_error option" where
  "CheckPresignTTL ttl limit = (if ttl \<le> 0 \<or> PresignLimit limit < ttl then Some ErrInvalidTTL else None)"

section \<open>Listings\<close>

text \<open>A sequence of results is the list of what it yields.\<close>

definition bucket_All :: "'s bucket_store \<Rightarrow> string \<Rightarrow> 's \<Rightarrow> (bucket_error + bucket_object) list" where
  "bucket_All store p s =
     (case st_Walk store of
        Some w \<Rightarrow> w p s
      | None \<Rightarrow> (case st_List store p s of Inl e \<Rightarrow> [Inl e] | Inr os \<Rightarrow> map Inr os))"

fun Collect_all :: "(bucket_error + bucket_object) list \<Rightarrow> bucket_error + bucket_object list" where
  "Collect_all [] = Inr []"
| "Collect_all (Inl e # rs) = Inl e"
| "Collect_all (Inr ob # rs) = (case Collect_all rs of Inl e \<Rightarrow> Inl e | Inr os \<Rightarrow> Inr (ob # os))"

section \<open>Folders\<close>

text \<open>The part of a key behind the prefix, cut behind its first slash.\<close>

definition folder_of :: "string \<Rightarrow> string \<Rightarrow> string option" where
  "folder_of p k = map_option (\<lambda>(a, _). p @ a @ ''/'') (cut (CHR ''/'') (drop (length p) k))"

definition dir_of :: "string \<Rightarrow> bucket_object list \<Rightarrow> bucket_dir" where
  "dir_of p os =
     (let below = filter (\<lambda>ob. drop (length p) (ob_Key ob) \<noteq> []) os
      in \<lparr>dir_Prefix = p,
          dir_Folders = sort (remdups (List.map_filter (\<lambda>ob. folder_of p (ob_Key ob)) below)),
          dir_Objects = sort_key ob_Key (filter (\<lambda>ob. folder_of p (ob_Key ob) = None) below)\<rparr>)"

definition ListDir :: "'s bucket_store \<Rightarrow> string \<Rightarrow> 's \<Rightarrow> bucket_error + bucket_dir" where
  "ListDir store p s =
     (case st_ListDir store of
        Some l \<Rightarrow> l p s
      | None \<Rightarrow> (case Collect_all (bucket_All store p s) of Inl e \<Rightarrow> Inl e | Inr os \<Rightarrow> Inr (dir_of p os)))"

text \<open>The folders that a key implies, from the end of the prefix on.\<close>

definition implied_folders :: "string \<Rightarrow> string \<Rightarrow> string list" where
  "implied_folders p k =
     map (\<lambda>i. take (Suc i) k) (filter (\<lambda>i. k ! i = CHR ''/'') [length p - 1..<length k - 1])"

definition delete_keys :: "string \<Rightarrow> string list \<Rightarrow> string list" where
  "delete_keys p listed =
     rev (sort (listed @ remdups (filter (\<lambda>f. f \<notin> set listed) (concat (map (implied_folders p) listed)))))"

fun delete_each ::
  "(string \<Rightarrow> 's \<Rightarrow> bucket_error option \<times> 's) \<Rightarrow> string list \<Rightarrow> string list \<Rightarrow> nat \<Rightarrow> 's \<Rightarrow> (nat \<times> bucket_error option) \<times> 's" where
  "delete_each del listed [] n s = ((n, None), s)"
| "delete_each del listed (k # ks) n s =
     (case del k s of
        (Some e, s) \<Rightarrow> ((n, Some e), s)
      | (None, s) \<Rightarrow> delete_each del listed ks (if k \<in> set listed then n + 1 else n) s)"

definition deleteBatch :: nat where
  "deleteBatch = 1000"

function delete_batches ::
  "(string list \<Rightarrow> 's \<Rightarrow> bucket_error option \<times> 's) \<Rightarrow> string list \<Rightarrow> string list \<Rightarrow> nat \<Rightarrow> 's \<Rightarrow> (nat \<times> bucket_error option) \<times> 's" where
  "delete_batches del listed ks n s =
     (if ks = [] then ((n, None), s)
      else
        (case del (take deleteBatch ks) s of
           (Some e, s) \<Rightarrow> ((n, Some e), s)
         | (None, s) \<Rightarrow>
             delete_batches del listed (drop deleteBatch ks)
               (n + length (filter (\<lambda>k. k \<in> set listed) (take deleteBatch ks))) s))"
  by pat_completeness auto
termination
  by (relation "measure (\<lambda>(_, _, ks, _, _). length ks)") (auto simp: deleteBatch_def)

declare delete_batches.simps [simp del]

definition DeletePrefix :: "'s bucket_store \<Rightarrow> string \<Rightarrow> 's \<Rightarrow> (nat \<times> bucket_error option) \<times> 's" where
  "DeletePrefix store p s =
     (case Collect_all (bucket_All store p s) of
        Inl e \<Rightarrow> ((0, Some e), s)
      | Inr os \<Rightarrow>
          (let listed = remdups (map ob_Key os); keys = delete_keys p listed
           in case st_DeleteMany store of
                Some del \<Rightarrow> delete_batches del listed keys 0 s
              | None \<Rightarrow> delete_each (st_Delete store) listed keys 0 s))"

definition trim_slashes :: "string \<Rightarrow> string" where
  "trim_slashes p = rev (dropWhile (\<lambda>c. c = CHR ''/'') (rev (dropWhile (\<lambda>c. c = CHR ''/'') p)))"

definition CreateFolder :: "'s bucket_store \<Rightarrow> string \<Rightarrow> 's \<Rightarrow> bucket_error option \<times> 's" where
  "CreateFolder store path s =
     (let p = trim_slashes path
      in if p = [] then (Some ErrInvalidConfig, s)
         else
           (case st_CreateFolder store of
              Some mk \<Rightarrow> mk (p @ ''/'') s
            | None \<Rightarrow> st_Put store \<lparr>pi_Key = p @ ''/'', pi_Body = Some (Inr []), pi_ContentType = []\<rparr> s))"

section \<open>The store in memory\<close>

record mem_object =
  mo_data :: string
  mo_meta :: bucket_object

type_synonym mem_bucket = "(string \<times> mem_object) list"

definition bucket_Put :: "int \<Rightarrow> put_input \<Rightarrow> mem_bucket \<Rightarrow> bucket_error option \<times> mem_bucket" where
  "bucket_Put now inp s =
     (case pi_Body inp of
        None \<Rightarrow> (Some ErrInvalidConfig, s)
      | Some body \<Rightarrow>
          if pi_Key inp = [] then (Some ErrInvalidConfig, s)
          else
            (case body of
               Inl e \<Rightarrow> (Some (ReadFailed e), s)
             | Inr data \<Rightarrow>
                 (None, AList.update (pi_Key inp)
                    \<lparr>mo_data = data,
                     mo_meta = \<lparr>ob_Key = pi_Key inp, ob_Size = int (length data), ob_ContentType = pi_ContentType inp,
                       ob_LastModified = now\<rparr>\<rparr> s)))"

definition bucket_find :: "string \<Rightarrow> mem_bucket \<Rightarrow> bucket_error + mem_object" where
  "bucket_find k s = (case map_of s k of None \<Rightarrow> Inl ErrNotFound | Some ob \<Rightarrow> Inr ob)"

definition bucket_Get :: "string \<Rightarrow> mem_bucket \<Rightarrow> bucket_error + bucket_object \<times> string" where
  "bucket_Get k s = (case bucket_find k s of Inl e \<Rightarrow> Inl e | Inr ob \<Rightarrow> Inr (mo_meta ob, mo_data ob))"

definition bucket_Stat :: "string \<Rightarrow> mem_bucket \<Rightarrow> bucket_error + bucket_object" where
  "bucket_Stat k s = (case bucket_find k s of Inl e \<Rightarrow> Inl e | Inr ob \<Rightarrow> Inr (mo_meta ob))"

definition mem_All :: "string \<Rightarrow> mem_bucket \<Rightarrow> (bucket_error + bucket_object) list" where
  "mem_All p s = map Inr (sort_key ob_Key (map (\<lambda>(_, ob). mo_meta ob) (filter (\<lambda>(k, _). prefix p k) s)))"

definition mem_List :: "string \<Rightarrow> mem_bucket \<Rightarrow> bucket_error + bucket_object list" where
  "mem_List p s = Collect_all (mem_All p s)"

definition bucket_Delete :: "string \<Rightarrow> mem_bucket \<Rightarrow> bucket_error option \<times> mem_bucket" where
  "bucket_Delete k s = (None, AList.delete k s)"

definition bucket_DeleteMany :: "string list \<Rightarrow> mem_bucket \<Rightarrow> bucket_error option \<times> mem_bucket" where
  "bucket_DeleteMany ks s = (None, fold AList.delete ks s)"

definition mem_bucket_store :: "int \<Rightarrow> mem_bucket bucket_store" where
  "mem_bucket_store now =
     \<lparr>st_Put = bucket_Put now, st_List = mem_List, st_Delete = bucket_Delete, st_Walk = Some mem_All,
      st_ListDir = None, st_DeleteMany = Some bucket_DeleteMany, st_CreateFolder = None\<rparr>"

text \<open>The check that precedes a presigned URL; the URL itself is not built.\<close>

definition presign_check :: "string \<Rightarrow> int \<Rightarrow> bucket_error option" where
  "presign_check k ttl = (if k = [] then Some ErrInvalidConfig else CheckPresignTTL ttl 0)"

section \<open>Lemmas\<close>

lemma Collect_all_Inr [simp]: "Collect_all (map Inr os) = Inr os"
  by (induction os) auto

lemma implied_prefix: "prefix p k \<Longrightarrow> f \<in> set (implied_folders p k) \<Longrightarrow> prefix p f"
  by (auto simp: implied_folders_def prefix_def)

lemma set_delete_keys: "set (delete_keys p listed) = set listed \<union> \<Union> (set (map (set \<circ> implied_folders p) listed))"
  by (auto simp: delete_keys_def)

lemma delete_keys_prefix: "list_all (prefix p) listed \<Longrightarrow> k \<in> set (delete_keys p listed) \<Longrightarrow> prefix p k"
  using implied_prefix by (fastforce simp: set_delete_keys list_all_iff)

lemma delete_keys_count: "length (filter (\<lambda>k. k \<in> set listed) (delete_keys p listed)) = length listed"
  by (simp add: delete_keys_def filter_sort flip: rev_filter)

lemma strict_prefix_less: "strict_prefix f k \<Longrightarrow> f < (k :: string)"
proof -
  assume "strict_prefix f k"
  then obtain c zs where "k = f @ c # zs" by (rule strict_prefixE')
  then show ?thesis unfolding list_less_def by (simp add: lexord_append_rightI)
qed

section \<open>The contract of a store\<close>

locale object_store =
  fixes store :: "'s bucket_store"
    and content :: "'s \<Rightarrow> string \<Rightarrow> 'v option"
    and invar :: "'s \<Rightarrow> bool"
  assumes all_ok: "invar s \<Longrightarrow> \<exists>os. bucket_All store p s = map Inr os \<and> distinct (map ob_Key os) \<and>
      set (map ob_Key os) = {k \<in> dom (content s). prefix p k}"
    and delete_ok: "invar s \<Longrightarrow> \<exists>s'. st_Delete store k s = (None, s') \<and> invar s' \<and> content s' = content s |` (- {k})"
    and delete_many_ok: "invar s \<Longrightarrow> st_DeleteMany store = Some del \<Longrightarrow>
      \<exists>s'. del ks s = (None, s') \<and> invar s' \<and> content s' = content s |` (- set ks)"
begin

lemma delete_each_ok:
  "invar s \<Longrightarrow> \<exists>s'. delete_each (st_Delete store) listed ks n s =
     ((n + length (filter (\<lambda>k. k \<in> set listed) ks), None), s') \<and> invar s' \<and> content s' = content s |` (- set ks)"
proof (induction ks arbitrary: n s)
  case (Cons k ks)
  obtain s1 where s1: "st_Delete store k s = (None, s1)" "invar s1" "content s1 = content s |` (- {k})"
    using delete_ok [OF Cons.prems] by blast
  have "- {k} \<inter> - set ks = - set (k # ks)" by auto
  then show ?case using Cons.IH [OF s1(2), of "if k \<in> set listed then n + 1 else n"] s1 by (auto simp: restrict_restrict)
qed (simp add: restrict_map_def)

lemma delete_batches_ok:
  assumes "st_DeleteMany store = Some del"
  shows "invar s \<Longrightarrow> \<exists>s'. delete_batches del listed ks n s =
     ((n + length (filter (\<lambda>k. k \<in> set listed) ks), None), s') \<and> invar s' \<and> content s' = content s |` (- set ks)"
proof (induction "length ks" arbitrary: ks n s rule: less_induct)
  case less
  show ?case
  proof (cases "ks = []")
    case True
    then show ?thesis using less.prems by (simp add: delete_batches.simps restrict_map_def)
  next
    case False
    let ?t = "take deleteBatch ks" and ?d = "drop deleteBatch ks"
    obtain s1 where s1: "del ?t s = (None, s1)" "invar s1" "content s1 = content s |` (- set ?t)"
      using delete_many_ok [OF less.prems assms] by blast
    have ks: "filter (\<lambda>k. k \<in> set listed) ks = filter (\<lambda>k. k \<in> set listed) ?t @ filter (\<lambda>k. k \<in> set listed) ?d"
      "- set ?t \<inter> - set ?d = - set ks"
      using append_take_drop_id [of deleteBatch ks] by (metis filter_append, metis Compl_Un set_append)
    have "length ?d < length ks" using False by (simp add: deleteBatch_def)
    from less.hyps [OF this s1(2), of "n + length (filter (\<lambda>k. k \<in> set listed) ?t)"] show ?thesis
      using s1 False by (simp add: delete_batches.simps [of del listed ks] ks restrict_restrict add.assoc)
  qed
qed

lemma delete_prefix_ok:
  assumes "invar s"
  shows "\<exists>s'. DeletePrefix store p s = ((card {k \<in> dom (content s). prefix p k}, None), s') \<and> invar s' \<and>
    content s' = content s |` {k. \<not> prefix p k}"
proof -
  obtain os where os: "bucket_All store p s = map Inr os" "distinct (map ob_Key os)" "set (map ob_Key os) = {k \<in> dom (content s). prefix p k}"
    using all_ok [OF assms] by blast
  let ?listed = "map ob_Key os"
  let ?keys = "delete_keys p ?listed"
  have n: "length (filter (\<lambda>k. k \<in> set ?listed) ?keys) = card {k \<in> dom (content s). prefix p k}"
    using distinct_card [OF os(2)] os(3) delete_keys_count [of ?listed p] by simp
  have "prefix p k" if "k \<in> set ?keys" for k
    using that delete_keys_prefix [of p ?listed] os(3) by (auto simp: list_all_iff)
  moreover have "k \<in> set ?keys" if "prefix p k" "k \<in> dom (content s)" for k
    using that os(3) set_delete_keys [of p ?listed] by blast
  ultimately have c: "content s |` (- set ?keys) = content s |` {k. \<not> prefix p k}"
    by (auto simp: restrict_map_def fun_eq_iff)
  show ?thesis
  proof (cases "st_DeleteMany store")
    case None
    then show ?thesis using delete_each_ok [OF assms, of ?listed ?keys 0] os(1,2) n c
      by (simp add: DeletePrefix_def distinct_remdups_id Let_def)
  next
    case (Some del)
    then show ?thesis using delete_batches_ok [OF Some assms, of ?listed ?keys 0] os(1,2) n c
      by (simp add: DeletePrefix_def distinct_remdups_id Let_def)
  qed
qed

end

text \<open>The invariant of the store in memory: one entry per key, with the key in its data.\<close>

definition bucket_ok :: "mem_bucket \<Rightarrow> bool" where
  "bucket_ok s \<longleftrightarrow> distinct (map fst s) \<and> list_all (\<lambda>(k, ob). ob_Key (mo_meta ob) = k) s"

lemma bucket_ok_delete: "bucket_ok s \<Longrightarrow> bucket_ok (AList.delete k s)"
  by (auto simp: bucket_ok_def distinct_map_filter list_all_iff AList.delete_eq)

lemma bucket_ok_fold_delete: "bucket_ok s \<Longrightarrow> bucket_ok (fold AList.delete ks s)"
  by (induction ks arbitrary: s) (simp_all add: bucket_ok_delete)

lemma map_of_fold_delete: "map_of (fold AList.delete ks s) = map_of s |` (- set ks)"
proof (induction ks arbitrary: s)
  case (Cons k ks)
  have "- {k} \<inter> - set ks = - set (k # ks)" by auto
  moreover have "map_of (AList.delete k s) = map_of s |` (- {k})" by (auto simp: delete_conv restrict_map_def fun_eq_iff)
  ultimately show ?case using Cons by (simp add: restrict_restrict)
qed (simp add: restrict_map_def)

lemma bucket_ok_Put:
  assumes "bucket_ok s" and "bucket_Put now inp s = (e, s')"
  shows "bucket_ok s'"
proof -
  have upd: "bucket_ok (AList.update k ob s)" if "ob_Key (mo_meta ob) = k" for k ob
  proof -
    have "list_all (\<lambda>(k, ob). ob_Key (mo_meta ob) = k) s \<Longrightarrow> list_all (\<lambda>(k, ob). ob_Key (mo_meta ob) = k) (AList.update k ob s)"
      using that by (induction s) auto
    then show ?thesis using assms(1) by (simp add: bucket_ok_def distinct_update)
  qed
  show ?thesis using assms by (auto simp: bucket_Put_def intro!: upd split: option.splits if_splits sum.splits)
qed

lemma mem_All_ok:
  assumes "bucket_ok s"
  shows "\<exists>os. mem_All p s = map Inr os \<and> distinct (map ob_Key os) \<and> set (map ob_Key os) = {k \<in> dom (map_of s). prefix p k}"
proof -
  let ?s = "filter (\<lambda>(k, _). prefix p k) s"
  let ?os = "sort_key ob_Key (map (\<lambda>(_, ob). mo_meta ob) ?s)"
  have k: "map ob_Key (map (\<lambda>(_, ob). mo_meta ob) ?s) = map fst ?s"
    using assms by (auto simp: bucket_ok_def list_all_iff)
  have "mset (map ob_Key ?os) = mset (map ob_Key (map (\<lambda>(_, ob). mo_meta ob) ?s))" by (simp only: mset_map mset_sort)
  then have "mset (map ob_Key ?os) = mset (map fst ?s)" by (simp only: k)
  then have "distinct (map ob_Key ?os) \<and> set (map ob_Key ?os) = fst ` set ?s"
    using assms mset_eq_imp_distinct_iff [of "map ob_Key ?os" "map fst ?s"] mset_eq_setD [of "map ob_Key ?os" "map fst ?s"]
    by (simp add: bucket_ok_def distinct_map_filter)
  moreover have "fst ` set ?s = {k \<in> dom (map_of s). prefix p k}" by (auto simp: dom_map_of_conv_image_fst)
  ultimately show ?thesis by (auto simp: mem_All_def)
qed

interpretation mem_objects: object_store "mem_bucket_store now" map_of bucket_ok for now
proof
  fix s :: mem_bucket and p
  assume "bucket_ok s"
  then show "\<exists>os. bucket_All (mem_bucket_store now) p s = map Inr os \<and> distinct (map ob_Key os) \<and>
      set (map ob_Key os) = {k \<in> dom (map_of s). prefix p k}"
    using mem_All_ok by (simp add: bucket_All_def mem_bucket_store_def)
next
  fix s :: mem_bucket and k
  assume "bucket_ok s"
  then show "\<exists>s'. st_Delete (mem_bucket_store now) k s = (None, s') \<and> bucket_ok s' \<and> map_of s' = map_of s |` (- {k})"
    using map_of_fold_delete [of "[k]" s] by (simp add: mem_bucket_store_def bucket_Delete_def bucket_ok_delete)
next
  fix s :: mem_bucket and del ks
  assume "bucket_ok s" "st_DeleteMany (mem_bucket_store now) = Some del"
  then show "\<exists>s'. del ks s = (None, s') \<and> bucket_ok s' \<and> map_of s' = map_of s |` (- set ks)"
    by (auto simp: mem_bucket_store_def bucket_DeleteMany_def bucket_ok_fold_delete map_of_fold_delete)
qed

lemma mem_objects_dir:
  assumes "bucket_ok s"
  shows "\<exists>os. ListDir (mem_bucket_store now) p s = Inr (dir_of p os) \<and> distinct (map ob_Key os) \<and>
    set (map ob_Key os) = {k \<in> dom (map_of s). prefix p k}"
  using mem_All_ok [OF assms, of p] by (auto simp: ListDir_def bucket_All_def mem_bucket_store_def)

lemma in_map_filter: "x \<in> set (List.map_filter g xs) \<longleftrightarrow> (\<exists>y \<in> set xs. g y = Some x)"
  by (induction xs) (auto simp: List.map_filter_simps split: option.splits)

lemma dir_folders: "f \<in> set (dir_Folders (dir_of p os)) \<longleftrightarrow> (\<exists>ob \<in> set os. folder_of p (ob_Key ob) = Some f)"
  by (auto simp: dir_of_def Let_def in_map_filter folder_of_def)

lemma dir_objects:
  "ob \<in> set (dir_Objects (dir_of p os)) \<longleftrightarrow> ob \<in> set os \<and> drop (length p) (ob_Key ob) \<noteq> [] \<and> folder_of p (ob_Key ob) = None"
  by (auto simp: dir_of_def Let_def)

lemma dir_object_keys:
  "k \<in> ob_Key ` set (dir_Objects (dir_of p os)) \<longleftrightarrow> k \<in> ob_Key ` set os \<and> drop (length p) k \<noteq> [] \<and> folder_of p k = None"
  unfolding image_iff using dir_objects [of _ p os] by auto

lemma folder_of_Some:
  assumes "prefix p k"
  shows "folder_of p k = Some f \<longleftrightarrow> (\<exists>a b. k = p @ a @ ''/'' @ b \<and> CHR ''/'' \<notin> set a \<and> f = p @ a @ ''/'')"
  using assms by (auto simp: folder_of_def cut_Some prefix_def)

section \<open>Properties\<close>

text \<open>C23.
  Deleting a prefix removes exactly the objects under it, reports their number, and leaves every other object as it was.
\<close>

theorem delete_prefix_is_exact:
  assumes "bucket_ok s"
  shows "\<exists>s'. DeletePrefix (mem_bucket_store now) p s = ((card {k \<in> dom (map_of s). prefix p k}, None), s') \<and>
    bucket_ok s' \<and> map_of s' = map_of s |` {k. \<not> prefix p k}"
  by (rule mem_objects.delete_prefix_ok [OF assms])

definition sample_object :: "string \<Rightarrow> string \<times> mem_object" where
  "sample_object k = (k, \<lparr>mo_data = ''x'', mo_meta = \<lparr>ob_Key = k, ob_Size = 1, ob_ContentType = [], ob_LastModified = 0\<rparr>\<rparr>)"

definition sample_bucket :: mem_bucket where
  "sample_bucket = map sample_object [''a/b/c'', ''a/d'', ''e'']"

lemma sample_bucket_ok: "bucket_ok sample_bucket"
  by (simp add: bucket_ok_def sample_bucket_def sample_object_def)

theorem delete_prefix_is_exact_witness:
  "\<exists>s'. snd (DeletePrefix (mem_bucket_store 0) ''a/'' sample_bucket) = s' \<and> map_of s' ''a/d'' = None \<and> map_of s' ''e'' \<noteq> None"
  using delete_prefix_is_exact [OF sample_bucket_ok, of 0 "''a/''"]
  by (auto simp: sample_bucket_def sample_object_def restrict_map_def)

text \<open>The keys are deleted deepest first: no key is followed by one below it, so a store with real folders only removes empty
  ones. Every folder that the listed keys imply under the prefix is among them.
\<close>

theorem delete_keys_deepest_first:
  "sorted_wrt (\<lambda>a b. \<not> strict_prefix a b) (delete_keys p listed) \<and>
   set (delete_keys p listed) = set listed \<union> \<Union> (set (map (set \<circ> implied_folders p) listed))"
proof -
  have "sorted_wrt (\<lambda>a b. b \<le> a) (delete_keys p listed)"
    by (simp add: delete_keys_def sorted_wrt_rev)
  then have "sorted_wrt (\<lambda>a b. \<not> strict_prefix a b) (delete_keys p listed)"
    by (rule sorted_wrt_mono_rel [rotated]) (auto dest: strict_prefix_less)
  then show ?thesis by (simp add: set_delete_keys)
qed

text \<open>A folder listing is complete and exact: a key under the prefix appears as an object of this level or through the folder
  of the next level, every folder listed holds a key, and no object listed lies deeper. The folders are sorted, without
  repetition.
\<close>

theorem list_dir_is_one_level:
  assumes "bucket_ok s" and "ListDir (mem_bucket_store now) p s = Inr d"
  shows "sorted (dir_Folders d) \<and> distinct (dir_Folders d) \<and>
    (\<forall>k a. (k \<in> dom (map_of s) \<and> k = p @ a \<and> a \<noteq> [] \<and> CHR ''/'' \<notin> set a) \<longleftrightarrow> k \<in> ob_Key ` set (dir_Objects d) \<and> k = p @ a) \<and>
    (\<forall>f. f \<in> set (dir_Folders d) \<longleftrightarrow>
       (\<exists>a b. f = p @ a @ ''/'' \<and> CHR ''/'' \<notin> set a \<and> p @ a @ ''/'' @ b \<in> dom (map_of s)))"
proof -
  obtain os where os: "d = dir_of p os" "set (map ob_Key os) = {k \<in> dom (map_of s). prefix p k}"
    using mem_objects_dir [OF assms(1), of now p] assms(2) by auto
  have none: "folder_of p (p @ a) = None \<longleftrightarrow> CHR ''/'' \<notin> set a" for a by (simp add: folder_of_def cut_None)
  have "k \<in> ob_Key ` set (dir_Objects d) \<longleftrightarrow> k \<in> dom (map_of s) \<and> a \<noteq> [] \<and> CHR ''/'' \<notin> set a" if "k = p @ a" for k a
    using that os none [of a] by (simp add: dir_object_keys)
  moreover have "f \<in> set (dir_Folders d) \<longleftrightarrow> (\<exists>k \<in> set (map ob_Key os). folder_of p k = Some f)" for f
    by (auto simp: os(1) dir_folders)
  then have "f \<in> set (dir_Folders d) \<longleftrightarrow>
      (\<exists>a b. f = p @ a @ ''/'' \<and> CHR ''/'' \<notin> set a \<and> p @ a @ ''/'' @ b \<in> dom (map_of s))" for f
    unfolding os(2) by (auto simp: folder_of_Some)
  moreover have "sorted (dir_Folders d) \<and> distinct (dir_Folders d)" by (simp add: os(1) dir_of_def Let_def)
  ultimately show ?thesis by blast
qed

lemma sample_dir_ok: "ListDir (mem_bucket_store 0) ''a/'' sample_bucket =
    Inr \<lparr>dir_Prefix = ''a/'', dir_Folders = [''a/b/''], dir_Objects = [mo_meta (snd (sample_object ''a/d''))]\<rparr>"
  by code_simp

theorem list_dir_is_one_level_witness: "sorted [''a/b/'']"
  using list_dir_is_one_level [OF sample_bucket_ok sample_dir_ok] by simp

text \<open>What was put is what is read back, with its size, and no other object changes. The store stays well-formed.
\<close>

theorem put_get_round_trip:
  assumes "bucket_ok s" and "pi_Body inp = Some (Inr data)" and "pi_Key inp \<noteq> []"
  shows "\<exists>s' meta. bucket_Put now inp s = (None, s') \<and> bucket_ok s' \<and> bucket_Get (pi_Key inp) s' = Inr (meta, data) \<and>
    ob_Size meta = int (length data) \<and> (\<forall>k. k \<noteq> pi_Key inp \<longrightarrow> bucket_Get k s' = bucket_Get k s)"
proof -
  obtain s' where p: "bucket_Put now inp s = (None, s')" using assms(2,3) by (simp add: bucket_Put_def)
  then show ?thesis using bucket_ok_Put [OF assms(1) p] assms(2,3)
    by (auto simp: bucket_Put_def bucket_Get_def bucket_find_def update_conv')
qed

theorem put_get_round_trip_witness:
  "\<exists>s' meta. bucket_Put 0 \<lparr>pi_Key = ''k'', pi_Body = Some (Inr ''v''), pi_ContentType = []\<rparr> sample_bucket = (None, s') \<and>
     bucket_Get ''k'' s' = Inr (meta, ''v'')"
  using put_get_round_trip [OF sample_bucket_ok, of "\<lparr>pi_Key = ''k'', pi_Body = Some (Inr ''v''), pi_ContentType = []\<rparr>" "''v''" 0]
  by auto

end
