(* ===== verification/Jwks.thy ===== *)
theory Jwks
  imports Iam_Ticket Safe_Client
begin

text \<open>
  Tokens of other issuers (\<^verbatim>\<open>iam/provider/jwks\<close>): the keys of a JWKS document (\<^verbatim>\<open>jwk.go\<close>), their cache
  (\<^verbatim>\<open>cache.go\<close>) and the verifier (\<^verbatim>\<open>verifier.go\<close>). URL parsing, the HTTP response with its decoded document, the
  elliptic curves and the JWT library are the fields of \<open>jwks_env\<close>. One caller runs at a time; a caller that stops
  waiting for a shared fetch is modelled, the sharing is not.
\<close>

section \<open>The surroundings\<close>

record jwk_key =
  jk_Kty :: string
  jk_Kid :: string
  jk_N :: string
  jk_E :: string
  jk_Crv :: string
  jk_X :: string
  jk_Y :: string

text \<open>An elliptic key is its curve and its uncompressed point.\<close>

datatype public_key = RSAKey int int | ECKey string string

datatype jwks_error =
  InvalidEndpoint | ErrInsecureEndpoint | KeyNotFound string | FetchFailed string | BadStatus int | DecodeFailed | NoUsableKeys
| ContextDone | JwksInvalidConfig | JwksInvalidToken string

record jwks_url =
  ju_Scheme :: string
  ju_Host :: string
  ju_Hostname :: string

record jwt_options =
  jo_Methods :: "string list"
  jo_Issuer :: string
  jo_Audience :: string
  jo_Leeway :: int

text \<open>
  \<open>je_get url\<close>: the error of the request, or the status and the decoded document if it decodes.
  \<open>je_unverified raw\<close>: the \<open>alg\<close> and \<open>kid\<close> of the header. \<open>je_claims\<close>: the claims of a token whose signature and claims hold.
\<close>

record 'c jwks_env =
  je_parse :: "string \<Rightarrow> jwks_url option"
  je_get :: "string \<Rightarrow> string + int \<times> jwk_key list option"
  je_on_curve :: "string \<Rightarrow> string \<Rightarrow> bool"
  je_unverified :: "string \<Rightarrow> (string \<times> string) option"
  je_claims :: "jwt_options \<Rightarrow> public_key \<Rightarrow> string \<Rightarrow> string + 'c"
  je_iat :: "'c \<Rightarrow> time option"
  je_exp :: "'c \<Rightarrow> time"

section \<open>Keys\<close>

definition bytes_int :: "string \<Rightarrow> int" where
  "bytes_int s = foldl (\<lambda>n c. 256 * n + of_char c) 0 s"

text \<open>\<^verbatim>\<open>n.BitLen() < MinRSABits\<close> is \<open>n < 2 ^ (MinRSABits - 1)\<close>.\<close>

definition MinRSABits :: nat where
  "MinRSABits = 2048"

definition rsaPublicKey :: "jwk_key \<Rightarrow> public_key option" where
  "rsaPublicKey k =
     (case (b64_decode (jk_N k), b64_decode (jk_E k)) of
        (Some nBytes, Some eBytes) \<Rightarrow>
          (let n = bytes_int nBytes; e = bytes_int eBytes
           in if n < 2 ^ (MinRSABits - 1) then None
              else if eBytes = [] \<or> 4 < length eBytes then None
              else if e < 3 \<or> e mod 2 = 0 then None
              else Some (RSAKey n e))
      | _ \<Rightarrow> None)"

definition curve_size :: "string \<Rightarrow> nat option" where
  "curve_size crv = map_of [(''P-256'', 32), (''P-384'', 48), (''P-521'', 66)] crv"

definition ecPublicKey :: "'c jwks_env \<Rightarrow> jwk_key \<Rightarrow> public_key option" where
  "ecPublicKey env k =
     (case (b64_decode (jk_X k), b64_decode (jk_Y k), curve_size (jk_Crv k)) of
        (Some x, Some y, Some sz) \<Rightarrow>
          if sz < length x \<or> sz < length y then None
          else
            (let pad = (\<lambda>b. replicate (sz - length b) (CHR 0x00) @ b); point = CHR 0x04 # pad x @ pad y
             in if je_on_curve env (jk_Crv k) point then Some (ECKey (jk_Crv k) point) else None)
      | _ \<Rightarrow> None)"

definition PublicKey :: "'c jwks_env \<Rightarrow> jwk_key \<Rightarrow> public_key option" where
  "PublicKey env k =
     (if jk_Kty k = ''RSA'' then rsaPublicKey k else if jk_Kty k = ''EC'' then ecPublicKey env k else None)"

section \<open>The cache\<close>

definition isLoopback :: "string \<Rightarrow> bool" where
  "isLoopback host \<longleftrightarrow>
     Transport.EqualFold host ''localhost'' \<or>
     (case ParseAddr host of None \<Rightarrow> False | Some ip \<Rightarrow> without_zone ip = ip \<and> Safe_Client.IsLoopback ip)"

definition RequireHTTPS :: "'c jwks_env \<Rightarrow> string \<Rightarrow> jwks_error option" where
  "RequireHTTPS env raw =
     (case je_parse env raw of
        None \<Rightarrow> Some InvalidEndpoint
      | Some u \<Rightarrow>
          if ju_Scheme u = ''https'' \<and> ju_Host u \<noteq> [] then None
          else if ju_Scheme u = ''http'' \<and> isLoopback (ju_Hostname u) then None
          else Some ErrInsecureEndpoint)"

definition minRefresh :: int where
  "minRefresh = 30 * nanosecond_s"

text \<open>\<open>jc_fetchedAt\<close> is \<open>None\<close> for the zero time, from which every duration is the longest one.\<close>

record jwks_cache =
  jc_ttl :: int
  jc_keys :: "(string \<times> public_key) list"
  jc_fetchedAt :: "time option"

definition NewCache :: "int \<Rightarrow> jwks_cache" where
  "NewCache ttl = \<lparr>jc_ttl = (if ttl \<le> 0 then 3600 * nanosecond_s else ttl), jc_keys = [], jc_fetchedAt = None\<rparr>"

definition findKey :: "string \<Rightarrow> jwks_cache \<Rightarrow> public_key option" where
  "findKey kid c = map_option snd (List.find (\<lambda>(k, _). kid = [] \<or> k = kid) (jc_keys c))"

definition jwks_lookup :: "string \<Rightarrow> time \<Rightarrow> jwks_cache \<Rightarrow> public_key option \<times> int" where
  "jwks_lookup kid now c =
     (findKey kid c,
      case jc_fetchedAt c of None \<Rightarrow> 2 ^ 63 - 1 | Some t \<Rightarrow> max (- (2 ^ 63)) (min (2 ^ 63 - 1) (now - t)))"

definition jwks_fetch :: "'c jwks_env \<Rightarrow> string \<Rightarrow> time \<Rightarrow> jwks_cache \<Rightarrow> jwks_error option \<times> jwks_cache" where
  "jwks_fetch env url now c =
     (case RequireHTTPS env url of
        Some e \<Rightarrow> (Some e, c)
      | None \<Rightarrow>
          (case je_get env url of
             Inl e \<Rightarrow> (Some (FetchFailed e), c)
           | Inr (status, doc) \<Rightarrow>
               if status \<noteq> 200 then (Some (BadStatus status), c)
               else
                 (case doc of
                    None \<Rightarrow> (Some DecodeFailed, c)
                  | Some ks \<Rightarrow>
                      (let parsed = List.map_filter (\<lambda>k. map_option (\<lambda>pub. (jk_Kid k, pub)) (PublicKey env k)) ks
                       in if parsed = [] then (Some NoUsableKeys, c)
                          else (None, c\<lparr>jc_keys := parsed, jc_fetchedAt := Some now\<rparr>)))))"

text \<open>
  A caller's wait for the fetch: \<open>Waited\<close> to its end, or until its own context ended, by when the fetch had taken effect
  or not. The result says also whether a fetch was started.
\<close>

datatype flight = Waited | Left bool

definition flight_Do :: "flight \<Rightarrow> jwks_error option \<times> jwks_cache \<Rightarrow> jwks_cache \<Rightarrow> jwks_error option \<times> jwks_cache" where
  "flight_Do fl done c =
     (case fl of Waited \<Rightarrow> done | Left landed \<Rightarrow> (Some ContextDone, if landed then snd done else c))"

definition GetKey ::
  "'c jwks_env \<Rightarrow> string \<Rightarrow> string \<Rightarrow> time \<Rightarrow> time \<Rightarrow> flight \<Rightarrow> jwks_cache \<Rightarrow> (jwks_error + public_key) \<times> jwks_cache \<times> bool" where
  "GetKey env url kid now fetched fl c =
     (case jwks_lookup kid now c of
        (key, age) \<Rightarrow>
          (let fresh = (age < jc_ttl c)
           in if key \<noteq> None \<and> fresh then (Inr (the key), c, False)
              else if fresh \<and> age < minRefresh then (Inl (KeyNotFound kid), c, False)
              else
                (case flight_Do fl (jwks_fetch env url fetched c) c of
                   (err, c) \<Rightarrow>
                     (case findKey kid c of
                        Some k \<Rightarrow> (Inr k, c, True)
                      | None \<Rightarrow> (Inl (case err of Some e \<Rightarrow> e | None \<Rightarrow> KeyNotFound kid), c, True)))))"

definition jwks_Refresh ::
  "'c jwks_env \<Rightarrow> string \<Rightarrow> time \<Rightarrow> flight \<Rightarrow> jwks_cache \<Rightarrow> (jwks_error + nat) \<times> jwks_cache" where
  "jwks_Refresh env url now fl c =
     (case flight_Do fl (jwks_fetch env url now c) c of
        (Some e, c) \<Rightarrow> (Inl e, c)
      | (None, c) \<Rightarrow> (Inr (length (jc_keys c)), c))"

section \<open>The verifier\<close>

record jwks_config =
  jcf_JWKSURL :: string
  jcf_Issuer :: string
  jcf_Audience :: string
  jcf_Algorithms :: "string list"
  jcf_ClockSkew :: int
  jcf_MaxLifetime :: int
  jcf_CacheTTL :: int

definition asymmetric :: "string list" where
  "asymmetric = [''RS256'', ''RS384'', ''RS512'', ''PS256'', ''PS384'', ''PS512'', ''ES256'', ''ES384'', ''ES512'']"

definition MaxClockSkew :: int where
  "MaxClockSkew = 300 * nanosecond_s"

definition NewVerifier :: "'c jwks_env \<Rightarrow> jwks_config \<Rightarrow> jwks_error + jwks_config \<times> jwks_cache" where
  "NewVerifier env cfg =
     (case RequireHTTPS env (jcf_JWKSURL cfg) of
        Some e \<Rightarrow> Inl JwksInvalidConfig
      | None \<Rightarrow>
          (let algs = (if jcf_Algorithms cfg = [] then [''RS256'', ''ES256''] else jcf_Algorithms cfg);
               skew = (if jcf_ClockSkew cfg \<le> 0 then 60 * nanosecond_s else jcf_ClockSkew cfg)
           in if jcf_Issuer cfg = [] \<or> jcf_Audience cfg = [] \<or> \<not> list_all (\<lambda>a. a \<in> set asymmetric) algs \<or> jcf_MaxLifetime cfg < 0
              then Inl JwksInvalidConfig
              else Inr (cfg\<lparr>jcf_Algorithms := algs, jcf_ClockSkew := min skew MaxClockSkew\<rparr>, NewCache (jcf_CacheTTL cfg))))"

definition checkLifetime :: "'c jwks_env \<Rightarrow> jwks_config \<Rightarrow> 'c \<Rightarrow> jwks_error option" where
  "checkLifetime env cfg claims =
     (if jcf_MaxLifetime cfg = 0 then None
      else
        (case je_iat env claims of
           None \<Rightarrow> Some (JwksInvalidToken ''iat'')
         | Some iat \<Rightarrow> if jcf_MaxLifetime cfg < je_exp env claims - iat then Some (JwksInvalidToken ''lifetime'') else None))"

definition jwks_Verify ::
  "'c jwks_env \<Rightarrow> jwks_config \<Rightarrow> string \<Rightarrow> time \<Rightarrow> time \<Rightarrow> flight \<Rightarrow> jwks_cache \<Rightarrow> (jwks_error + 'c) \<times> jwks_cache" where
  "jwks_Verify env cfg raw now fetched fl c =
     (case je_unverified env raw of
        None \<Rightarrow> (Inl (JwksInvalidToken ''malformed''), c)
      | Some (alg, kid) \<Rightarrow>
          if alg \<notin> set (jcf_Algorithms cfg) then (Inl (JwksInvalidToken ''algorithm''), c)
          else
            (case GetKey env (jcf_JWKSURL cfg) kid now fetched fl c of
               (Inl e, c, _) \<Rightarrow> (Inl (JwksInvalidToken ''key''), c)
             | (Inr key, c, _) \<Rightarrow>
                 (case je_claims env \<lparr>jo_Methods = jcf_Algorithms cfg, jo_Issuer = jcf_Issuer cfg, jo_Audience = jcf_Audience cfg,
                     jo_Leeway = jcf_ClockSkew cfg\<rparr> key raw of
                    Inl e \<Rightarrow> (Inl (JwksInvalidToken e), c)
                  | Inr claims \<Rightarrow>
                      (case checkLifetime env cfg claims of Some e \<Rightarrow> (Inl e, c) | None \<Rightarrow> (Inr claims, c)))))"

section \<open>Lemmas\<close>

text \<open>The keys the cache may hold.\<close>

fun strong_key :: "public_key \<Rightarrow> bool" where
  "strong_key (RSAKey n e) \<longleftrightarrow> 2 ^ (MinRSABits - 1) \<le> n \<and> 3 \<le> e \<and> e < 2 ^ 32 \<and> odd e"
| "strong_key (ECKey crv point) \<longleftrightarrow> crv \<in> {''P-256'', ''P-384'', ''P-521''}"

definition keys_strong :: "jwks_cache \<Rightarrow> bool" where
  "keys_strong c \<longleftrightarrow> list_all (\<lambda>(_, k). strong_key k) (jc_keys c)"

lemma bytes_int_snoc: "bytes_int (s @ [c]) = 256 * bytes_int s + of_char c"
  by (simp add: bytes_int_def)

lemma bytes_int_bound: "0 \<le> bytes_int s \<and> bytes_int s < 256 ^ length s"
proof (induction s rule: rev_induct)
  case (snoc c s)
  have "(of_char c :: int) < 256" "0 \<le> (of_char c :: int)"
    using of_char_mod_256 [of c, where 'a = int] by (metis pos_mod_bound zero_less_numeral, metis pos_mod_sign zero_less_numeral)
  then show ?case using snoc by (simp add: bytes_int_snoc)
qed (simp add: bytes_int_def)

lemma rsaPublicKey_strong: "rsaPublicKey k = Some pub \<Longrightarrow> strong_key pub"
proof -
  assume a: "rsaPublicKey k = Some pub"
  then obtain nb eb where b: "b64_decode (jk_N k) = Some nb" "b64_decode (jk_E k) = Some eb"
    by (auto simp: rsaPublicKey_def split: option.splits)
  have "(256 :: int) ^ length eb \<le> 256 ^ 4" if "length eb \<le> 4" using that by (intro power_increasing) auto
  then have "bytes_int eb < 2 ^ 32" if "length eb \<le> 4" using bytes_int_bound [of eb] that by fastforce
  then show ?thesis using a b by (auto simp: rsaPublicKey_def Let_def not_less even_iff_mod_2_eq_zero split: if_splits)
qed

lemma ecPublicKey_strong: "ecPublicKey env k = Some pub \<Longrightarrow> strong_key pub"
  by (auto simp: ecPublicKey_def curve_size_def Let_def split: option.splits if_splits)

lemma PublicKey_strong: "PublicKey env k = Some pub \<Longrightarrow> strong_key pub"
  using rsaPublicKey_strong ecPublicKey_strong by (auto simp: PublicKey_def split: if_splits)

lemma parsed_strong:
  "list_all (\<lambda>(_, k). strong_key k) (List.map_filter (\<lambda>k. map_option (\<lambda>pub. (jk_Kid k, pub)) (PublicKey env k)) ks)"
  by (induction ks) (auto simp: List.map_filter_simps PublicKey_strong split: option.splits)

lemma jwks_fetch_cases:
  obtains (kept) e where "jwks_fetch env url now c = (Some e, c)"
  | (replaced) ks where "jwks_fetch env url now c = (None, c\<lparr>jc_keys := ks, jc_fetchedAt := Some now\<rparr>)" "ks \<noteq> []"
      "list_all (\<lambda>(_, k). strong_key k) ks"
proof (cases "fst (jwks_fetch env url now c)")
  case (Some e)
  then show ?thesis by (intro kept) (auto simp: jwks_fetch_def Let_def split: option.splits sum.splits if_splits)
next
  case None
  then obtain ks where "jwks_fetch env url now c = (None, c\<lparr>jc_keys := ks, jc_fetchedAt := Some now\<rparr>)" "ks \<noteq> []"
      "list_all (\<lambda>(_, k). strong_key k) ks"
    using parsed_strong [of env] by (auto simp: jwks_fetch_def Let_def split: option.splits sum.splits if_splits)
  then show ?thesis by (rule replaced)
qed

lemma flight_Do_keeps: "snd (flight_Do fl done c) \<in> {snd done, c}"
  by (cases fl) (auto simp: flight_Do_def)

lemma fetch_strong: "keys_strong c \<Longrightarrow> keys_strong (snd (jwks_fetch env url now c))"
  by (rule jwks_fetch_cases [of env url now c]) (auto simp: keys_strong_def)

lemma flight_strong: "keys_strong c \<Longrightarrow> keys_strong (snd (flight_Do fl (jwks_fetch env url now c) c))"
  using flight_Do_keeps [of fl "jwks_fetch env url now c" c] fetch_strong by fastforce

lemma find_in_set: "List.find P xs = Some x \<Longrightarrow> x \<in> set xs"
  by (induction xs) (auto split: if_splits)

lemma findKey_strong: "keys_strong c \<Longrightarrow> findKey kid c = Some k \<Longrightarrow> strong_key k"
  by (auto simp: keys_strong_def findKey_def list_all_iff dest!: find_in_set)

lemma GetKey_strong:
  assumes "keys_strong c" and "GetKey env url kid now fetched fl c = (r, c', started)"
  shows "keys_strong c' \<and> (\<forall>k. r = Inr k \<longrightarrow> strong_key k)"
proof -
  obtain err c1 where fl: "flight_Do fl (jwks_fetch env url fetched c) c = (err, c1)" by (rule prod.exhaust)
  then have "keys_strong c1" using flight_strong [OF assms(1), of fl env url fetched] by simp
  then show ?thesis using assms fl findKey_strong [of c kid] findKey_strong [of c1 kid]
    by (auto simp: GetKey_def jwks_lookup_def Let_def split: if_splits option.splits)
qed

text \<open>An issuer with one elliptic key, whose endpoint answers with the given response.\<close>

definition sample_jwk :: jwk_key where
  "sample_jwk = \<lparr>jk_Kty = ''EC'', jk_Kid = ''k'', jk_N = [], jk_E = [], jk_Crv = ''P-256'', jk_X = [], jk_Y = []\<rparr>"

definition sample_jwks :: "(string + int \<times> jwk_key list option) \<Rightarrow> unit jwks_env" where
  "sample_jwks resp =
     \<lparr>je_parse = (\<lambda>_. Some \<lparr>ju_Scheme = ''https'', ju_Host = ''i.org'', ju_Hostname = ''i.org''\<rparr>), je_get = (\<lambda>_. resp),
      je_on_curve = (\<lambda>_ _. True), je_unverified = (\<lambda>_. Some (''ES256'', ''k'')), je_claims = (\<lambda>_ _ _. Inr ()),
      je_iat = (\<lambda>_. None), je_exp = (\<lambda>_. 0)\<rparr>"

abbreviation up_jwks :: "unit jwks_env" where "up_jwks \<equiv> sample_jwks (Inr (200, Some [sample_jwk]))"
abbreviation down_jwks :: "unit jwks_env" where "down_jwks \<equiv> sample_jwks (Inl ''refused'')"

definition sample_point :: string where
  "sample_point = CHR 0x04 # replicate 64 (CHR 0x00)"

definition sample_cfg :: jwks_config where
  "sample_cfg = \<lparr>jcf_JWKSURL = ''u'', jcf_Issuer = ''i'', jcf_Audience = ''a'', jcf_Algorithms = [''ES256''], jcf_ClockSkew = 1,
     jcf_MaxLifetime = 0, jcf_CacheTTL = 0\<rparr>"

definition sample_cache :: jwks_cache where
  "sample_cache = (NewCache 0)\<lparr>jc_keys := [(''k'', ECKey ''P-256'' sample_point)], jc_fetchedAt := Some 0\<rparr>"

lemma sample_fetch:
  "jwks_fetch up_jwks ''u'' 0 (NewCache 0) = (None, sample_cache)"
  "jwks_fetch down_jwks ''u'' t c = (Some (FetchFailed ''refused''), c)"
proof -
  have b: "b64_decode [] = Some []" by code_simp
  have "PublicKey up_jwks sample_jwk = Some (ECKey ''P-256'' sample_point)"
    by (simp add: PublicKey_def sample_jwk_def ecPublicKey_def b curve_size_def sample_jwks_def sample_point_def Let_def flip: replicate_add)
  then show "jwks_fetch up_jwks ''u'' 0 (NewCache 0) = (None, sample_cache)"
    by (simp add: jwks_fetch_def RequireHTTPS_def List.map_filter_simps sample_cache_def) (simp add: sample_jwks_def sample_jwk_def)
  show "jwks_fetch down_jwks ''u'' t c = (Some (FetchFailed ''refused''), c)"
    by (simp add: jwks_fetch_def RequireHTTPS_def sample_jwks_def)
qed

section \<open>Properties\<close>

text \<open>C18.
  A verified token was checked with a key that is strong: RSA of at least 2048 bits with an odd exponent, or one of the
  three curves; its algorithm is asymmetric. The cache keeps only such keys.
\<close>

theorem verified_with_strong_key:
  assumes "NewVerifier env cfg0 = Inr (cfg, c0)" and "keys_strong c"
    and "jwks_Verify env cfg raw now fetched fl c = (Inr claims, c')"
  shows "keys_strong c0 \<and> keys_strong c' \<and>
    (\<exists>alg kid key. je_unverified env raw = Some (alg, kid) \<and> alg \<in> set asymmetric \<and> strong_key key \<and>
       je_claims env \<lparr>jo_Methods = jcf_Algorithms cfg, jo_Issuer = jcf_Issuer cfg0, jo_Audience = jcf_Audience cfg0,
         jo_Leeway = jcf_ClockSkew cfg\<rparr> key raw = Inr claims \<and> jcf_ClockSkew cfg \<le> MaxClockSkew)"
proof -
  obtain alg kid where u: "je_unverified env raw = Some (alg, kid)" "alg \<in> set (jcf_Algorithms cfg)"
    using assms(3) by (auto simp: jwks_Verify_def split: option.splits if_splits)
  obtain r c1 b where g: "GetKey env (jcf_JWKSURL cfg) kid now fetched fl c = (r, c1, b)" by (rule prod_cases3)
  obtain key where k: "r = Inr key" "c' = c1" "je_claims env \<lparr>jo_Methods = jcf_Algorithms cfg, jo_Issuer = jcf_Issuer cfg,
      jo_Audience = jcf_Audience cfg, jo_Leeway = jcf_ClockSkew cfg\<rparr> key raw = Inr claims"
    using assms(3) u g by (auto simp: jwks_Verify_def split: sum.splits option.splits)
  have n: "set (jcf_Algorithms cfg) \<subseteq> set asymmetric" "jcf_ClockSkew cfg \<le> MaxClockSkew" "keys_strong c0"
      "jcf_Issuer cfg = jcf_Issuer cfg0" "jcf_Audience cfg = jcf_Audience cfg0"
    using assms(1) by (auto simp: NewVerifier_def Let_def list_all_iff NewCache_def keys_strong_def split: option.splits if_splits)
  show ?thesis using GetKey_strong [OF assms(2) g] u k n by auto
qed

lemma sample_verifier:
  "NewVerifier up_jwks sample_cfg = Inr (sample_cfg, NewCache 0)"
  "keys_strong (NewCache 0)"
  "jwks_Verify up_jwks sample_cfg ''t'' 0 0 Waited (NewCache 0) = (Inr (), sample_cache)"
proof -
  show "NewVerifier up_jwks sample_cfg = Inr (sample_cfg, NewCache 0)"
    by (simp add: NewVerifier_def RequireHTTPS_def sample_jwks_def sample_cfg_def asymmetric_def MaxClockSkew_def nanosecond_s_def Let_def)
  show "keys_strong (NewCache 0)" by (simp add: keys_strong_def NewCache_def)
  have "GetKey up_jwks ''u'' ''k'' 0 0 Waited (NewCache 0) = (Inr (ECKey ''P-256'' sample_point), sample_cache, True)"
    by (simp add: GetKey_def jwks_lookup_def sample_fetch flight_Do_def findKey_def Let_def)
      (simp add: NewCache_def sample_cache_def minRefresh_def nanosecond_s_def)
  then show "jwks_Verify up_jwks sample_cfg ''t'' 0 0 Waited (NewCache 0) = (Inr (), sample_cache)"
    by (simp add: jwks_Verify_def checkLifetime_def sample_cfg_def) (simp add: sample_jwks_def checkLifetime_def)
qed

theorem verified_with_strong_key_witness: "keys_strong sample_cache \<and> ''ES256'' \<in> set asymmetric"
  using verified_with_strong_key [OF sample_verifier] by (simp add: sample_jwks_def)

text \<open>A fetch that fails changes nothing, so a key that is known stays in use however old it is: with an endpoint that does
  not answer, tokens of known keys are still verified.
\<close>

theorem failed_fetch_keeps_keys:
  assumes "findKey kid c = Some key" and "fst (jwks_fetch env url fetched c) \<noteq> None"
  shows "fst (GetKey env url kid now fetched fl c) = Inr key \<and> fst (snd (GetKey env url kid now fetched fl c)) = c"
proof -
  obtain e where "jwks_fetch env url fetched c = (Some e, c)"
    using assms(2) by (cases rule: jwks_fetch_cases [of env url fetched c]) auto
  then have "\<exists>err. flight_Do fl (jwks_fetch env url fetched c) c = (err, c)" by (cases fl) (auto simp: flight_Do_def)
  then show ?thesis using assms(1) by (auto simp: GetKey_def jwks_lookup_def Let_def)
qed

lemma sample_down:
  "findKey ''k'' sample_cache = Some (ECKey ''P-256'' sample_point)"
  "fst (jwks_fetch down_jwks ''u'' t sample_cache) \<noteq> None"
  by (simp_all add: findKey_def sample_cache_def sample_fetch)

theorem failed_fetch_keeps_keys_witness:
  "fst (GetKey down_jwks ''u'' ''k'' (2 ^ 60) 0 Waited sample_cache) = Inr (ECKey ''P-256'' sample_point)"
  using failed_fetch_keeps_keys [OF sample_down] by simp

text \<open>After a fetch that succeeded, no request starts another one before the shorter of the lifetime and 30 seconds have
  passed, whatever key it asks for.
\<close>

theorem successful_fetch_is_followed_by_pause:
  assumes "jwks_fetch env url fetched c = (None, c1)" and "fetched \<le> now" and "now - fetched < min (jc_ttl c) minRefresh"
    and "jc_ttl c < 2 ^ 63"
  shows "snd (snd (GetKey env' url' kid now fetched' fl c1)) = False"
proof -
  obtain ks where "c1 = c\<lparr>jc_keys := ks, jc_fetchedAt := Some fetched\<rparr>"
    using assms(1) by (cases rule: jwks_fetch_cases [of env url fetched c]) auto
  then show ?thesis using assms(2-) by (auto simp: GetKey_def jwks_lookup_def Let_def)
qed

theorem successful_fetch_is_followed_by_pause_witness:
  "snd (snd (GetKey up_jwks ''u'' ''other'' 1 1 Waited sample_cache)) = False"
  by (rule successful_fetch_is_followed_by_pause [OF sample_fetch(1)]) (simp_all add: NewCache_def minRefresh_def nanosecond_s_def)

text \<open>A fetch that fails is followed by no pause: while the endpoint fails, every request for an unknown key starts a fetch of
  its own, once the last successful one is 30 seconds old or when there was none.
\<close>

theorem failing_endpoint_has_no_pause:
  assumes "findKey kid c = None" and "\<And>t. fst (jwks_fetch env url t c) \<noteq> None"
    and "minRefresh \<le> snd (jwks_lookup kid now c)"
  shows "fst (snd (GetKey env url kid now fetched fl c)) = c \<and> snd (snd (GetKey env url kid now fetched fl c))"
proof -
  obtain e where "jwks_fetch env url fetched c = (Some e, c)"
    using assms(2) [of fetched] by (cases rule: jwks_fetch_cases [of env url fetched c]) auto
  then have "\<exists>err. flight_Do fl (jwks_fetch env url fetched c) c = (err, c)" by (cases fl) (auto simp: flight_Do_def)
  then show ?thesis using assms(1,3) by (auto simp: GetKey_def jwks_lookup_def Let_def)
qed

theorem failing_endpoint_has_no_pause_witness:
  "snd (snd (GetKey down_jwks ''u'' ''other'' (31 * nanosecond_s) 0 Waited sample_cache))"
  using failing_endpoint_has_no_pause [of "''other''" sample_cache down_jwks "''u''" "31 * nanosecond_s" 0 Waited]
  by (simp add: sample_fetch) (simp add: findKey_def sample_cache_def jwks_lookup_def minRefresh_def nanosecond_s_def)

end
