(* ===== verification/Kafka.thy ===== *)
theory Kafka
  imports Msq_Pipeline_Props Full_Text
begin

text \<open>
  Messages on the wire and the Kafka consumer: the CloudEvents bindings of \<^verbatim>\<open>msq/types/codec.go\<close>, and of
  \<^verbatim>\<open>msq/provider/kafka/broker.go\<close> the checks of durability and credentials, the decoding of records and the
  in-place redelivery of a nacked record. The Kafka client library, UUIDs and the text form of times are parameters.
\<close>

section \<open>CloudEvents\<close>

text \<open>Times are nanoseconds since the Unix epoch; the zero time is the first instant of year 1.\<close>

definition zero_time :: int where
  "zero_time = - 62135596800 * second"

record codec_env =
  ce_format :: "int \<Rightarrow> string"
  ce_parse :: "string \<Rightarrow> int option"
  ce_uuid :: "string \<Rightarrow> string option"
  ce_name_uuid :: "string \<Rightarrow> string"

record binding =
  b_Prefix :: string
  b_ContentType :: string
  b_KeyInHeaders :: bool

definition KafkaBinding :: binding where
  "KafkaBinding = \<lparr>b_Prefix = ''ce_'', b_ContentType = ''content-type'', b_KeyInHeaders = False\<rparr>"



definition DefaultEventType :: string where
  "DefaultEventType = ''gofi.message''"



definition IsBinary :: "binding \<Rightarrow> (string \<rightharpoonup> string) \<Rightarrow> bool" where
  "IsBinary b h \<longleftrightarrow> h (b_Prefix b @ ''specversion'') \<noteq> None"

definition parseID :: "codec_env \<Rightarrow> string \<Rightarrow> string" where
  "parseID env s = (case ce_uuid env s of Some i \<Rightarrow> i | None \<Rightarrow> ce_name_uuid env s)"

definition nil_uuid :: string where
  "nil_uuid = ''00000000-0000-0000-0000-000000000000''"

definition attribute_names :: "string list" where
  "attribute_names = [''id'', ''type'', ''source'', ''time'', ''partitionkey'', ''specversion'', ''datacontenttype'']"

text \<open>The headers that are left for the handler.\<close>

definition rest_headers :: "binding \<Rightarrow> (string \<rightharpoonup> string) \<Rightarrow> string \<rightharpoonup> string" where
  "rest_headers b h k =
     (if prefix (b_Prefix b) k then (if drop (length (b_Prefix b)) k \<in> set attribute_names then None else h k)
      else if k \<noteq> b_ContentType b \<or> b_ContentType b = [] then h k else None)"

definition binding_Decode :: "codec_env \<Rightarrow> binding \<Rightarrow> string \<Rightarrow> (string \<rightharpoonup> string) \<Rightarrow> message" where
  "binding_Decode env b body h =
     (let attr = (\<lambda>name. h (b_Prefix b @ name)); text_of = (\<lambda>name. case attr name of None \<Rightarrow> [] | Some v \<Rightarrow> v);
          ty = text_of ''type''
      in \<lparr>m_Id = (case attr ''id'' of None \<Rightarrow> nil_uuid | Some v \<Rightarrow> parseID env v), m_Topic = [],
          m_Type = (if ty = DefaultEventType then [] else ty), m_Source = text_of ''source'', m_Key = text_of ''partitionkey'',
          m_Value = body,
          m_Timestamp = (case attr ''time'' of None \<Rightarrow> zero_time | Some v \<Rightarrow> (case ce_parse env v of None \<Rightarrow> zero_time | Some t \<Rightarrow> t)),
          m_Headers = rest_headers b h, m_DeliveryCount = 0\<rparr>)"

section \<open>Records\<close>

record kafka_record =
  kr_Topic :: string
  kr_Partition :: int
  kr_Offset :: int
  kr_Key :: string
  kr_Value :: string
  kr_Timestamp :: int
  kr_Headers :: "string \<rightharpoonup> string"


definition kafka_decode :: "codec_env \<Rightarrow> kafka_record \<Rightarrow> message" where
  "kafka_decode env r =
     (let m = (if IsBinary KafkaBinding (kr_Headers r) then binding_Decode env KafkaBinding (kr_Value r) (kr_Headers r)
               else \<lparr>m_Id = nil_uuid, m_Topic = [], m_Type = [], m_Source = [], m_Key = [], m_Value = kr_Value r,
                 m_Timestamp = zero_time, m_Headers = kr_Headers r, m_DeliveryCount = 0\<rparr>);
          m = (if m_Id m = nil_uuid
               then m\<lparr>m_Id := parseID env (''kafka/'' @ kr_Topic r @ ''/'' @ itoa (kr_Partition r) @ ''/'' @ itoa (kr_Offset r))\<rparr> else m);
          m = m\<lparr>m_Topic := kr_Topic r, m_Key := kr_Key r\<rparr>
      in if m_Timestamp m = zero_time then m\<lparr>m_Timestamp := kr_Timestamp r\<rparr> else m)"

section \<open>Configuration\<close>

datatype kafka_error = InvalidAcks | InvalidConfig | ErrPartialCredentials | ErrPlaintextSASL | ErrUnknownMechanism

datatype required_acks = WaitForAll | WaitForLocal | NoResponse

text \<open>The acknowledgements and whether the producer is idempotent.\<close>

definition applyDurability :: "text_env \<Rightarrow> string \<Rightarrow> kafka_error + required_acks \<times> bool" where
  "applyDurability tenv acks =
     (let a = ToLower tenv (TrimSpace acks)
      in if a \<in> {[], ''all'', ''-1''} then Inr (WaitForAll, True)
         else if a \<in> {''leader'', ''1''} then Inr (WaitForLocal, False)
         else if a \<in> {''none'', ''0''} then Inr (NoResponse, False)
         else Inl InvalidAcks)"

record kafka_config =
  kc_User :: string
  kc_Password :: string
  kc_UseTLS :: bool
  kc_TLS :: bool
  kc_SASLMechanism :: string
  kc_AllowPlaintextSASL :: bool
  kc_Acks :: string

text \<open>The mechanism, \<^verbatim>\<open>none\<close> when SASL stays off. \<open>upper\<close> is \<^verbatim>\<open>strings.ToUpper\<close>.\<close>

definition applySASL :: "(string \<Rightarrow> string) \<Rightarrow> kafka_config \<Rightarrow> bool \<Rightarrow> kafka_error + string" where
  "applySASL upper cfg tlsEnabled =
     (let mechanism = upper (TrimSpace (kc_SASLMechanism cfg))
      in if kc_User cfg = [] \<and> kc_Password cfg = [] then Inr ''none''
         else if kc_User cfg = [] \<or> kc_Password cfg = [] then Inl ErrPartialCredentials
         else if mechanism \<in> {[], ''PLAIN''} then
           (if \<not> tlsEnabled \<and> \<not> kc_AllowPlaintextSASL cfg then Inl ErrPlaintextSASL else Inr ''PLAIN'')
         else if mechanism \<in> {''SCRAM-SHA-256'', ''SCRAM-SHA-512''} then Inr mechanism
         else Inl ErrUnknownMechanism)"

text \<open>
  The decisions of \<^verbatim>\<open>New\<close>: acknowledgements, idempotence, mechanism and TLS. \<open>validate\<close> is the client library's check.
\<close>

definition kafka_New ::
  "text_env \<Rightarrow> (string \<Rightarrow> string) \<Rightarrow> (required_acks \<times> bool \<times> string \<times> bool \<Rightarrow> bool) \<Rightarrow> kafka_config \<Rightarrow>
   kafka_error + required_acks \<times> bool \<times> string \<times> bool" where
  "kafka_New tenv upper validate cfg =
     (case applyDurability tenv (kc_Acks cfg) of
        Inl e \<Rightarrow> Inl e
      | Inr (acks, idem) \<Rightarrow>
          (let tlsEnabled = (kc_UseTLS cfg \<or> kc_TLS cfg)
           in case applySASL upper cfg tlsEnabled of
                Inl e \<Rightarrow> Inl e
              | Inr mech \<Rightarrow> let sc = (acks, idem, mech, tlsEnabled) in if validate sc then Inr sc else Inl InvalidConfig))"

section \<open>The consumer\<close>

datatype process_end = Settled | SessionEnded | ProcessPanicked

definition redeliver_backoff :: "consume_config \<Rightarrow> backoff" where
  "redeliver_backoff cfg =
     (let mn = (if cc_RetryBackoff cfg = 0 then nanos second else cc_RetryBackoff cfg)
      in \<lparr>bo_Min = mn, bo_Max = max_duration (nanos (30 * second)) mn, bo_attempt = 0\<rparr>)"

text \<open>
  \<open>handle\<close> is the handler on each delivery, \<open>ended\<close> says whether the session has ended after it and \<open>slept\<close> whether the
  wait ran to its end. The loop may run forever, which is \<open>None\<close>.
\<close>

partial_function (option) process_from ::
  "(int \<Rightarrow> int) \<Rightarrow> (nat \<Rightarrow> message \<Rightarrow> msg_result) \<Rightarrow> (nat \<Rightarrow> bool) \<Rightarrow> (nat \<Rightarrow> int \<Rightarrow> bool) \<Rightarrow> message \<Rightarrow> nat \<Rightarrow> backoff \<Rightarrow>
   process_end option" where
  "process_from rand_N handle ended slept m attempt b =
     (if handle attempt (m\<lparr>m_DeliveryCount := int attempt\<rparr>) \<noteq> Nack then Some Settled
      else if ended attempt then Some SessionEnded
      else
        (case backoff_Next rand_N b of
           None \<Rightarrow> Some ProcessPanicked
         | Some (d, b) \<Rightarrow>
             if slept attempt d then process_from rand_N handle ended slept m (Suc attempt) b else Some SessionEnded))"

definition kafka_process ::
  "codec_env \<Rightarrow> (int \<Rightarrow> int) \<Rightarrow> consume_config \<Rightarrow> (nat \<Rightarrow> message \<Rightarrow> msg_result) \<Rightarrow> (nat \<Rightarrow> bool) \<Rightarrow> (nat \<Rightarrow> int \<Rightarrow> bool) \<Rightarrow> kafka_record \<Rightarrow>
   process_end option" where
  "kafka_process env rand_N cfg handle ended slept r =
     process_from rand_N handle ended slept (kafka_decode env r) 1 (redeliver_backoff cfg)"

text \<open>The records of a claim, each with what happens to it; the result is the records marked as consumed.\<close>

fun ConsumeClaim :: "('r \<Rightarrow> process_end option) \<Rightarrow> 'r list \<Rightarrow> 'r list" where
  "ConsumeClaim proc [] = []"
| "ConsumeClaim proc (r # rs) = (if proc r = Some Settled then r # ConsumeClaim proc rs else [])"

text \<open>The handler of a consumer is the pipeline; here the session and its waits last.\<close>

definition piped ::
  "(int \<Rightarrow> int) \<Rightarrow> consume_config \<Rightarrow> (message \<Rightarrow> msg_error option) option \<Rightarrow> (nat \<Rightarrow> nat \<Rightarrow> outcome) \<Rightarrow> nat \<Rightarrow> message \<Rightarrow> msg_result" where
  "piped rand_N cfg dlq handler attempt msg =
     (case pipeline_Handle rand_N cfg dlq (handler attempt) (\<lambda>_ _. True) True msg of Some h \<Rightarrow> h_result h | None \<Rightarrow> Nack)"

section \<open>Lemmas\<close>

lemma process_step:
  assumes "handle attempt (m\<lparr>m_DeliveryCount := int attempt\<rparr>) = Nack" and "\<not> ended attempt" and "backoff_Next rand_N b = Some (d, b')"
    and "slept attempt d"
  shows "process_from rand_N handle ended slept m attempt b = process_from rand_N handle ended slept m (Suc attempt) b'"
  using assms by (subst process_from.simps) simp

lemma backoff_ok_Next:
  assumes "0 < sint (bo_Min b)" "sint (bo_Min b) \<le> sint (bo_Max b)" "rand_ok rand_N"
  shows "\<exists>d b'. backoff_Next rand_N b = Some (d, b') \<and> 0 < sint (bo_Min b') \<and> sint (bo_Min b') \<le> sint (bo_Max b')"
  using backoff_Next_eq [OF assms] assms by auto

lemma redeliver_backoff_ok:
  assumes "0 \<le> sint (cc_RetryBackoff cfg)"
  shows "0 < sint (bo_Min (redeliver_backoff cfg)) \<and> sint (bo_Min (redeliver_backoff cfg)) \<le> sint (bo_Max (redeliver_backoff cfg))"
proof (cases "cc_RetryBackoff cfg = 0")
  case True
  have "sint (nanos second) = second" "sint (nanos (30 * second)) = 30 * second"
    by (intro sint_nanos; simp add: second_def millisecond_def)+
  then show ?thesis using True by (simp add: redeliver_backoff_def max_duration_def second_def millisecond_def)
next
  case False
  then have "sint (cc_RetryBackoff cfg) \<noteq> 0" by (simp add: signed_eq_0_iff)
  then show ?thesis using assms False by (simp add: redeliver_backoff_def max_duration_def Let_def)
qed

text \<open>A record that some delivery settles, while the session lasts, is settled.\<close>

lemma process_settles:
  assumes "rand_ok rand_N" and "0 < sint (bo_Min b)" "sint (bo_Min b) \<le> sint (bo_Max b)"
    and "handle (attempt + n) (m\<lparr>m_DeliveryCount := int (attempt + n)\<rparr>) \<noteq> Nack"
    and "\<And>k. \<not> ended k" and "\<And>k d. slept k d"
  shows "process_from rand_N handle ended slept m attempt b = Some Settled"
  using assms(2-4)
proof (induction n arbitrary: attempt b)
  case 0
  then show ?case by (subst process_from.simps) simp
next
  case (Suc n)
  obtain d b' where n: "backoff_Next rand_N b = Some (d, b')" "0 < sint (bo_Min b')" "sint (bo_Min b') \<le> sint (bo_Max b')"
    using backoff_ok_Next [OF Suc.prems(1,2) assms(1)] by blast
  show ?case
  proof (cases "handle attempt (m\<lparr>m_DeliveryCount := int attempt\<rparr>) = Nack")
    case True
    have "process_from rand_N handle ended slept m (Suc attempt) b' = Some Settled"
      by (rule Suc.IH [OF n(2,3)]) (use Suc.prems(3) in simp)
    then show ?thesis using process_step [of handle attempt m ended rand_N b d b' slept, OF True assms(5) n(1) assms(6)] by simp
  next
    case False
    then show ?thesis by (subst process_from.simps) simp
  qed
qed


text \<open>A loop that ends has a reason to.\<close>

lemma process_ends:
  assumes "process_from rand_N handle ended slept m attempt b = Some y" and "rand_ok rand_N"
    and "0 < sint (bo_Min b)" "sint (bo_Min b) \<le> sint (bo_Max b)"
  shows "\<exists>k. handle k (m\<lparr>m_DeliveryCount := int k\<rparr>) \<noteq> Nack \<or> ended k \<or> (\<exists>d. \<not> slept k d)"
proof -
  have "rand_ok rand_N \<longrightarrow> 0 < sint (bo_Min b) \<longrightarrow> sint (bo_Min b) \<le> sint (bo_Max b) \<longrightarrow>
      (\<exists>k. handle k (m\<lparr>m_DeliveryCount := int k\<rparr>) \<noteq> Nack \<or> ended k \<or> (\<exists>d. \<not> slept k d))"
  proof (rule process_from.raw_induct [where P = "\<lambda>rand_N handle ended slept m attempt b y.
        rand_ok rand_N \<longrightarrow> 0 < sint (bo_Min b) \<longrightarrow> sint (bo_Min b) \<le> sint (bo_Max b) \<longrightarrow>
        (\<exists>k. handle k (m\<lparr>m_DeliveryCount := int k\<rparr>) \<noteq> Nack \<or> ended k \<or> (\<exists>d. \<not> slept k d))", OF _ assms(1)], goal_cases)
    case (1 proc rand_N handle ended slept m attempt b y)
    show ?case
    proof (intro impI)
      assume ok: "rand_ok rand_N" "0 < sint (bo_Min b)" "sint (bo_Min b) \<le> sint (bo_Max b)"
      obtain d b' where n: "backoff_Next rand_N b = Some (d, b')" "0 < sint (bo_Min b')" "sint (bo_Min b') \<le> sint (bo_Max b')"
        using backoff_ok_Next [OF ok(2,3,1)] by blast
      consider (cause) "handle attempt (m\<lparr>m_DeliveryCount := int attempt\<rparr>) \<noteq> Nack \<or> ended attempt \<or> \<not> slept attempt d"
        | (again) "proc rand_N handle ended slept m (Suc attempt) b' = Some y"
        using 1(2) n(1) by (auto split: if_splits)
      then show "\<exists>k. handle k (m\<lparr>m_DeliveryCount := int k\<rparr>) \<noteq> Nack \<or> ended k \<or> (\<exists>d. \<not> slept k d)"
      proof cases
        case cause
        then show ?thesis by blast
      next
        case again
        then show ?thesis using 1(1) [OF again] ok(1) n(2,3) by blast
      qed
    qed
  qed
  then show ?thesis using assms(2-) by blast
qed

lemma piped_limit:
  assumes "rand_ok rand_N" and "DeliveryLimitReached cfg (m_DeliveryCount msg)"
  shows "piped rand_N cfg None handler attempt msg \<noteq> Nack"
proof -
  obtain r a e where "msq_retry rand_N cfg (handler attempt) (\<lambda>_ _. True) = Some (r, a, e)"
    using msq_retry_ok [OF assms(1)] by blast
  then show ?thesis using assms(2) by (auto simp: piped_def pipeline_Handle_def settleNack_def Let_def)
qed

lemma piped_failing_dlq:
  assumes "rand_ok rand_N"
  shows "piped rand_N cfg (Some (\<lambda>_. Some err)) (\<lambda>_ _. Returns Nack None) attempt msg = Nack"
proof -
  obtain r a e where "msq_retry rand_N cfg (\<lambda>_. Returns Nack None) (\<lambda>_ _. True) = Some (r, a, e)"
    "attempts_ok cfg (\<lambda>_. Returns Nack None) 0 (r, a, e)"
    using msq_retry_ok [OF assms] by blast
  then show ?thesis by (auto simp: piped_def pipeline_Handle_def settleNack_def attempts_ok_def Let_def)
qed



section \<open>Properties\<close>

text \<open>C22.
  Without a dead-letter topic and with a delivery limit, a poison record blocks its partition for a bounded number of
  deliveries only: every record of a claim is settled and marked, whatever the handler does, while the session lasts.
\<close>

theorem poison_records_do_not_block:
  assumes "rand_ok rand_N" and "0 \<le> sint (cc_RetryBackoff cfg)" and "0 < DeliveryLimit cfg"
  shows "ConsumeClaim (kafka_process env rand_N cfg (piped rand_N cfg None handler) (\<lambda>_. False) (\<lambda>_ _. True)) rs = rs"
proof -
  have "kafka_process env rand_N cfg (piped rand_N cfg None handler) (\<lambda>_. False) (\<lambda>_ _. True) r = Some Settled" for r
    unfolding kafka_process_def
  proof (rule process_settles [where n = "nat (DeliveryLimit cfg)"])
    show "piped rand_N cfg None handler (1 + nat (DeliveryLimit cfg))
        (kafka_decode env r\<lparr>m_DeliveryCount := int (1 + nat (DeliveryLimit cfg))\<rparr>) \<noteq> Nack"
      by (rule piped_limit [OF assms(1)]) (use assms(3) in \<open>simp add: DeliveryLimitReached_def\<close>)
  qed (use assms redeliver_backoff_ok [OF assms(2)] in auto)
  then show ?thesis by (induction rs) auto
qed

lemma limited_config: "rand_ok (\<lambda>_. 0)" "0 \<le> sint (cc_RetryBackoff ((DefaultConsumeConfig ''t'')\<lparr>cc_MaxDeliveries := 3\<rparr>))"
  "0 < DeliveryLimit ((DefaultConsumeConfig ''t'')\<lparr>cc_MaxDeliveries := 3\<rparr>)"
  by (simp_all add: rand_ok_def DefaultConsumeConfig_def DeliveryLimit_def)

theorem poison_records_do_not_block_witness:
  "\<exists>env r. ConsumeClaim (kafka_process env (\<lambda>_. 0) ((DefaultConsumeConfig ''t'')\<lparr>cc_MaxDeliveries := 3\<rparr>)
     (piped (\<lambda>_. 0) ((DefaultConsumeConfig ''t'')\<lparr>cc_MaxDeliveries := 3\<rparr>) None (\<lambda>_ _. Panics ''x'')) (\<lambda>_. False) (\<lambda>_ _. True)) [r, r] = [r, r]"
  using poison_records_do_not_block [OF limited_config] by blast

text \<open>C40.
  With a dead-letter topic whose sends fail, the delivery limit does not end a poison record: the consumer redelivers it in
  place forever and the partition stays blocked, whatever \<^verbatim>\<open>MaxDeliveries\<close> is.
\<close>

theorem failing_dead_letter_blocks_partition:
  assumes "rand_ok rand_N" and "0 \<le> sint (cc_RetryBackoff cfg)"
  shows "kafka_process env rand_N cfg (piped rand_N cfg (Some (\<lambda>_. Some err)) (\<lambda>_ _. Returns Nack None)) (\<lambda>_. False) (\<lambda>_ _. True) r = None"
proof (rule ccontr)
  assume "\<not> ?thesis"
  then obtain y where "kafka_process env rand_N cfg (piped rand_N cfg (Some (\<lambda>_. Some err)) (\<lambda>_ _. Returns Nack None)) (\<lambda>_. False) (\<lambda>_ _. True) r = Some y"
    by blast
  from process_ends [OF this [unfolded kafka_process_def] assms(1)] redeliver_backoff_ok [OF assms(2)]
  show False using piped_failing_dlq [OF assms(1)] by auto
qed

theorem failing_dead_letter_blocks_partition_witness:
  "\<exists>env r. kafka_process env (\<lambda>_. 0) ((DefaultConsumeConfig ''t'')\<lparr>cc_MaxDeliveries := 3\<rparr>)
     (piped (\<lambda>_. 0) ((DefaultConsumeConfig ''t'')\<lparr>cc_MaxDeliveries := 3\<rparr>) (Some (\<lambda>_. Some ''down'')) (\<lambda>_ _. Returns Nack None))
     (\<lambda>_. False) (\<lambda>_ _. True) r = None"
  using failing_dead_letter_blocks_partition [OF limited_config(1,2)] by blast






text \<open>Credentials leave in the clear only where the configuration asks for it.\<close>

lemma credentials_protected:
  assumes "kafka_New tenv upper validate cfg = Inr (acks, idem, mech, tls)" and "kc_User cfg \<noteq> [] \<or> kc_Password cfg \<noteq> []"
  shows "tls \<or> kc_AllowPlaintextSASL cfg \<or> mech \<in> {''SCRAM-SHA-256'', ''SCRAM-SHA-512''}"
  using assms by (auto simp: kafka_New_def applySASL_def Let_def split: sum.splits if_splits)

end
