(* ===== verification/Query_Manager.thy ===== *)
theory Query_Manager
  imports Dialect_Props
begin

text \<open>
  Pages and the cache of query results: \<^verbatim>\<open>sqln/pagination\<close>, the transactions a context carries
  (\<^verbatim>\<open>sqln/connection/txctx.go\<close>) and the cached reads of \<^verbatim>\<open>sqln/manager_cache.go\<close>. SHA-256, the cache, the identity of
  a pool and the shared flight of concurrent misses are parameters.
\<close>

section \<open>Pages\<close>

record page_sort =
  ps_Field :: string
  ps_Direction :: string

record PageRequest =
  pr_Page :: "16 word"
  pr_Limit :: "16 word"
  pr_Order :: "page_sort list"

definition GetOrder :: "PageRequest \<Rightarrow> string" where
  "GetOrder p =
     join '', '' (map (\<lambda>o'. ps_Field o' @ '' '' @ SortDirection (ps_Direction o')) (filter (\<lambda>o'. IsIdentifier (ps_Field o')) (pr_Order p)))"

text \<open>The options are the maxima given by \<^verbatim>\<open>WithMaxLimit\<close>, in order.\<close>

definition ClampLimit :: "16 word \<Rightarrow> 16 word list \<Rightarrow> 16 word" where
  "ClampLimit limit opts =
     (let maxLimit = foldl (\<lambda>_ n. n) 0 opts; maxLimit = (if maxLimit = 0 then 100 else maxLimit);
          limit = (if limit = 0 then 15 else limit)
      in min limit maxLimit)"

definition NewPageRequestFromParams :: "16 word \<Rightarrow> 16 word \<Rightarrow> string \<Rightarrow> string \<Rightarrow> 16 word list \<Rightarrow> PageRequest" where
  "NewPageRequestFromParams page limit sortField sortDirection opts =
     \<lparr>pr_Page = page, pr_Limit = ClampLimit limit opts,
      pr_Order = [\<lparr>ps_Field = (if sortField = [] then ''id'' else sortField),
                   ps_Direction = (if sortDirection = [] then ''ASC'' else sortDirection)\<rparr>]\<rparr>"

text \<open>The numbers of a page: the pages there are, and the offset of the page.\<close>

definition page_total :: "64 word \<Rightarrow> PageRequest \<Rightarrow> 64 word" where
  "page_total n p = (n + ucast (pr_Limit p - 1)) div ucast (pr_Limit p)"

definition page_offset :: "PageRequest \<Rightarrow> 64 word" where
  "page_offset p = ucast (pr_Page p) * ucast (pr_Limit p)"

section \<open>Transactions of a context\<close>

record 'tx tx_context =
  tc_bindings :: "(nat \<times> 'tx) list"
  tc_direct :: "'tx option"

definition WithTx :: "'tx tx_context \<Rightarrow> nat \<Rightarrow> 'tx \<Rightarrow> 'tx tx_context" where
  "WithTx ctx db tx = \<lparr>tc_bindings = tc_bindings ctx @ [(db, tx)], tc_direct = Some tx\<rparr>"

definition TxFor :: "'tx tx_context \<Rightarrow> nat \<Rightarrow> 'tx option" where
  "TxFor ctx db =
     (if tc_bindings ctx = [] then tc_direct ctx
      else map_option snd (find (\<lambda>b. fst b = db) (rev (tc_bindings ctx))))"

section \<open>The cache key\<close>

text \<open>
  Arguments as the driver receives them. A float is its bits, a time its RFC 3339 text; \<open>ArgOther\<close> has no deterministic
  encoding.
\<close>

datatype cache_arg =
  ArgNil | ArgInt "64 word" | ArgUint "64 word" | ArgFloat "64 word" | ArgBool bool | ArgBytes string | ArgString string
  | ArgTime string | ArgSlice string "cache_arg list" | ArgOther

text \<open>The big-endian bytes of a number, as many as asked for.\<close>

fun be_bytes :: "nat \<Rightarrow> nat \<Rightarrow> string" where
  "be_bytes 0 n = []"
| "be_bytes (Suc k) n = be_bytes k (n div 256) @ [char_of (n mod 256)]"

definition writeBytes :: "char \<Rightarrow> string \<Rightarrow> string" where
  "writeBytes tag b = tag # be_bytes 8 (length b) @ b"

text \<open>What is written to the hash, or \<open>None\<close> where the code reports that the result must not be cached.\<close>

fun writeArg :: "cache_arg \<Rightarrow> string option" and writeArg_list :: "cache_arg list \<Rightarrow> string option" where
  "writeArg ArgNil = Some (writeBytes CHR ''0'' [])"
| "writeArg (ArgInt v) = Some (writeBytes CHR ''i'' (be_bytes 8 (unat v)))"
| "writeArg (ArgUint v) = Some (writeBytes CHR ''u'' (be_bytes 8 (unat v)))"
| "writeArg (ArgFloat v) = Some (writeBytes CHR ''f'' (be_bytes 8 (unat v)))"
| "writeArg (ArgBool v) = Some (writeBytes CHR ''b'' (if v then ''true'' else ''false''))"
| "writeArg (ArgBytes v) = Some (writeBytes CHR ''y'' v)"
| "writeArg (ArgString v) = Some (writeBytes CHR ''s'' v)"
| "writeArg (ArgTime v) = Some (writeBytes CHR ''t'' v)"
| "writeArg (ArgSlice ty vs) =
     map_option (\<lambda>s. writeBytes CHR ''L'' ty @ writeBytes CHR ''n'' (be_bytes 8 (length vs)) @ s) (writeArg_list vs)"
| "writeArg ArgOther = None"
| "writeArg_list [] = Some []"
| "writeArg_list (v # vs) = (case writeArg v of None \<Rightarrow> None | Some s \<Rightarrow> map_option (\<lambda>t. s @ t) (writeArg_list vs))"

definition writeArgs :: "cache_arg list \<Rightarrow> string option" where
  "writeArgs vs = map_option (\<lambda>s. writeBytes CHR ''n'' (be_bytes 8 (length vs)) @ s) (writeArg_list vs)"

record query_conn =
  qc_ID :: string
  qc_DB :: nat
  qc_ReadDB :: nat

text \<open>Of a manager: what the key is made of. \<open>q_conn\<close> is the injected connection, or else the global one.\<close>

record 'tx query_manager =
  q_ctx :: "'tx tx_context"
  q_ctxScope :: string
  q_conn :: "query_conn option"
  q_cache :: bool
  q_page :: "PageRequest option"
  q_query :: string
  q_args :: "cache_arg list"
  q_countQuery :: string
  q_countArgs :: "cache_arg list"
  q_cacheScope :: string
  q_fromPrimary :: bool
  q_type :: string







section \<open>Cached reads\<close>


section \<open>Lemmas\<close>

lemma length_be_bytes [simp]: "length (be_bytes k n) = k"
  by (induction k arbitrary: n) auto

lemma be_bytes_inj:
  assumes "be_bytes k m = be_bytes k n" and "m < 256 ^ k" and "n < 256 ^ k"
  shows "m = n"
  using assms
proof (induction k arbitrary: m n)
  case (Suc k)
  have "m div 256 = n div 256"
    by (rule Suc.IH) (use Suc.prems in \<open>auto simp: less_mult_imp_div_less mult.commute\<close>)
  moreover have "m mod 256 = n mod 256"
  proof -
    have "(char_of (m mod 256) :: char) = char_of (n mod 256)" using Suc.prems(1) by simp
    then have "of_char (char_of (m mod 256) :: char) = (of_char (char_of (n mod 256) :: char) :: nat)" by simp
    then show ?thesis by simp
  qed
  ultimately show ?case by (metis div_mult_mod_eq)
qed simp

lemma be_bytes_word: "be_bytes 8 (unat v) = be_bytes 8 (unat w) \<longleftrightarrow> v = (w :: 64 word)"
proof
  assume "be_bytes 8 (unat v) = be_bytes 8 (unat w)"
  then have "unat v = unat w" by (rule be_bytes_inj) (use unsigned_less [of v] unsigned_less [of w] in auto)
  then show "v = w" by (simp add: word_unat_eq_iff)
qed simp

text \<open>A tagged field is read back from any continuation.\<close>

lemma writeBytes_inj:
  assumes "writeBytes t b @ x = writeBytes t' b' @ y" and "length b < 2 ^ 64" and "length b' < 2 ^ 64"
  shows "t = t' \<and> b = b' \<and> x = y"
proof -
  have "be_bytes 8 (length b) = be_bytes 8 (length b')" and r: "b @ x = b' @ y" and "t = t'"
    using assms(1) by (auto simp: writeBytes_def)
  then have "length b = length b'" by (intro be_bytes_inj) (use assms(2,3) in auto)
  then show ?thesis using r \<open>t = t'\<close> by simp
qed

text \<open>Lengths in Go fit in 63 bits.\<close>

fun arg_fits :: "cache_arg \<Rightarrow> bool" where
  "arg_fits (ArgBytes v) \<longleftrightarrow> length v < 2 ^ 64"
| "arg_fits (ArgString v) \<longleftrightarrow> length v < 2 ^ 64"
| "arg_fits (ArgTime v) \<longleftrightarrow> length v < 2 ^ 64"
| "arg_fits (ArgSlice ty vs) \<longleftrightarrow> length ty < 2 ^ 64 \<and> length vs < 2 ^ 64 \<and> (\<forall>v \<in> set vs. arg_fits v)"
| "arg_fits _ \<longleftrightarrow> True"

text \<open>The first field of an encoded argument.\<close>

fun arg_field :: "cache_arg \<Rightarrow> char \<times> string" where
  "arg_field ArgNil = (CHR ''0'', [])"
| "arg_field (ArgInt v) = (CHR ''i'', be_bytes 8 (unat v))"
| "arg_field (ArgUint v) = (CHR ''u'', be_bytes 8 (unat v))"
| "arg_field (ArgFloat v) = (CHR ''f'', be_bytes 8 (unat v))"
| "arg_field (ArgBool v) = (CHR ''b'', if v then ''true'' else ''false'')"
| "arg_field (ArgBytes v) = (CHR ''y'', v)"
| "arg_field (ArgString v) = (CHR ''s'', v)"
| "arg_field (ArgTime v) = (CHR ''t'', v)"
| "arg_field (ArgSlice ty vs) = (CHR ''L'', ty)"
| "arg_field ArgOther = (CHR ''?'', [])"

fun slice_of :: "cache_arg \<Rightarrow> cache_arg list option" where
  "slice_of (ArgSlice ty vs) = Some vs"
| "slice_of _ = None"

definition slice_input :: "cache_arg \<Rightarrow> string option" where
  "slice_input a = (case slice_of a of None \<Rightarrow> Some [] | Some vs \<Rightarrow> writeArgs vs)"

lemma arg_field_inj: "arg_field a = arg_field a' \<Longrightarrow> slice_of a = slice_of a' \<Longrightarrow> a = a'"
  by (cases a; cases a') (simp_all add: be_bytes_word split: if_splits)

lemma arg_field_fits: "arg_fits a \<Longrightarrow> length (snd (arg_field a)) < 2 ^ 64"
  by (cases a) simp_all

lemma slice_of_field: "(slice_of a = None) = (fst (arg_field a) \<noteq> CHR ''L'')"
  by (cases a) simp_all

lemma slice_fits: "slice_of a = Some vs \<Longrightarrow> arg_fits a \<Longrightarrow> length vs < 2 ^ 64 \<and> (\<forall>v \<in> set vs. arg_fits v)"
  by (cases a) simp_all

text \<open>Arguments are read back from any continuation.\<close>

definition arg_readable :: "cache_arg \<Rightarrow> bool" where
  "arg_readable a \<longleftrightarrow>
     (\<forall>a' s s' x y. writeArg a = Some s \<longrightarrow> writeArg a' = Some s' \<longrightarrow> s @ x = s' @ y \<longrightarrow> arg_fits a \<longrightarrow> arg_fits a' \<longrightarrow> a = a' \<and> x = y)"

lemma arg_readableD:
  assumes "arg_readable a" "writeArg a = Some s" "writeArg a' = Some s'" "s @ x = s' @ y" "arg_fits a" "arg_fits a'"
  shows "a = a' \<and> x = y"
  using assms unfolding arg_readable_def by blast

lemma writeArg_field:
  "a \<noteq> ArgOther \<Longrightarrow> writeArg a = map_option (\<lambda>r. writeBytes (fst (arg_field a)) (snd (arg_field a)) @ r) (slice_input a)"
  by (cases a) (simp_all add: slice_input_def writeArgs_def option.map_comp o_def)

lemma writeArg_list_inj:
  assumes "\<forall>v \<in> set vs. arg_readable v" and "writeArg_list vs = Some s" and "writeArg_list vs' = Some s'" and "length vs = length vs'"
    and "s @ x = s' @ y" and "\<forall>v \<in> set vs. arg_fits v" and "\<forall>v \<in> set vs'. arg_fits v"
  shows "vs = vs' \<and> x = y"
  using assms
proof (induction vs arbitrary: vs' s s' x y)
  case (Cons v vs)
  obtain v' ws where ws: "vs' = v' # ws" using Cons.prems(4) by (cases vs') auto
  obtain p q p' q' where pq: "writeArg v = Some p" "writeArg_list vs = Some q" "s = p @ q"
    "writeArg v' = Some p'" "writeArg_list ws = Some q'" "s' = p' @ q'"
    using Cons.prems(2,3) ws by (auto split: option.splits)
  have "v = v' \<and> q @ x = q' @ y"
    by (rule arg_readableD [OF _ pq(1,4)]) (use Cons.prems(1,5,6,7) pq(3,6) ws in simp_all)
  moreover have "vs = ws \<and> x = y"
    by (rule Cons.IH [OF _ pq(2,5)]) (use Cons.prems(1,4,6,7) ws calculation in simp_all)
  ultimately show ?case using ws by simp
qed auto

lemma writeArgs_inj:
  assumes "\<forall>v \<in> set vs. arg_readable v" and "writeArgs vs = Some s" and "writeArgs vs' = Some s'"
    and "s @ x = s' @ y" and "\<forall>v \<in> set vs. arg_fits v" and "\<forall>v \<in> set vs'. arg_fits v" and "length vs < 2 ^ 64" and "length vs' < 2 ^ 64"
  shows "vs = vs' \<and> x = y"
proof -
  obtain t t' where t: "writeArg_list vs = Some t" "s = writeBytes CHR ''n'' (be_bytes 8 (length vs)) @ t"
    "writeArg_list vs' = Some t'" "s' = writeBytes CHR ''n'' (be_bytes 8 (length vs')) @ t'"
    using assms(2,3) by (auto simp: writeArgs_def)
  have "writeBytes CHR ''n'' (be_bytes 8 (length vs)) @ (t @ x) = writeBytes CHR ''n'' (be_bytes 8 (length vs')) @ (t' @ y)"
    using assms(4) t by simp
  from writeBytes_inj [OF this] have "be_bytes 8 (length vs) = be_bytes 8 (length vs')" and r: "t @ x = t' @ y" by auto
  then have "length vs = length vs'" by (intro be_bytes_inj) (use assms(7,8) in auto)
  from writeArg_list_inj [OF assms(1) t(1,3) this r assms(5,6)] show ?thesis .
qed

lemma arg_readable_step:
  assumes "\<And>vs. slice_of a = Some vs \<Longrightarrow> \<forall>v \<in> set vs. arg_readable v"
  shows "arg_readable a"
  unfolding arg_readable_def
proof (intro allI impI)
  fix a' s s' x y
  assume s: "writeArg a = Some s" "writeArg a' = Some s'" "s @ x = s' @ y" "arg_fits a" "arg_fits a'"
  then have "a \<noteq> ArgOther" "a' \<noteq> ArgOther" by auto
  then obtain r r' where r: "slice_input a = Some r" "s = writeBytes (fst (arg_field a)) (snd (arg_field a)) @ r"
    "slice_input a' = Some r'" "s' = writeBytes (fst (arg_field a')) (snd (arg_field a')) @ r'"
    using s(1,2) writeArg_field [of a] writeArg_field [of a'] by (auto simp del: writeArg.simps)
  have "writeBytes (fst (arg_field a)) (snd (arg_field a)) @ (r @ x) = writeBytes (fst (arg_field a')) (snd (arg_field a')) @ (r' @ y)"
    using s(3) r by simp
  from writeBytes_inj [OF this arg_field_fits [OF s(4)] arg_field_fits [OF s(5)]]
  have f: "arg_field a = arg_field a'" and rr: "r @ x = r' @ y" by (auto simp: prod_eq_iff)
  show "a = a' \<and> x = y"
  proof (cases "slice_of a")
    case None
    then have "slice_of a' = None" using f slice_of_field by metis
    then show ?thesis using None r rr arg_field_inj [OF f] by (simp add: slice_input_def)
  next
    case (Some vs)
    then obtain vs' where vs': "slice_of a' = Some vs'" using f slice_of_field by (metis not_None_eq)
    have fits: "\<forall>v \<in> set vs. arg_fits v" "\<forall>v \<in> set vs'. arg_fits v" "length vs < 2 ^ 64" "length vs' < 2 ^ 64"
      using slice_fits [OF Some s(4)] slice_fits [OF vs' s(5)] by auto
    have "vs = vs' \<and> x = y"
      using writeArgs_inj [OF assms [OF Some] _ _ rr fits] Some vs' r by (simp add: slice_input_def)
    then show ?thesis using Some vs' arg_field_inj [OF f] by simp
  qed
qed

lemma arg_readable: "arg_readable a"
proof (induction a)
  case (ArgSlice ty vs)
  then show ?case by (intro arg_readable_step) auto
qed (rule arg_readable_step; simp)+
















text \<open>
  A sequence of reads, the latest first. What the cache returns was stored by an earlier read under the key, and the flight
  a read joins is that of an earlier read with the key.
\<close>

record ('tx, 'e, 'r) read_call =
  rc_q :: "'tx query_manager"
  rc_inst :: nat
  rc_kind :: string
  rc_get :: "string \<Rightarrow> 'r option"
  rc_flight :: "string \<Rightarrow> ('e + 'r) option"
  rc_fetched :: "'e + 'r"









section \<open>Properties\<close>


text \<open>Reads of two tenants: the second read of tenant \<^verbatim>\<open>a\<close> is answered from the cache.\<close>

definition tenant_read :: "string \<Rightarrow> nat option \<Rightarrow> nat \<Rightarrow> (unit, unit, nat) read_call" where
  "tenant_read scope hit row =
     \<lparr>rc_q = \<lparr>q_ctx = \<lparr>tc_bindings = [], tc_direct = None\<rparr>, q_ctxScope = scope, q_conn = None, q_cache = True, q_page = None,
        q_query = ''q'', q_args = [], q_countQuery = [], q_countArgs = [], q_cacheScope = [], q_fromPrimary = False, q_type = ''T''\<rparr>,
      rc_inst = 0, rc_kind = ''list'', rc_get = (\<lambda>_. hit), rc_flight = (\<lambda>_. None), rc_fetched = Inr row\<rparr>"



lemma tenant_fields [simp]:
  "rc_get (tenant_read scope hit row) = (\<lambda>_. hit)" "rc_flight (tenant_read scope hit row) = (\<lambda>_. None)"
  "rc_fetched (tenant_read scope hit row) = Inr row"
  by (simp_all add: tenant_read_def)



text \<open>A page never has more rows than the maximum allows, and what a client sorts by is a column reference.\<close>

lemma ClampLimit_bounds:
  "0 < ClampLimit limit opts \<and> (opts = [] \<longrightarrow> ClampLimit limit opts \<le> 100) \<and> (opts \<noteq> [] \<and> last opts \<noteq> 0 \<longrightarrow> ClampLimit limit opts \<le> last opts)"
proof -
  have l: "foldl (\<lambda>_ n. n) d opts = (if opts = [] then d else last opts)" for d :: "16 word"
    by (induction opts arbitrary: d) auto
  show ?thesis by (auto simp: ClampLimit_def l Let_def word_gt_0 min_def)
qed

text \<open>A transaction bound to a pool is found for it, and leaves those bound to other pools as they were.\<close>

lemma TxFor_WithTx:
  "TxFor (WithTx ctx db tx) db' = (if db' = db then Some tx else if tc_bindings ctx = [] then None else TxFor ctx db')"
  by (auto simp: TxFor_def WithTx_def)

text \<open>The number of pages is the least that holds all rows, and the offset does not wrap.\<close>

lemma unat_limit: "unat (ucast w :: 64 word) = unat (w :: 16 word)"
  by (simp add: unsigned_ucast_eq take_bit_nat_eq_self unsigned_less [THEN less_le_trans])

lemma page_total_least:
  assumes "pr_Limit p \<noteq> 0" and "unat n < 2 ^ 64 - 2 ^ 16"
  shows "unat n \<le> unat (page_total n p) * unat (pr_Limit p) \<and> (0 < unat n \<longrightarrow> (unat (page_total n p) - 1) * unat (pr_Limit p) < unat n)"
proof -
  define l where "l = unat (pr_Limit p)"
  have l: "0 < l" "l < 2 ^ 16" using assms(1) unsigned_less [of "pr_Limit p"] by (simp_all add: l_def unat_gt_0)
  have "unat (n + ucast (pr_Limit p - 1)) = unat n + (l - 1)"
    using assms l by (subst unat_plus_if_size) (simp add: word_size unat_limit unat_minus_one l_def)
  then have t: "unat (page_total n p) = (unat n + (l - 1)) div l"
    by (simp add: page_total_def unat_div unat_limit l_def)
  define m where "m = (unat n + (l - 1)) div l * l"
  have "unat n + (l - 1) < m + l" unfolding m_def using l(1) dividend_less_div_times by (metis add.commute)
  moreover have "m \<le> unat n + (l - 1)" by (simp add: m_def)
  ultimately have "unat n \<le> m" "0 < unat n \<longrightarrow> m - l < unat n" using l(1) by linarith+
  then show ?thesis unfolding t l_def [symmetric] by (simp add: diff_mult_distrib m_def)
qed

lemma page_offset_exact: "unat (page_offset p) = unat (pr_Page p) * unat (pr_Limit p)"
proof -
  have "unat (pr_Page p) * unat (pr_Limit p) < 2 ^ 16 * 2 ^ 16"
    by (rule mult_strict_mono) (use unsigned_less [of "pr_Page p"] unsigned_less [of "pr_Limit p"] in auto)
  then show ?thesis unfolding page_offset_def by (subst unat_mult_lem [THEN iffD1]) (simp_all add: unat_limit)
qed

end
