(* ===== verification/Http_Client.thy ===== *)
theory Http_Client
  imports Iam_Ticket Safe_Client Msq_Worker
begin

text \<open>
  Requests of the HTTP client, \<^verbatim>\<open>netx/httpx/client_request.go\<close>: the body that is sent, the retry loop and its waits. The
  network, the rate limiter, request signing and the HTTP date format are parameters.
\<close>

section \<open>Bodies\<close>

text \<open>
  What a caller may set: nothing, a form (encoded), a buffer (\<open>None\<close> when its slice is nil), a stream (with the error that
  ends it, if any), or a value with its JSON, if it has one.
\<close>

datatype request_body = BodyNil | BodyForm string | BodyBuffer "string option" | BodyStream string bool | BodyValue "string option"

datatype body_error = ReadBodyFailed | ErrUnsupportedBodyType

text \<open>A body ready to send: the reader, and the bytes kept for retries.\<close>

record RequestBodyResult =
  rb_Reader :: "string option"
  rb_JSONData :: "string option"

definition maxBufferedRequestBytes :: int where
  "maxBufferedRequestBytes = 1048576"

definition prepareRequestBody :: "string \<Rightarrow> request_body \<Rightarrow> body_error + RequestBodyResult" where
  "prepareRequestBody method body =
     (if body = BodyNil \<or> method = ''GET'' then Inr \<lparr>rb_Reader = None, rb_JSONData = None\<rparr>
      else
        (case body of
           BodyForm s \<Rightarrow> Inr \<lparr>rb_Reader = Some s, rb_JSONData = Some s\<rparr>
         | BodyBuffer s \<Rightarrow> Inr \<lparr>rb_Reader = Some (case s of None \<Rightarrow> [] | Some b \<Rightarrow> b), rb_JSONData = s\<rparr>
         | BodyStream s failed \<Rightarrow>
             (if failed \<and> int (length s) \<le> maxBufferedRequestBytes then Inl ReadBodyFailed
              else if int (length s) \<le> maxBufferedRequestBytes then Inr \<lparr>rb_Reader = Some s, rb_JSONData = Some s\<rparr>
              else Inr \<lparr>rb_Reader = Some s, rb_JSONData = None\<rparr>)
         | BodyValue j \<Rightarrow> (case j of None \<Rightarrow> Inl ErrUnsupportedBodyType | Some s \<Rightarrow> Inr \<lparr>rb_Reader = Some s, rb_JSONData = Some s\<rparr>)
         | BodyNil \<Rightarrow> Inr \<lparr>rb_Reader = None, rb_JSONData = None\<rparr>))"

section \<open>Waits\<close>

text \<open>Durations are nanoseconds in 64 bits.\<close>

definition max_int64 :: int where
  "max_int64 = 2 ^ 63 - 1"

definition wrap64 :: "int \<Rightarrow> int" where
  "wrap64 n = (n + 2 ^ 63) mod 2 ^ 64 - 2 ^ 63"

text \<open>\<open>parse_time\<close> is \<^verbatim>\<open>http.ParseTime\<close>; \<^verbatim>\<open>Time.Sub\<close> saturates.\<close>

definition parseRetryAfter :: "(string \<Rightarrow> int option) \<Rightarrow> string \<Rightarrow> int \<Rightarrow> int option" where
  "parseRetryAfter parse_time v now =
     (let v = TrimSpace v
      in if v = [] then None
         else
           (case ParseInt v of
              Some secs \<Rightarrow>
                if secs < 0 then None else if max_int64 div second < secs then Some max_int64 else Some (secs * second)
            | None \<Rightarrow>
                (case parse_time v of
                   Some t \<Rightarrow> Some (max (max (- (2 ^ 63)) (min max_int64 (t - now))) 0)
                 | None \<Rightarrow> None)))"

definition DefaultMaxRetryAfter :: int where
  "DefaultMaxRetryAfter = 30 * second"

definition maxRetryAfter :: "int \<Rightarrow> int" where
  "maxRetryAfter configured = (if 0 < configured then configured else DefaultMaxRetryAfter)"

definition withJitter :: "(int \<Rightarrow> int) \<Rightarrow> int \<Rightarrow> int" where
  "withJitter rand_N d = (if d \<le> 1 then d else d div 2 + rand_N (d div 2))"

definition incrementRetrySleep :: "int \<Rightarrow> int" where
  "incrementRetrySleep d = wrap64 (d + 5 * second)"

text \<open>The next wait, and whether it comes from the header.\<close>

definition handleRetryAfterHeader :: "(string \<Rightarrow> int option) \<Rightarrow> int \<Rightarrow> string \<Rightarrow> int \<Rightarrow> int \<Rightarrow> int \<times> bool" where
  "handleRetryAfterHeader parse_time configured header now currentSleep =
     (case parseRetryAfter parse_time header now of
        Some d \<Rightarrow> (min d (maxRetryAfter configured), True)
      | None \<Rightarrow> (incrementRetrySleep currentSleep, False))"

section \<open>Requests\<close>

record http_request =
  hr_Method :: string
  hr_Headers :: "(string \<times> string) list"
  hr_Retries :: int
  hr_retrySleep :: int
  hr_disableRetryOn429 :: bool
  hr_MaxRetryAfter :: int

definition retrySafe :: "(rune \<Rightarrow> rune) \<Rightarrow> http_request \<Rightarrow> bool" where
  "retrySafe canon r \<longleftrightarrow>
     hr_Method r \<in> {''GET'', ''HEAD'', ''OPTIONS'', ''PUT'', ''DELETE'', ''TRACE''} \<or>
     list_ex (\<lambda>(k, v). EqualFold canon k ''Idempotency-Key'' \<and> v \<noteq> []) (hr_Headers r)"

definition isRetryableStatus :: "int \<Rightarrow> bool" where
  "isRetryableStatus code \<longleftrightarrow> code \<in> {500, 502, 503, 504}"

definition isClientError :: "int \<Rightarrow> bool" where
  "isClientError code \<longleftrightarrow> 400 \<le> code \<and> code < 500"

text \<open>What \<^verbatim>\<open>http.Client.Do\<close> returns: an error (a blocked redirect or another one, with the status of a response that comes with it), nothing, or a response with its status and \<^verbatim>\<open>Retry-After\<close> header.\<close>

datatype http_reply = DoFailed bool "int option" | NoReply | Reply int string

datatype http_outcome =
  Delivered int | RateLimiting | CreateFailed | RedirectBlocked | ApiError int | ErrResponseIsNil | ContextDone | UnexpectedDuringRetries

text \<open>The surroundings of the loop, by attempt.\<close>

record http_env =
  he_limiter :: "int \<Rightarrow> bool"
  he_create :: "int \<Rightarrow> bool"
  he_do :: "int \<Rightarrow> http_reply"
  he_now :: "int \<Rightarrow> int"
  he_slept :: "int \<Rightarrow> int \<Rightarrow> bool"
  he_parse_time :: "string \<Rightarrow> int option"
  he_rand :: "int \<Rightarrow> int"
  he_canon :: "rune \<Rightarrow> rune"

text \<open>
  The attempts from one on. The body of an attempt is a fresh reader over the kept bytes, or else the one reader, which the
  first attempt has read to its end. The trace is what was sent, with its reply.
\<close>

definition attempt_body :: "RequestBodyResult \<Rightarrow> int \<Rightarrow> string option" where
  "attempt_body b attempt =
     (case rb_JSONData b of
        Some j \<Rightarrow> Some j
      | None \<Rightarrow> if attempt = 0 then rb_Reader b else map_option (\<lambda>_. []) (rb_Reader b))"

function retry_loop ::
  "http_env \<Rightarrow> http_request \<Rightarrow> int \<Rightarrow> RequestBodyResult \<Rightarrow> int \<Rightarrow> int \<Rightarrow> http_outcome \<times> (string option \<times> http_reply) list" where
  "retry_loop env r retries b attempt currentSleep =
     (if retries < attempt then (UnexpectedDuringRetries, [])
      else if \<not> he_limiter env attempt then (RateLimiting, [])
      else if \<not> he_create env attempt then (CreateFailed, [])
      else
        (let sent = (attempt_body b attempt, he_do env attempt);
             again = (\<lambda>wait sleep.
               if he_slept env attempt wait
               then (case retry_loop env r retries b (attempt + 1) sleep of (out, tr) \<Rightarrow> (out, sent # tr))
               else (ContextDone, [sent]))
         in case he_do env attempt of
              DoFailed redirect status \<Rightarrow>
                if redirect then (RedirectBlocked, [sent])
                else if attempt = retries \<or> \<not> retrySafe (he_canon env) r
                then (ApiError (case status of None \<Rightarrow> 503 | Some s \<Rightarrow> s), [sent])
                else again (withJitter (he_rand env) currentSleep) currentSleep
            | NoReply \<Rightarrow> (ErrResponseIsNil, [sent])
            | Reply status header \<Rightarrow>
                if status = 429 then
                  (if hr_disableRetryOn429 r then (ApiError 429, [sent])
                   else if attempt = retries then (ApiError 408, [sent])
                   else
                     (case handleRetryAfterHeader (he_parse_time env) (hr_MaxRetryAfter r) header (he_now env attempt) currentSleep of
                        (sleep, fromHeader) \<Rightarrow> again (if fromHeader then sleep else withJitter (he_rand env) sleep) sleep))
                else if isClientError status then (ApiError status, [sent])
                else if 500 \<le> status then
                  (if \<not> isRetryableStatus status \<or> attempt = retries \<or> \<not> retrySafe (he_canon env) r then (ApiError status, [sent])
                   else again (withJitter (he_rand env) currentSleep) currentSleep)
                else (Delivered status, [sent])))"
  by pat_completeness auto

termination
  by (relation "measure (\<lambda>(_, _, retries, _, attempt, _). nat (retries + 1 - attempt))") auto

definition executeWithRetries :: "http_env \<Rightarrow> http_request \<Rightarrow> RequestBodyResult \<Rightarrow> http_outcome \<times> (string option \<times> http_reply) list" where
  "executeWithRetries env r b =
     (let retries = (if rb_Reader b \<noteq> None \<and> rb_JSONData b = None \<and> 0 < hr_Retries r then 0 else hr_Retries r)
      in retry_loop env r retries b 0 (hr_retrySleep r))"

text \<open>\<^verbatim>\<open>Execute\<close>, up to the reading of the response.\<close>

definition http_Execute :: "http_env \<Rightarrow> http_request \<Rightarrow> request_body \<Rightarrow> body_error + http_outcome \<times> (string option \<times> http_reply) list" where
  "http_Execute env r body =
     (case prepareRequestBody (hr_Method r) body of Inl e \<Rightarrow> Inl e | Inr b \<Rightarrow> Inr (executeWithRetries env r b))"

declare retry_loop.simps [simp del]

section \<open>Lemmas\<close>

fun too_many :: "http_reply \<Rightarrow> bool" where
  "too_many (Reply status _) \<longleftrightarrow> status = 429"
| "too_many _ \<longleftrightarrow> False"

text \<open>An attempt ends the loop, or is followed by another one for a reason.\<close>

lemma retry_loop_step:
  "(\<exists>out. retry_loop env r retries b attempt s = (out, []) \<and> (\<forall>status. out \<noteq> Delivered status)) \<or>
   (\<exists>out. retry_loop env r retries b attempt s = (out, [(attempt_body b attempt, he_do env attempt)]) \<and> attempt \<le> retries \<and>
     (\<forall>status. out = Delivered status \<longrightarrow> status < 400 \<and> (\<exists>header. he_do env attempt = Reply status header))) \<or>
   (\<exists>s'. attempt < retries \<and> (retrySafe (he_canon env) r \<or> too_many (he_do env attempt)) \<and>
     retry_loop env r retries b attempt s =
       (fst (retry_loop env r retries b (attempt + 1) s'),
        (attempt_body b attempt, he_do env attempt) # snd (retry_loop env r retries b (attempt + 1) s')))"
  (is "?P (retry_loop env r retries b attempt s)")
  by (rule ssubst [OF retry_loop.simps, where P = ?P], cases "he_do env attempt")
    (auto simp: Let_def case_prod_beta isClientError_def not_less not_le)

text \<open>Every attempt is sent once, and one that follows another needs a reason.\<close>

lemma retry_loop_trace:
  assumes "0 \<le> attempt" and "rb_JSONData b \<noteq> None \<or> rb_Reader b = None \<or> retries \<le> 0"
  shows "int (length (snd (retry_loop env r retries b attempt s))) \<le> max 0 (retries + 1 - attempt) \<and>
    list_all (\<lambda>(body, _). body = attempt_body b 0) (snd (retry_loop env r retries b attempt s)) \<and>
    (\<not> retrySafe (he_canon env) r \<longrightarrow> list_all (\<lambda>(_, reply). too_many reply) (butlast (snd (retry_loop env r retries b attempt s)))) \<and>
    (\<forall>status. fst (retry_loop env r retries b attempt s) = Delivered status \<longrightarrow>
       status < 400 \<and> snd (retry_loop env r retries b attempt s) \<noteq> [] \<and>
       (\<exists>header. snd (last (snd (retry_loop env r retries b attempt s))) = Reply status header))"
  using assms
proof (induction "nat (retries - attempt)" arbitrary: attempt s rule: less_induct)
  case less
  have body: "attempt_body b attempt = attempt_body b 0" if "attempt \<le> retries"
    using less.prems that by (auto simp: attempt_body_def split: option.splits)
  consider (none) out where "retry_loop env r retries b attempt s = (out, [])" "\<forall>status. out \<noteq> Delivered status"
    | (one) out where "retry_loop env r retries b attempt s = (out, [(attempt_body b attempt, he_do env attempt)])" "attempt \<le> retries"
        "\<forall>status. out = Delivered status \<longrightarrow> status < 400 \<and> (\<exists>header. he_do env attempt = Reply status header)"
    | (again) s' where "attempt < retries" "retrySafe (he_canon env) r \<or> too_many (he_do env attempt)"
        "retry_loop env r retries b attempt s = (fst (retry_loop env r retries b (attempt + 1) s'),
          (attempt_body b attempt, he_do env attempt) # snd (retry_loop env r retries b (attempt + 1) s'))"
    using retry_loop_step [of env r retries b attempt s] by blast
  then show ?case
  proof cases
    case none
    then show ?thesis by simp
  next
    case one
    then show ?thesis using body by simp
  next
    case again
    have "nat (retries - (attempt + 1)) < nat (retries - attempt)" "0 \<le> attempt + 1" using again(1) less.prems(1) by simp_all
    note IH = less.hyps [OF this less.prems(2), of s']
    show ?thesis using IH again body less.prems(1) by (simp only: again(3)) auto
  qed
qed

text \<open>The bytes of a body, if it has any.\<close>

fun body_content :: "request_body \<Rightarrow> string option" where
  "body_content BodyNil = None"
| "body_content (BodyForm s) = Some s"
| "body_content (BodyBuffer s) = Some (case s of None \<Rightarrow> [] | Some b \<Rightarrow> b)"
| "body_content (BodyStream s _) = Some s"
| "body_content (BodyValue j) = j"

lemma prepared_body:
  assumes "prepareRequestBody method body = Inr b"
  shows "attempt_body b 0 = (if method = ''GET'' then None else body_content body)"
  using assms by (cases body) (auto simp: prepareRequestBody_def attempt_body_def split: if_splits option.splits)

lemma executeWithRetries_trace:
  assumes "executeWithRetries env r b = (out, tr)"
  shows "int (length tr) \<le> max 0 (hr_Retries r + 1) \<and> list_all (\<lambda>(body, _). body = attempt_body b 0) tr \<and>
    (\<not> retrySafe (he_canon env) r \<longrightarrow> list_all (\<lambda>(_, reply). too_many reply) (butlast tr)) \<and>
    (\<forall>status. out = Delivered status \<longrightarrow> status < 400 \<and> tr \<noteq> [] \<and> (\<exists>header. snd (last tr) = Reply status header))"
proof -
  define retries where "retries = (if rb_Reader b \<noteq> None \<and> rb_JSONData b = None \<and> 0 < hr_Retries r then 0 else hr_Retries r)"
  have eq: "retry_loop env r retries b 0 (hr_retrySleep r) = (out, tr)"
    using assms unfolding executeWithRetries_def Let_def retries_def [symmetric] .
  have "rb_JSONData b \<noteq> None \<or> rb_Reader b = None \<or> retries \<le> 0" by (simp add: retries_def)
  from retry_loop_trace [OF _ this, of 0 env r "hr_retrySleep r"] have
    "int (length tr) \<le> max 0 (retries + 1 - 0) \<and> list_all (\<lambda>(body, _). body = attempt_body b 0) tr \<and>
    (\<not> retrySafe (he_canon env) r \<longrightarrow> list_all (\<lambda>(_, reply). too_many reply) (butlast tr)) \<and>
    (\<forall>status. out = Delivered status \<longrightarrow> status < 400 \<and> tr \<noteq> [] \<and> (\<exists>header. snd (last tr) = Reply status header))"
    unfolding eq fst_conv snd_conv by simp
  moreover have "max 0 (retries + 1 - 0) \<le> max 0 (hr_Retries r + 1)" by (simp add: retries_def)
  ultimately show ?thesis by (blast intro: order_trans)
qed

text \<open>The wait that a server asks for is not negative and not above the maximum.\<close>

lemma retry_after_bounds:
  assumes "handleRetryAfterHeader parse_time configured header now s = (d, True)"
  shows "0 \<le> d \<and> d \<le> maxRetryAfter configured"
proof -
  have "0 \<le> x" if "parseRetryAfter parse_time header now = Some x" for x
    using that by (auto simp: parseRetryAfter_def Let_def max_int64_def second_def millisecond_def split: option.splits if_splits)
  moreover have "0 < maxRetryAfter configured" by (simp add: maxRetryAfter_def DefaultMaxRetryAfter_def second_def millisecond_def)
  ultimately show ?thesis using assms by (auto simp: handleRetryAfterHeader_def split: option.splits)
qed

lemma jitter_bounds: "rand_ok rand_N \<Longrightarrow> 1 < d \<Longrightarrow> d div 2 \<le> withJitter rand_N d \<and> withJitter rand_N d < d"
proof -
  assume "rand_ok rand_N" "1 < d"
  then have "0 \<le> rand_N (d div 2)" "rand_N (d div 2) < d div 2" by (simp_all add: rand_ok_def)
  then show ?thesis using \<open>1 < d\<close> by (simp add: withJitter_def)
qed

section \<open>Properties\<close>

text \<open>C16.
  A request that is not safe to repeat reaches a server that acts on it at most once: every reply that is followed by another
  attempt says that the server refused the request (status 429).
\<close>

theorem unsafe_request_acts_once:
  assumes "http_Execute env r body = Inr (out, tr)" and "\<not> retrySafe (he_canon env) r"
  shows "list_all (\<lambda>(_, reply). too_many reply) (butlast tr)"
  using assms executeWithRetries_trace by (auto simp: http_Execute_def split: sum.splits)

definition refusing_env :: http_env where
  "refusing_env = \<lparr>he_limiter = (\<lambda>_. True), he_create = (\<lambda>_. True),
     he_do = (\<lambda>n. if n = 0 then Reply 429 [] else if n = 1 then DoFailed False None else Reply 200 []), he_now = (\<lambda>_. 0),
     he_slept = (\<lambda>_ _. True), he_parse_time = (\<lambda>_. None), he_rand = (\<lambda>_. 0), he_canon = id\<rparr>"

definition order_request :: "string \<Rightarrow> http_request" where
  "order_request method =
     \<lparr>hr_Method = method, hr_Headers = [], hr_Retries = 5, hr_retrySleep = 2 * second, hr_disableRetryOn429 = False, hr_MaxRetryAfter = 0\<rparr>"

lemma refusing_runs:
  "http_Execute refusing_env (order_request ''POST'') (BodyForm ''x'') =
     Inr (ApiError 503, [(Some ''x'', Reply 429 []), (Some ''x'', DoFailed False None)])"
  "http_Execute refusing_env (order_request ''PUT'') (BodyForm ''x'') =
     Inr (Delivered 200, [(Some ''x'', Reply 429 []), (Some ''x'', DoFailed False None), (Some ''x'', Reply 200 [])])"
  by code_simp+

theorem unsafe_request_acts_once_witness:
  "list_all (\<lambda>(_, reply). too_many reply) (butlast [(Some ''x'', Reply 429 []), (Some ''x'', DoFailed False None)])"
  by (rule unsafe_request_acts_once [OF refusing_runs(1)]) code_simp

text \<open>C24.
  Every attempt carries the whole body, a streamed one included, no more attempts are made than the request allows, and a
  delivery is reported only for the reply to the last attempt.
\<close>

theorem every_attempt_sends_whole_body:
  assumes "http_Execute env r body = Inr (out, tr)"
  shows "list_all (\<lambda>(sent, _). sent = (if hr_Method r = ''GET'' then None else body_content body)) tr \<and>
    int (length tr) \<le> max 0 (hr_Retries r + 1) \<and>
    (\<forall>status. out = Delivered status \<longrightarrow> status < 400 \<and> (\<exists>header. snd (last tr) = Reply status header))"
proof -
  obtain b where b: "prepareRequestBody (hr_Method r) body = Inr b" "executeWithRetries env r b = (out, tr)"
    using assms by (auto simp: http_Execute_def split: sum.splits)
  show ?thesis using executeWithRetries_trace [OF b(2)] unfolding prepared_body [OF b(1)] by blast
qed

theorem every_attempt_sends_whole_body_witness:
  "list_all (\<lambda>(sent, _). sent = Some ''x'') [(Some ''x'', Reply 429 []), (Some ''x'', DoFailed False None), (Some ''x'', Reply 200 [])]"
  using every_attempt_sends_whole_body [OF refusing_runs(2)] by (simp add: order_request_def)

end
