(* ===== verification/Iam_Middleware.thy ===== *)
theory Iam_Middleware
  imports Iam_Props Safe_Client
begin

text \<open>
  What stands between a request and its handler: the HTTP middleware and gRPC interceptors of \<^verbatim>\<open>iam/middleware\<close>, the cookies
  of the login, the defaults of \<^verbatim>\<open>iam/config\<close> and the role provider \<^verbatim>\<open>iam/provider/rbac/roles\<close>, over the token validation
  of \<open>Iam_Auth\<close>. \<open>canon\<close> is the representative of a rune under Unicode simple folding.
\<close>

section \<open>Roles\<close>

type_synonym PermissionMap = "string \<rightharpoonup> (string \<rightharpoonup> string list)"

definition Enforce :: "PermissionMap \<Rightarrow> claims \<Rightarrow> string \<Rightarrow> string \<Rightarrow> bool" where
  "Enforce perms c resource action \<longleftrightarrow>
     list_ex (\<lambda>role.
       case perms role of
         None \<Rightarrow> False
       | Some m \<Rightarrow> (case m resource of None \<Rightarrow> False | Some actions \<Rightarrow> list_ex (\<lambda>a. a = action \<or> a = ''*'') actions)) (cl_Roles c)"

text \<open>The permissions of each resource, without the order of Go's maps.\<close>

definition merge_role :: "PermissionMap \<Rightarrow> (string \<rightharpoonup> string set) \<Rightarrow> string \<Rightarrow> string \<rightharpoonup> string set" where
  "merge_role perms merged role =
     (case perms role of
        None \<Rightarrow> merged
      | Some m \<Rightarrow>
          (\<lambda>resource. case m resource of
             None \<Rightarrow> merged resource
           | Some actions \<Rightarrow> Some (set actions \<union> (case merged resource of None \<Rightarrow> {} | Some as \<Rightarrow> as))))"

definition Permissions :: "PermissionMap \<Rightarrow> claims \<Rightarrow> string \<rightharpoonup> string set" where
  "Permissions perms c = foldl (merge_role perms) Map.empty (cl_Roles c)"

section \<open>HTTP\<close>

text \<open>Of a request: the \<^verbatim>\<open>Authorization\<close> header, empty when it is missing, and the claims in its context.\<close>

record mw_request =
  mq_Authorization :: string
  mq_Claims :: "claims option"

text \<open>A handler answers, or a status is written in its place.\<close>

type_synonym ('r, 'st) handler = "mw_request \<Rightarrow> 'st \<Rightarrow> (int + 'r) \<times> 'st"

definition extractBearerFromValue :: "(rune \<Rightarrow> rune) \<Rightarrow> string \<Rightarrow> string" where
  "extractBearerFromValue canon v =
     (case split_n 2 (CHR '' '') v of
        [scheme, token] \<Rightarrow> if EqualFold canon scheme ''bearer'' then TrimSpace token else []
      | _ \<Rightarrow> [])"

definition extractBearerToken :: "(rune \<Rightarrow> rune) \<Rightarrow> mw_request \<Rightarrow> string" where
  "extractBearerToken canon r = (if mq_Authorization r = [] then [] else extractBearerFromValue canon (mq_Authorization r))"

definition AuthMiddleware ::
  "(rune \<Rightarrow> rune) \<Rightarrow> ('s, 't, 'k) local_auth \<Rightarrow> (nat \<Rightarrow> time) \<Rightarrow> ('r, ('s, 't, 'k) iam_state) handler \<Rightarrow> ('r, ('s, 't, 'k) iam_state) handler" where
  "AuthMiddleware canon a clock nxt r st =
     (let token = extractBearerToken canon r
      in if token = [] then (Inl 401, st)
         else
           (case ValidateToken a clock token st of
              (Inl _, st) \<Rightarrow> (Inl 401, st)
            | (Inr c, st) \<Rightarrow> nxt (r\<lparr>mq_Claims := Some c\<rparr>) st))"

definition RBACMiddleware :: "PermissionMap \<Rightarrow> string \<Rightarrow> string \<Rightarrow> ('r, 'st) handler \<Rightarrow> ('r, 'st) handler" where
  "RBACMiddleware perms resource action nxt r st =
     (case mq_Claims r of
        None \<Rightarrow> (Inl 401, st)
      | Some c \<Rightarrow> if Enforce perms c resource action then nxt r st else (Inl 403, st))"

definition TenantMiddleware :: "tenant_port \<Rightarrow> ('r, 'st) handler \<Rightarrow> ('r, 'st) handler" where
  "TenantMiddleware tenants nxt r st =
     (case mq_Claims r of
        None \<Rightarrow> (Inl 401, st)
      | Some c \<Rightarrow> if AssertAccess tenants (cl_UserID c) (cl_TenantID c) (cl_Module c) = None then nxt r st else (Inl 403, st))"

section \<open>gRPC\<close>

text \<open>The prefixes that options add, in order.\<close>

definition newGRPCOptions :: "string list list \<Rightarrow> string list" where
  "newGRPCOptions opts = ''/grpc.health.v1.Health/'' # concat opts"

definition WithPublicReflection :: "string list" where
  "WithPublicReflection = [''/grpc.reflection.'']"

definition isPublic :: "string list \<Rightarrow> string \<Rightarrow> bool" where
  "isPublic prefs fullMethod \<longleftrightarrow> list_ex (\<lambda>p. prefix p fullMethod) prefs"

datatype grpc_error = MissingMetadata | MissingAuthorization | InvalidFormat | InvalidToken

text \<open>\<open>md\<close> is the incoming metadata, if any, with the values of \<^verbatim>\<open>authorization\<close>.\<close>

definition authenticateGRPC ::
  "(rune \<Rightarrow> rune) \<Rightarrow> ('s, 't, 'k) local_auth \<Rightarrow> (nat \<Rightarrow> time) \<Rightarrow> string list option \<Rightarrow> ('s, 't, 'k) iam_state \<Rightarrow>
   (grpc_error + claims) \<times> ('s, 't, 'k) iam_state" where
  "authenticateGRPC canon a clock md st =
     (case md of
        None \<Rightarrow> (Inl MissingMetadata, st)
      | Some [] \<Rightarrow> (Inl MissingAuthorization, st)
      | Some (v # _) \<Rightarrow>
          (let token = extractBearerFromValue canon v
           in if token = [] then (Inl InvalidFormat, st)
              else (case ValidateToken a clock token st of (Inl _, st) \<Rightarrow> (Inl InvalidToken, st) | (Inr c, st) \<Rightarrow> (Inr c, st))))"

text \<open>The handler gets the claims put into its context; those of an unauthenticated call are the ones it had.\<close>

definition AuthInterceptor ::
  "(rune \<Rightarrow> rune) \<Rightarrow> ('s, 't, 'k) local_auth \<Rightarrow> string list list \<Rightarrow> (nat \<Rightarrow> time) \<Rightarrow>
   (claims option \<Rightarrow> ('s, 't, 'k) iam_state \<Rightarrow> (grpc_error + 'r) \<times> ('s, 't, 'k) iam_state) \<Rightarrow>
   string \<Rightarrow> string list option \<Rightarrow> claims option \<Rightarrow> ('s, 't, 'k) iam_state \<Rightarrow> (grpc_error + 'r) \<times> ('s, 't, 'k) iam_state" where
  "AuthInterceptor canon a opts clock hdl fullMethod md ctx st =
     (if isPublic (newGRPCOptions opts) fullMethod then hdl ctx st
      else (case authenticateGRPC canon a clock md st of (Inl e, st) \<Rightarrow> (Inl e, st) | (Inr c, st) \<Rightarrow> hdl (Some c) st))"

section \<open>Cookies\<close>

record security_config =
  sc_AccessTokenTTL :: int
  sc_RefreshTokenTTL :: int
  sc_SessionMaxLifetime :: int
  sc_Issuer :: string
  sc_VerifyIssuer :: bool
  sc_InsecureSkipIssuerCheck :: bool
  sc_CookieName :: string
  sc_CookiePath :: string
  sc_CookieDomain :: string
  sc_CookieSameSite :: int
  sc_CookieInsecure :: bool
  sc_IDPStateCookieName :: string
  sc_IDPStateTTL :: int

definition minutes :: "int \<Rightarrow> int" where
  "minutes n = n * 60 * nanosecond_s"

definition ApplyDefaults :: "security_config \<Rightarrow> security_config" where
  "ApplyDefaults s =
     (let refresh = (if sc_RefreshTokenTTL s = 0 then minutes (7 * 24 * 60) else sc_RefreshTokenTTL s)
      in s\<lparr>sc_AccessTokenTTL := (if sc_AccessTokenTTL s = 0 then minutes 15 else sc_AccessTokenTTL s),
           sc_RefreshTokenTTL := refresh,
           sc_SessionMaxLifetime := (if sc_SessionMaxLifetime s = 0 then max (minutes (30 * 24 * 60)) refresh else sc_SessionMaxLifetime s),
           sc_Issuer := (if sc_Issuer s = [] then ''gofi/iam'' else sc_Issuer s),
           sc_VerifyIssuer := (\<not> sc_InsecureSkipIssuerCheck s \<or> sc_VerifyIssuer s),
           sc_CookieName := (if sc_CookieName s = [] then ''iam_rt'' else sc_CookieName s),
           sc_CookiePath := (if sc_CookiePath s = [] then ''/auth/refresh'' else sc_CookiePath s),
           sc_CookieSameSite := (if sc_CookieSameSite s = 0 then 3 else sc_CookieSameSite s),
           sc_IDPStateCookieName := (if sc_IDPStateCookieName s = [] then ''iam_idp_state'' else sc_IDPStateCookieName s),
           sc_IDPStateTTL := (if sc_IDPStateTTL s = 0 then minutes 10 else sc_IDPStateTTL s)\<rparr>)"

text \<open>\<open>ck_MaxAge\<close> is in seconds, negative to delete the cookie.\<close>

record cookie =
  ck_Name :: string
  ck_Value :: string
  ck_Path :: string
  ck_Domain :: string
  ck_MaxAge :: int
  ck_HttpOnly :: bool
  ck_Secure :: bool
  ck_SameSite :: int

text \<open>Conversion of a duration to whole seconds, towards zero.\<close>

definition whole_seconds :: "int \<Rightarrow> int" where
  "whole_seconds d = (if d < 0 then - (- d div nanosecond_s) else d div nanosecond_s)"

definition SetRefreshCookie :: "time \<Rightarrow> security_config \<Rightarrow> session \<Rightarrow> cookie" where
  "SetRefreshCookie now sec s =
     (let sec = ApplyDefaults sec
      in \<lparr>ck_Name = sc_CookieName sec, ck_Value = s_RefreshToken s, ck_Path = sc_CookiePath sec, ck_Domain = sc_CookieDomain sec,
          ck_MaxAge = max (whole_seconds (s_ExpiresAt s - now)) 1, ck_HttpOnly = True, ck_Secure = (\<not> sc_CookieInsecure sec),
          ck_SameSite = sc_CookieSameSite sec\<rparr>)"

definition ClearRefreshCookie :: "security_config \<Rightarrow> cookie" where
  "ClearRefreshCookie sec =
     (let sec = ApplyDefaults sec
      in \<lparr>ck_Name = sc_CookieName sec, ck_Value = [], ck_Path = sc_CookiePath sec, ck_Domain = sc_CookieDomain sec,
          ck_MaxAge = - 1, ck_HttpOnly = True, ck_Secure = (\<not> sc_CookieInsecure sec), ck_SameSite = sc_CookieSameSite sec\<rparr>)"

text \<open>\<open>cookies\<close> are the cookies of a request by name, the first of each name.\<close>

definition RefreshTokenFromCookie :: "(string \<rightharpoonup> string) \<Rightarrow> security_config \<Rightarrow> string" where
  "RefreshTokenFromCookie cookies sec = (case cookies (sc_CookieName (ApplyDefaults sec)) of None \<Rightarrow> [] | Some v \<Rightarrow> v)"

definition SetIDPStateCookie :: "security_config \<Rightarrow> string \<Rightarrow> string \<Rightarrow> cookie" where
  "SetIDPStateCookie sec state verifier =
     (let sec = ApplyDefaults sec
      in \<lparr>ck_Name = sc_IDPStateCookieName sec, ck_Value = state @ ''.'' @ verifier, ck_Path = ''/'', ck_Domain = sc_CookieDomain sec,
          ck_MaxAge = whole_seconds (sc_IDPStateTTL sec), ck_HttpOnly = True, ck_Secure = (\<not> sc_CookieInsecure sec), ck_SameSite = 2\<rparr>)"

definition IDPStateFromCookie :: "(string \<rightharpoonup> string) \<Rightarrow> security_config \<Rightarrow> (string \<times> string) option" where
  "IDPStateFromCookie cookies sec =
     (case cookies (sc_IDPStateCookieName (ApplyDefaults sec)) of
        None \<Rightarrow> None
      | Some v \<Rightarrow> (case cut (CHR ''.'') v of None \<Rightarrow> None | Some (state, verifier) \<Rightarrow> if state = [] \<or> verifier = [] then None else Some (state, verifier)))"

definition ClearIDPStateCookie :: "security_config \<Rightarrow> cookie" where
  "ClearIDPStateCookie sec =
     (let sec = ApplyDefaults sec
      in \<lparr>ck_Name = sc_IDPStateCookieName sec, ck_Value = [], ck_Path = ''/'', ck_Domain = sc_CookieDomain sec, ck_MaxAge = - 1,
          ck_HttpOnly = True, ck_Secure = (\<not> sc_CookieInsecure sec), ck_SameSite = 2\<rparr>)"

section \<open>Lemmas\<close>

definition grants :: "(string \<rightharpoonup> string set) \<Rightarrow> string \<Rightarrow> string \<Rightarrow> bool" where
  "grants m resource a \<longleftrightarrow> (\<exists>actions. m resource = Some actions \<and> a \<in> actions)"

definition role_grants :: "PermissionMap \<Rightarrow> string \<Rightarrow> string \<Rightarrow> string \<Rightarrow> bool" where
  "role_grants perms resource a role \<longleftrightarrow> (\<exists>m actions. perms role = Some m \<and> m resource = Some actions \<and> a \<in> set actions)"

lemma merge_role_grants: "grants (merge_role perms merged role) resource a \<longleftrightarrow> grants merged resource a \<or> role_grants perms resource a role"
proof (cases "perms role")
  case None
  then show ?thesis by (simp add: merge_role_def role_grants_def)
next
  case (Some m)
  then show ?thesis
    by (cases "m resource"; cases "merged resource") (auto simp: merge_role_def grants_def role_grants_def)
qed

lemma merge_roles_grant:
  "grants (foldl (merge_role perms) merged roles) resource a \<longleftrightarrow> grants merged resource a \<or> (\<exists>role \<in> set roles. role_grants perms resource a role)"
  by (induction roles arbitrary: merged) (auto simp: merge_role_grants)

lemma Enforce_role_grants:
  "Enforce perms c resource action \<longleftrightarrow>
     (\<exists>role \<in> set (cl_Roles c). role_grants perms resource action role \<or> role_grants perms resource ''*'' role)"
  unfolding Enforce_def list_ex_iff
proof (rule bex_cong [OF refl])
  fix role
  show "(case perms role of None \<Rightarrow> False | Some m \<Rightarrow> case m resource of None \<Rightarrow> False | Some actions \<Rightarrow> \<exists>a \<in> set actions. a = action \<or> a = ''*'') =
      (role_grants perms resource action role \<or> role_grants perms resource ''*'' role)"
    by (cases "perms role"; cases "the (perms role) resource") (auto simp: role_grants_def)
qed

text \<open>The state that the login cookie carries is read back.\<close>

lemma idp_state_round_trip:
  assumes "CHR ''.'' \<notin> set state" and "state \<noteq> []" and "verifier \<noteq> []"
    and "cookies (ck_Name (SetIDPStateCookie sec state verifier)) = Some (ck_Value (SetIDPStateCookie sec state verifier))"
  shows "IDPStateFromCookie cookies sec = Some (state, verifier)"
  using assms by (simp add: IDPStateFromCookie_def SetIDPStateCookie_def Let_def)

text \<open>Scripts do not see the cookies, they travel over TLS unless that is switched off, and clearing one hits the cookie that was set.\<close>

lemma cookies_protected:
  "list_all (\<lambda>c. ck_HttpOnly c \<and> (ck_Secure c \<or> sc_CookieInsecure sec))
     [SetRefreshCookie now sec s, ClearRefreshCookie sec, SetIDPStateCookie sec state verifier, ClearIDPStateCookie sec]"
  "(\<lambda>c. (ck_Name c, ck_Path c, ck_Domain c)) (ClearRefreshCookie sec) = (\<lambda>c. (ck_Name c, ck_Path c, ck_Domain c)) (SetRefreshCookie now sec s)"
  "(\<lambda>c. (ck_Name c, ck_Path c, ck_Domain c)) (ClearIDPStateCookie sec) = (\<lambda>c. (ck_Name c, ck_Path c, ck_Domain c)) (SetIDPStateCookie sec state verifier)"
  by (simp_all add: SetRefreshCookie_def ClearRefreshCookie_def SetIDPStateCookie_def ClearIDPStateCookie_def ApplyDefaults_def Let_def)

lemma ApplyDefaults_twice: "ApplyDefaults (ApplyDefaults s) = ApplyDefaults s"
  by (rule security_config.equality) (simp_all add: ApplyDefaults_def Let_def minutes_def nanosecond_s_def max_def)

section \<open>Properties\<close>

text \<open>C15.
  A handler behind the three middlewares runs only for a caller with a live session. After any calls of the login service
  from an empty store, a request is refused with 401 or 403, or the handler gets claims whose session is stored, of the
  claims' user and tenant, unrevoked and unexpired, whose roles grant the action, and whose access to the tenant still holds.
\<close>

theorem guarded_handler_needs_live_session:
  assumes "si_session (la_issuer a) = mem_port" "ms_sessions (is_sessions st0) = Map.empty"
    and "AuthMiddleware canon a clock (TenantMiddleware tenants (RBACMiddleware perms resource action nxt)) r (iam_run tenv a calls st0) = out"
  shows "fst out \<in> {Inl 401, Inl 403} \<or>
    (\<exists>c s st. out = nxt (r\<lparr>mq_Claims := Some c\<rparr>) st \<and> Enforce perms c resource action \<and>
      AssertAccess tenants (cl_UserID c) (cl_TenantID c) (cl_Module c) = None \<and>
      ms_sessions (is_sessions (iam_run tenv a calls st0)) (cl_SessionID c) = Some s \<and>
      s_UserID s = cl_UserID c \<and> s_TenantID s = cl_TenantID c \<and> \<not> s_Revoked s \<and> clock 1 \<le> s_ExpiresAt s)"
proof (cases "fst (ValidateToken a clock (extractBearerToken canon r) (iam_run tenv a calls st0))")
  case (Inl e)
  then show ?thesis using assms(3) by (auto simp: AuthMiddleware_def Let_def split: prod.splits if_splits)
next
  case (Inr c)
  then obtain st where v: "ValidateToken a clock (extractBearerToken canon r) (iam_run tenv a calls st0) = (Inr c, st)"
    by (metis prod.collapse)
  obtain s where s: "ms_sessions (is_sessions (iam_run tenv a calls st0)) (cl_SessionID c) = Some s"
    "s_UserID s = cl_UserID c" "s_TenantID s = cl_TenantID c" "\<not> s_Revoked s" "clock 1 \<le> s_ExpiresAt s"
    using validated_session [OF assms(1,2) v] by blast
  have "fst out \<in> {Inl 401, Inl 403} \<or> out = nxt (r\<lparr>mq_Claims := Some c\<rparr>) st \<and> Enforce perms c resource action \<and>
      AssertAccess tenants (cl_UserID c) (cl_TenantID c) (cl_Module c) = None"
    using assms(3) v by (auto simp: AuthMiddleware_def TenantMiddleware_def RBACMiddleware_def Let_def split: if_splits)
  then show ?thesis using s by blast
qed

definition bearer_request :: mw_request where
  "bearer_request = \<lparr>mq_Authorization = ''bearer s1'', mq_Claims = None\<rparr>"

definition admin_perms :: PermissionMap where
  "admin_perms = [''admin'' \<mapsto> [''orders'' \<mapsto> [''*'']]]"

definition guarded :: "(unit, (mem_sessions, throttler, ticket_store) iam_state) handler" where
  "guarded = AuthMiddleware id (sample_auth True) (sample_clock 20)
     (TenantMiddleware sample_tenants (RBACMiddleware admin_perms ''orders'' ''read'' (\<lambda>_ st. (Inr (), st))))"

lemma guarded_served: "fst (guarded bearer_request first_state) = Inr ()"
proof -
  have "TrimSpace ''s1'' = ''s1''" by (simp add: TrimSpace_ascii ascii_space_def)
  then have t: "extractBearerToken id bearer_request = ''s1''"
    by (simp add: extractBearerToken_def extractBearerFromValue_def bearer_request_def EqualFold_def numeral_2_eq_2)
  have "fst (ValidateToken (sample_auth True) (sample_clock 20) ''s1'' first_state) = Inr (sample_claims ''s1'')"
    by (simp add: ValidateToken_def checkSession_def mem_Get_def first_sessions first_session_def found_def
        checkUserCutoff_def mem_RevokedBefore_def sample_defs Let_def)
  then obtain st where "ValidateToken (sample_auth True) (sample_clock 20) ''s1'' first_state = (Inr (sample_claims ''s1''), st)"
    by (metis prod.collapse)
  then show ?thesis
    by (simp add: guarded_def AuthMiddleware_def t TenantMiddleware_def RBACMiddleware_def Enforce_def admin_perms_def
        sample_tenants_def sample_claims_def)
qed

theorem guarded_handler_needs_live_session_witness:
  "fst (guarded bearer_request first_state) = Inr () \<and>
   (\<exists>c s. ms_sessions (is_sessions first_state) (cl_SessionID c) = Some s \<and> s_UserID s = cl_UserID c \<and> \<not> s_Revoked s \<and>
      21 \<le> s_ExpiresAt s \<and> Enforce admin_perms c ''orders'' ''read'')"
  using guarded_handler_needs_live_session [of "sample_auth True" sample_state id "sample_clock 20" sample_tenants admin_perms "''orders''" "''read''"
      "\<lambda>_ st. (Inr (), st)" bearer_request ascii_env "[first_select]", folded first_state_def guarded_def, OF _ sample_empty refl]
    guarded_served
  by (auto simp: sample_clock_def)

text \<open>The two answers of the role provider agree: an action on a resource is granted exactly if the permissions it lists for the
  resource hold the action or the wildcard.
\<close>

theorem enforce_matches_permissions:
  "Enforce perms c resource action \<longleftrightarrow>
     (\<exists>actions. Permissions perms c resource = Some actions \<and> (action \<in> actions \<or> ''*'' \<in> actions))"
proof -
  have "grants (Permissions perms c) resource a \<longleftrightarrow> (\<exists>role \<in> set (cl_Roles c). role_grants perms resource a role)" for a
    unfolding Permissions_def merge_roles_grant by (simp add: grants_def)
  then have "Enforce perms c resource action \<longleftrightarrow> grants (Permissions perms c) resource action \<or> grants (Permissions perms c) resource ''*''"
    by (auto simp: Enforce_role_grants)
  then show ?thesis by (auto simp: grants_def)
qed

text \<open>A gRPC method that is not public needs a token of a live session; the health check is the only public one by default.\<close>

lemma grpc_call_needs_live_session:
  assumes "si_session (la_issuer a) = mem_port" "ms_sessions (is_sessions st0) = Map.empty"
    and "\<not> isPublic (newGRPCOptions opts) fullMethod"
    and "AuthInterceptor canon a opts clock hdl fullMethod md ctx (iam_run tenv a calls st0) = out"
  shows "(\<exists>e. fst out = Inl e) \<or>
    (\<exists>c s st. out = hdl (Some c) st \<and> ms_sessions (is_sessions (iam_run tenv a calls st0)) (cl_SessionID c) = Some s \<and>
      s_UserID s = cl_UserID c \<and> s_TenantID s = cl_TenantID c \<and> \<not> s_Revoked s \<and> clock 1 \<le> s_ExpiresAt s)"
proof (cases "authenticateGRPC canon a clock md (iam_run tenv a calls st0)")
  case (Pair r st)
  show ?thesis
  proof (cases r)
    case (Inl e)
    then show ?thesis using assms(3,4) Pair by (auto simp: AuthInterceptor_def)
  next
    case (Inr c)
    then obtain token where v: "ValidateToken a clock token (iam_run tenv a calls st0) = (Inr c, st)"
      using Pair by (auto simp: authenticateGRPC_def Let_def split: option.splits list.splits if_splits prod.splits sum.splits)
    from validated_session [OF assms(1,2) v] show ?thesis
      using assms(3,4) Pair Inr by (auto simp: AuthInterceptor_def)
  qed
qed

end
