(* ===== verification/Spec2Isabelle.thy ===== *)
theory Spec2Isabelle
  imports Criteria_Props Dynamic_Filter_Props Fts_Props Fts_Tools Dialect_Props
    Lifecycle_Props Shutdown Msq_Pipeline_Props Msq_Manager_Props Iam_Login_Props Transaction
    Safe_Client Sql_Format Bucket Jwks Kafka Query_Manager Http_Client Iam_Middleware
begin

text \<open>
  Verification of the gofi SDK, a Go toolkit for services: query building (\<^verbatim>\<open>sqln\<close>), identity (\<^verbatim>\<open>iam\<close>),
  messaging (\<^verbatim>\<open>msq\<close>), HTTP (\<^verbatim>\<open>netx\<close>), object storage (\<^verbatim>\<open>base/bucket\<close>) and the bootstrap that wires them
  (\<^verbatim>\<open>gofi\<close>). Paths below are under \<^verbatim>\<open>src/\<close>. This theory collects the development; each component has its own theory.

  \<^bold>\<open>Conventions.\<close> A Go string is a byte string. A fallible function returns a sum whose left side is the error, or an
  option where only the failure matters. A panic is \<open>None\<close> or a constructor of its own. An interface is a record of
  functions, and an optional one an option. State is passed and returned. Durations and shifts that can overflow are
  64-bit words. Random values, clock readings, brokers, databases, hashes and the Unicode tables are arguments.

  \<^bold>\<open>Shared.\<close> \<open>Go_Prelude\<close> (results, joining, splitting, decimal numbers) and \<open>Go_Utf8\<close> (runes as Go decodes them).

  \<^bold>\<open>Query building.\<close>
  \<^item> \<open>Dialect\<close>, \<open>Dialect_Props\<close>, \<open>Full_Text\<close>: \<^verbatim>\<open>sqln/driver\<close> with the PostgreSQL, MySQL, SQL Server and Oracle
    dialects: operators, identifiers, LIKE patterns, full-text rendering.
  \<^item> \<open>Criteria\<close>, \<open>Criteria_Spec\<close>, \<open>Criteria_Props\<close>: \<^verbatim>\<open>sqln/criteria\<close>. The builder refines a specification without
    state, proved once in the locale \<open>sql_templates\<close> and interpreted for the four dialects. Fields in the text are
    identifiers, bound values never enter the text, and a substring condition matches literally.
  \<^item> \<open>Dynamic_Filter\<close>, \<open>Dynamic_Filter_Props\<close>: \<^verbatim>\<open>sqln/filter\<close>. A request filter that builds is admitted by the
    mapping and within its limits, and an admitted one builds.
  \<^item> \<open>Fts\<close>, \<open>Fts_Props\<close>, \<open>Fts_Tools\<close>: \<^verbatim>\<open>sqln/fts\<close>. The search string reads back as the parsed search, the search is
    bounded, and rendered highlights are safe HTML.
  \<^item> \<open>Transaction\<close>: \<^verbatim>\<open>sqln/transaction\<close> and \<^verbatim>\<open>sqln/connection/retry.go\<close>. Every begun attempt is settled by one
    commit or rollback call, only the last may commit, and success is reported exactly for a commit. The delay
    overflows at the 40th attempt.
  \<^item> \<open>Sql_Format\<close>: \<^verbatim>\<open>sqln/connection/sqlformat.go\<close>. The tokens of a statement are well formed, and the layout has the
    text of the statement but for white space; a doubled quote inside a quoted identifier is split.
  \<^item> \<open>Query_Manager\<close>: \<^verbatim>\<open>sqln/pagination\<close>, \<^verbatim>\<open>sqln/connection/txctx.go\<close> and \<^verbatim>\<open>sqln/manager_cache.go\<close>. The encoding that is
    hashed into a cache key is injective, so a cached read never answers with the rows of another request.

  \<^bold>\<open>Identity.\<close>
  \<^item> \<open>Iam_Ticket\<close>, \<open>Iam_Store\<close>: tickets, refresh tokens and the in-memory stores (\<^verbatim>\<open>iam/core/ticket.go\<close>,
    \<^verbatim>\<open>session.go\<close>, \<^verbatim>\<open>iam/provider/memory\<close>). \<open>Iam_Issuer\<close>, \<open>Iam_Auth\<close>: the operations of \<^verbatim>\<open>iam/core\<close>.
  \<^item> \<open>Iam_Throttle\<close>: password guesses are bounded in every window.
  \<^item> \<open>Iam_Sessions\<close>: the contract of a session store as the locale \<open>session_store\<close>, interpreted on the in-memory store.
    \<open>Iam_Runs\<close>: arbitrary sequences of calls. \<open>Iam_Samples\<close>: a concrete service.
  \<^item> \<open>Iam_Props\<close>, \<open>Iam_Login_Props\<close>: sessions stay within their lifetime, a validated token is live, a replayed refresh
    token revokes all sessions of the user, a concurrent refresh has one winner, a ticket opens one session, and a
    failed login does not tell whether the email is known.
  \<^item> \<open>Jwks\<close>: \<^verbatim>\<open>iam/provider/jwks\<close> and \<^verbatim>\<open>iam/internal/flight\<close>. A verified token was signed by a strong key of the
    configured issuer, and a failed fetch keeps the keys. A failing endpoint is asked again by every unknown key.
  \<^item> \<open>Iam_Middleware\<close>: \<^verbatim>\<open>iam/middleware\<close>, the role provider and the defaults of \<^verbatim>\<open>iam/config\<close>, over token validation. A
    guarded handler or gRPC method runs only for a live session, a granted action and a tenant the user may access.

  \<^bold>\<open>Messaging.\<close>
  \<^item> \<open>Msq_Worker\<close> (\<^verbatim>\<open>msq/worker\<close>), \<open>Msq_Pipeline\<close> and its properties (\<^verbatim>\<open>msq/core/pipeline.go\<close>, \<^verbatim>\<open>producer.go\<close>):
    backoff, bounded retries, no message is lost silently.
  \<^item> \<open>Msq_Manager\<close> and its properties (\<^verbatim>\<open>msq/core/manager.go\<close>): the supervisor as a machine that ends with its context,
    reports a crash loop and launches each consumer once.
  \<^item> \<open>Kafka\<close>: \<^verbatim>\<open>msq/types/codec.go\<close> and \<^verbatim>\<open>msq/provider/kafka\<close>, composed with the pipeline. A message is read back from
    its record, and with a delivery limit no poison record blocks a partition, unless its dead-letter sends fail.

  \<^bold>\<open>Bootstrap and HTTP.\<close>
  \<^item> \<open>Transport\<close>, \<open>Lifecycle\<close>, \<open>Components\<close>, \<open>Lifecycle_Props\<close>: \<^verbatim>\<open>gofi\<close> and its cache and session components, with
    the locale \<open>start_contract\<close> interpreted on the components. A failed build closes everything it opened and an
    insecure transport is refused before anything starts.
  \<^item> \<open>Shutdown\<close>: the calls of \<^verbatim>\<open>ListenAndServe\<close> and \<^verbatim>\<open>Shutdown\<close> as interleaved threads.
  \<^item> \<open>Client_Ip\<close>: \<^verbatim>\<open>netx/httpx/server_client_ip.go\<close> and \<^verbatim>\<open>server_rate_limit.go\<close>. A client cannot choose the address
    it is known by, nor leave its rate-limit bucket. Addresses are parsed as \<^verbatim>\<open>net/netip\<close> does.
  \<^item> \<open>Safe_Client\<close>: \<^verbatim>\<open>netx/httpx/client_safe.go\<close>. No internal address passes the guard unless it carries a zone, bodies are
    capped, and redirects stay on their origin.
  \<^item> \<open>Http_Client\<close>: \<^verbatim>\<open>netx/httpx/client_request.go\<close>. A request that is not safe to repeat is repeated only when the server
    refused it, and every attempt carries the whole body.

  \<^bold>\<open>Object storage.\<close>
  \<^item> \<open>Bucket\<close>: \<^verbatim>\<open>base/bucket\<close> and its store in memory. The locale \<open>object_store\<close> is the contract of a store, interpreted
    on the one in memory: deleting a prefix removes what lies under it and nothing else, and a listing is one level.

  \<^bold>\<open>Termination.\<close> No definition uses fuel. Loops are structural or have a termination proof, and a loop that waits for
  its surroundings (the consumer supervisor, the shutdown threads) is a step function or a step relation. The redelivery
  of a Kafka record may run forever: it is a partial function whose value \<open>None\<close> is not returning, and the cases where it
  returns and where it does not are proved.

  \<^bold>\<open>Not modelled.\<close>
  \<^item> Adapters to third-party clients, whose behaviour is that of the client: \<^verbatim>\<open>msq/provider\<close> other than
    \<^verbatim>\<open>kafka\<close>, \<^verbatim>\<open>iam/provider\<close> other than \<^verbatim>\<open>memory\<close>, \<^verbatim>\<open>jwks\<close> and \<^verbatim>\<open>rbac\<close>, \<^verbatim>\<open>obs\<close>, most of \<^verbatim>\<open>base\<close>.
  \<^item> HTTP and gRPC servers, the gRPC client, CORS (which rests on URL parsing) and request signing in \<^verbatim>\<open>netx\<close>.
  \<^item> Row mapping by reflection, migrations and the execution of statements in \<^verbatim>\<open>sqln\<close>.
  \<^item> Cryptography, the time spent by the dummy password check, logging, metrics and traces.
  \<^item> The remaining components of \<^verbatim>\<open>gofi/component\<close> and the reading of their configuration.
\<close>

end
